theory Spec2Isabelle
  imports Complex_Main "HOL-Library.Stream" "HOL-Library.Log_Nat"
begin

section \<open>Python values, dictionaries and exceptions\<close>

text \<open>
  The generator of \<^verbatim>\<open>src/data/generate_synthetic_data.py\<close> builds Python dictionaries
  with string keys. A dictionary is a partial map from keys to values; the values that
  occur are integers, floats, strings, booleans, lists of strings and the ISO-8601
  rendering of a naive \<^verbatim>\<open>datetime\<close>.

  A naive \<^verbatim>\<open>datetime\<close> is the number of microseconds since a fixed origin, a
  \<^verbatim>\<open>timedelta\<close> a number of microseconds. The string produced by
  \<^verbatim>\<open>isoformat()\<close> is kept as the constructor \<open>PIso\<close> around the datetime it
  renders: \<^verbatim>\<open>datetime.fromisoformat\<close> reads back exactly the datetime that
  \<^verbatim>\<open>isoformat\<close> wrote.

  A Python float is an IEEE 754 binary64 number. It is modelled by the real number it
  denotes, and every operation on floats (sum, difference, product, decimal rounding,
  a float literal) rounds its exact result to the nearest binary64 number, ties going to
  the number with the even significand; see the section on binary64 below. Infinities,
  NaN and the sign of zero are not modelled: every float of the generator lies between
  \<open>-512\<close> and \<open>512\<close>.

  A \<^verbatim>\<open>datetime\<close> of Python lies between the years 1 and 9999 and an addition that
  leaves this range raises \<^verbatim>\<open>OverflowError\<close>. The model has no such bound: the
  generator subtracts at most 90 days from a reading of the clock and adds at most 29 days
  to the result, so that the bound is reached only by a clock that reads a date in the
  first 90 days of the year 1.
\<close>

type_synonym datetime = int
type_synonym timedelta = int

datatype pyval =
    PInt int
  | PFloat real
  | PStr string
  | PBool bool
  | PList "string list"
  | PIso datetime

datatype py_error = KeyError string | IndexError | ValueError | TypeError

type_synonym pydict = "string \<rightharpoonup> pyval"

text \<open>Sequencing of computations that may raise: the first exception is the result.\<close>

definition raising :: "py_error + 'a \<Rightarrow> ('a \<Rightarrow> py_error + 'b) \<Rightarrow> py_error + 'b" where
  "raising m f = (case m of Inl e \<Rightarrow> Inl e | Inr x \<Rightarrow> f x)"

text \<open>\<^verbatim>\<open>d[k]\<close> on a dictionary raises \<^verbatim>\<open>KeyError\<close> when the key is absent.\<close>

definition getitem :: "pydict \<Rightarrow> string \<Rightarrow> py_error + pyval" where
  "getitem d k = (case d k of None \<Rightarrow> Inl (KeyError k) | Some v \<Rightarrow> Inr v)"

text \<open>\<^verbatim>\<open>xs[i]\<close> on a list of length \<open>n\<close>: the positions \<open>0, ..., n - 1\<close> are read
  from the front, the positions \<open>-n, ..., -1\<close> from the back, and every other position
  raises \<^verbatim>\<open>IndexError\<close>.\<close>

definition list_getitem :: "'a list \<Rightarrow> int \<Rightarrow> py_error + 'a" where
  "list_getitem xs i =
     (if 0 \<le> i \<and> i < int (length xs) then Inr (xs ! nat i)
      else if - int (length xs) \<le> i \<and> i < 0 then Inr (xs ! nat (int (length xs) + i))
      else Inl IndexError)"

definition timedelta_days :: "int \<Rightarrow> timedelta" where
  "timedelta_days d = d * 86400000000"

text \<open>The \<^verbatim>\<open>.days\<close> attribute of a normalised \<^verbatim>\<open>timedelta\<close>.\<close>

definition days_of :: "timedelta \<Rightarrow> int" where
  "days_of td = td div 86400000000"

fun fromisoformat :: "pyval \<Rightarrow> py_error + datetime" where
  "fromisoformat (PIso t) = Inr t"
| "fromisoformat (PStr s) = Inl ValueError"
| "fromisoformat v = Inl TypeError"

section \<open>Binary64 arithmetic\<close>

text \<open>Rounding to the nearest integer, ties going to the even neighbour.\<close>

definition round_half_even :: "real \<Rightarrow> int" where
  "round_half_even y =
     (let f = \<lfloor>y\<rfloor>; r = y - of_int f
      in if r < 1 / 2 then f else if 1 / 2 < r then f + 1
         else if even f then f else f + 1)"

text \<open>
  A binary64 number is \<open>m * 2^(e - 52)\<close> with an integer \<open>m\<close> of magnitude below \<open>2^53\<close>
  and an exponent \<open>e\<close> from \<open>-1022\<close> to \<open>1023\<close>. The exponent \<open>expo x\<close> of a real \<open>x\<close> is
  the \<open>e\<close> with \<open>2^e \<le> |x| < 2^(e + 1)\<close>, and \<open>-1022\<close> when \<open>|x|\<close> is smaller than
  \<open>2^(-1022)\<close>: the integer part of \<open>|x| * 2^1074\<close> has \<open>e + 1075\<close> binary digits. The
  binary64 numbers next to \<open>x\<close> are \<open>ulp x\<close> apart, and \<open>fl x\<close> is the one nearest to \<open>x\<close>,
  the one with the even \<open>m\<close> when \<open>x\<close> is half way between two of them. The upper end of
  the exponent range is not modelled (a result of magnitude \<open>2^1024\<close> or more is an
  infinity in Python).
\<close>

definition expo :: "real \<Rightarrow> int" where
  "expo x = max (bitlen \<lfloor>\<bar>x\<bar> * 2 ^ 1074\<rfloor> - 1075) (- 1022)"

definition ulp :: "real \<Rightarrow> real" where
  "ulp x = 2 powi (expo x - 52)"

definition fl :: "real \<Rightarrow> real" where
  "fl x = of_int (round_half_even (x / ulp x)) * ulp x"

text \<open>The operators \<^verbatim>\<open>+\<close>, \<^verbatim>\<open>-\<close> and \<^verbatim>\<open>*\<close> on floats.\<close>

definition fadd :: "real \<Rightarrow> real \<Rightarrow> real" where
  "fadd x y = fl (x + y)"

definition fsub :: "real \<Rightarrow> real \<Rightarrow> real" where
  "fsub x y = fl (x - y)"

definition fmul :: "real \<Rightarrow> real \<Rightarrow> real" where
  "fmul x y = fl (x * y)"

section \<open>Rounding to decimal digits\<close>

text \<open>\<^verbatim>\<open>round(x, ndigits)\<close>: an \<^verbatim>\<open>int\<close> is returned unchanged (for
  \<open>ndigits \<ge> 0\<close>). For a float, the exact value of \<open>x\<close> is rounded to the nearest
  multiple of \<open>10^(-ndigits)\<close>, ties going to the even neighbour, and the result is the
  binary64 number nearest to that decimal number (CPython prints the float to
  \<open>ndigits\<close> digits, correctly rounded, and reads the digits back).\<close>

definition round_float :: "real \<Rightarrow> nat \<Rightarrow> real" where
  "round_float x ndigits = fl (of_int (round_half_even (x * 10 ^ ndigits)) / 10 ^ ndigits)"

fun py_round :: "pyval \<Rightarrow> nat \<Rightarrow> py_error + pyval" where
  "py_round (PInt n) ndigits = Inr (PInt n)"
| "py_round (PFloat x) ndigits = Inr (PFloat (round_float x ndigits))"
| "py_round (PBool b) ndigits = Inr (PInt (if b then 1 else 0))"
| "py_round v ndigits = Inl TypeError"

section \<open>The pseudo-random generator\<close>

text \<open>
  The state of a generator is the stream of raw numbers it has still to deliver; every
  draw consumes one of them. A draw below \<open>n\<close> reduces the raw number modulo \<open>n\<close>, so
  every stream is a possible run of the generator and every outcome in range is the
  outcome of some stream. The functions follow the module \<^verbatim>\<open>random\<close> of the Python
  library: \<^verbatim>\<open>random()\<close> is a multiple of \<open>2^-53\<close> in \<open>[0, 1)\<close>,
  \<^verbatim>\<open>uniform(a, b)\<close> is \<^verbatim>\<open>a + (b - a) * random()\<close> in float arithmetic,
  \<^verbatim>\<open>randint(a, b)\<close> is \<^verbatim>\<open>a + randbelow(b - a + 1)\<close>, \<^verbatim>\<open>choice(seq)\<close> is
  \<^verbatim>\<open>seq[randbelow(len(seq))]\<close>.
\<close>

type_synonym rng = "nat stream"

definition randbelow :: "nat \<Rightarrow> rng \<Rightarrow> nat \<times> rng" where
  "randbelow n g = (shd g mod n, stl g)"

definition py_random :: "rng \<Rightarrow> real \<times> rng" where
  "py_random g = (real (shd g mod 2 ^ 53) / 2 ^ 53, stl g)"

definition py_uniform :: "real \<Rightarrow> real \<Rightarrow> rng \<Rightarrow> real \<times> rng" where
  "py_uniform a b g = (case py_random g of (u, g') \<Rightarrow> (fadd a (fmul (fsub b a) u), g'))"

definition py_randint :: "int \<Rightarrow> int \<Rightarrow> rng \<Rightarrow> int \<times> rng" where
  "py_randint a b g = (case randbelow (nat (b - a + 1)) g of (r, g') \<Rightarrow> (a + int r, g'))"

definition py_choice :: "'a list \<Rightarrow> rng \<Rightarrow> 'a \<times> rng" where
  "py_choice seq g = (case randbelow (length seq) g of (i, g') \<Rightarrow> (seq ! i, g'))"

text \<open>
  \<^verbatim>\<open>random.sample(population, k)\<close> for a population of at most 21 elements copies the
  population into a pool and, for \<open>i = 0, ..., k - 1\<close>, draws \<open>j\<close> below \<open>n - i\<close>, takes
  \<open>pool[j]\<close> and overwrites it with \<open>pool[n - i - 1]\<close>. The third argument of the loop
  is \<open>i\<close>, the fourth the number of iterations left.
\<close>

fun sample_loop :: "nat \<Rightarrow> 'a list \<Rightarrow> nat \<Rightarrow> nat \<Rightarrow> rng \<Rightarrow> 'a list \<times> rng" where
  "sample_loop n pool i 0 g = ([], g)"
| "sample_loop n pool i (Suc m) g =
     (case randbelow (n - i) g of (j, g') \<Rightarrow>
        (case sample_loop n (pool[j := pool ! (n - i - 1)]) (Suc i) m g' of
           (rest, g'') \<Rightarrow> (pool ! j # rest, g'')))"

definition py_sample :: "'a list \<Rightarrow> int \<Rightarrow> rng \<Rightarrow> py_error + ('a list \<times> rng)" where
  "py_sample population k g =
     (let n = length population
      in if \<not> (0 \<le> k \<and> k \<le> int n) then Inl ValueError
         else Inr (sample_loop n population 0 (nat k) g))"

text \<open>
  \<^verbatim>\<open>random.choices(population, weights, k=1)[0]\<close>: the weights are accumulated, one
  \<^verbatim>\<open>random()\<close> is scaled by their total and located by bisection among all but the
  last of the cumulative weights. The sums and the product are float operations.
\<close>

fun accumulate :: "real \<Rightarrow> real list \<Rightarrow> real list" where
  "accumulate acc [] = []"
| "accumulate acc (w # ws) = fadd acc w # accumulate (fadd acc w) ws"

definition bisect :: "real list \<Rightarrow> real \<Rightarrow> nat" where
  "bisect a x = length (takeWhile (\<lambda>e. e \<le> x) a)"

definition py_choices1 :: "'a list \<Rightarrow> real list \<Rightarrow> rng \<Rightarrow> 'a \<times> rng" where
  "py_choices1 population weights g =
     (let cum_weights = accumulate 0 weights;
          total = last cum_weights
      in case py_random g of (u, g') \<Rightarrow>
           (population ! bisect (take (length population - 1) cum_weights) (fmul u total), g'))"

section \<open>Configuration\<close>

definition NUM_PATIENTS :: nat where
  "NUM_PATIENTS = 100"

definition DAYS_OF_DATA :: nat where
  "DAYS_OF_DATA = 30"

definition INDEX_NAME :: string where
  "INDEX_NAME = ''patients''"

text \<open>The keys of \<^verbatim>\<open>PATIENT_PROFILES\<close> with their weights, in the order of the
  dictionary literal. A float literal denotes the binary64 number nearest to it.\<close>

definition PATIENT_PROFILES :: "(string \<times> real) list" where
  "PATIENT_PROFILES =
     [(''stable'', fl (7 / 10)), (''high_risk_weight_gain'', fl (2 / 10)),
      (''non_adherent'', fl (1 / 10))]"

definition choose_profile :: "rng \<Rightarrow> string \<times> rng" where
  "choose_profile g =
     (let profiles = map fst PATIENT_PROFILES;
          weights = map snd PATIENT_PROFILES
      in py_choices1 profiles weights g)"

section \<open>The daily series of one patient\<close>

text \<open>The variables that the loop of \<^verbatim>\<open>generate_daily_time_series\<close> updates, with the
  state of the generator.\<close>

record loop_state =
  records :: "pydict list"
  daily_weights :: "real list"
  daily_adherence :: "bool list"
  current_weight :: real
  rng_state :: rng

text \<open>One iteration of \<^verbatim>\<open>for day in range(DAYS_OF_DATA)\<close>. The draws are made in the
  order in which the source evaluates them; the two statements
  \<^verbatim>\<open>current_weight += ...\<close> are float additions and the difference of line 109 is a
  float subtraction.\<close>

definition loop_body ::
  "pydict \<Rightarrow> datetime \<Rightarrow> int \<Rightarrow> int \<Rightarrow> nat \<Rightarrow> loop_state \<Rightarrow> py_error + loop_state" where
  "loop_body base_info discharge_date weight_gain_start_day non_adherent_start_day day s =
     (let record_date = discharge_date + timedelta_days (int day);
          daily_record = base_info(''date'' \<mapsto> PIso record_date);
          days_since_discharge = days_of (record_date - discharge_date);
          medication_adherence = True
      in case py_uniform (- (1 / 2)) (1 / 2) (rng_state s) of (jitter, g1) \<Rightarrow>
         let cw = fadd (current_weight s) jitter
         in case py_randint 1 3 g1 of (breath, g2) \<Rightarrow>
            case py_randint 1 4 g2 of (fatigue, g3) \<Rightarrow>
            case py_randint 1 3 g3 of (swelling, g4) \<Rightarrow>
         let symptoms = [''symptom_shortness_of_breath'' \<mapsto> PInt breath,
                         ''symptom_fatigue'' \<mapsto> PInt fatigue,
                         ''symptom_swelling'' \<mapsto> PInt swelling]
         in raising (getitem base_info ''profile_type'') (\<lambda>profile1.
            case (if profile1 = PStr ''high_risk_weight_gain'' \<and> weight_gain_start_day \<le> int day
                  then case py_uniform 1 (5 / 2) g4 of (gain, g5) \<Rightarrow>
                       case py_randint 4 8 g5 of (breath', g6) \<Rightarrow>
                       case py_randint 4 8 g6 of (swelling', g7) \<Rightarrow>
                         (fadd cw gain,
                          symptoms(''symptom_shortness_of_breath'' \<mapsto> PInt breath',
                                   ''symptom_swelling'' \<mapsto> PInt swelling'),
                          g7)
                  else (cw, symptoms, g4)) of (cw, symptoms, g7) \<Rightarrow>
            raising (getitem base_info ''profile_type'') (\<lambda>profile2.
            case (if profile2 = PStr ''non_adherent'' \<and> non_adherent_start_day \<le> int day
                  then case py_randint 5 9 g7 of (fatigue', g8) \<Rightarrow>
                         (False, symptoms(''symptom_fatigue'' \<mapsto> PInt fatigue'), g8)
                  else (medication_adherence, symptoms, g7))
              of (medication_adherence, symptoms, g8) \<Rightarrow>
         let dws = daily_weights s @ [cw];
             das = daily_adherence s @ [medication_adherence]
         in raising (if 3 \<le> day
                     then raising (list_getitem dws (int day - 3)) (\<lambda>weight_3_days_ago.
                            Inr (PFloat (fsub cw weight_3_days_ago)))
                     else Inr (PInt 0)) (\<lambda>weight_gain_over_3_days.
            raising (if \<not> medication_adherence \<and> 1 \<le> day
                     then raising (list_getitem das (int day - 1)) (\<lambda>previous.
                            Inr (if \<not> previous then 2 else 0))
                     else Inr 0) (\<lambda>consecutive_missed_meds.
            case py_randint 110 160 g8 of (systolic, g9) \<Rightarrow>
            case py_randint 70 100 g9 of (diastolic, g10) \<Rightarrow>
            case py_randint 60 100 g10 of (heart_rate, g11) \<Rightarrow>
            case py_uniform 92 99 g11 of (oxygen, g12) \<Rightarrow>
            raising (py_round weight_gain_over_3_days 2) (\<lambda>gain_rounded.
         let daily_record = daily_record ++
               [''weight'' \<mapsto> PFloat (round_float cw 2),
                ''blood_pressure_systolic'' \<mapsto> PInt systolic,
                ''blood_pressure_diastolic'' \<mapsto> PInt diastolic,
                ''heart_rate'' \<mapsto> PInt heart_rate,
                ''oxygen_saturation'' \<mapsto> PFloat (round_float oxygen 2),
                ''medication_adherence'' \<mapsto> PBool medication_adherence,
                ''weight_gain_over_3_days'' \<mapsto> gain_rounded,
                ''consecutive_missed_meds'' \<mapsto> PInt consecutive_missed_meds,
                ''days_since_discharge'' \<mapsto> PInt days_since_discharge];
             daily_record = daily_record ++ symptoms
         in Inr \<lparr>records = records s @ [daily_record],
                 daily_weights = dws,
                 daily_adherence = das,
                 current_weight = cw,
                 rng_state = g12\<rparr>))))))"

text \<open>A \<^verbatim>\<open>for\<close> loop over a list of days; an exception in the body leaves the loop.\<close>

fun for_days ::
  "(nat \<Rightarrow> loop_state \<Rightarrow> py_error + loop_state) \<Rightarrow> nat list \<Rightarrow> loop_state
     \<Rightarrow> py_error + loop_state" where
  "for_days body [] s = Inr s"
| "for_days body (day # days) s = raising (body day s) (for_days body days)"

text \<open>The body of \<^verbatim>\<open>generate_daily_time_series\<close> up to its \<^verbatim>\<open>return\<close>: the result
  is the state of the local variables when the loop has ended.\<close>

definition daily_loop :: "pydict \<Rightarrow> rng \<Rightarrow> py_error + loop_state" where
  "daily_loop base_info g =
     (case py_uniform 150 250 g of (cw0, g1) \<Rightarrow>
      raising (getitem base_info ''discharge_date'') (\<lambda>dd.
      raising (fromisoformat dd) (\<lambda>discharge_date.
      raising (getitem base_info ''profile_type'') (\<lambda>profile1.
      case (if profile1 = PStr ''high_risk_weight_gain'' then py_randint 5 20 g1 else (- 1, g1))
        of (weight_gain_start_day, g2) \<Rightarrow>
      raising (getitem base_info ''profile_type'') (\<lambda>profile2.
      case (if profile2 = PStr ''non_adherent'' then py_randint 5 20 g2 else (- 1, g2))
        of (non_adherent_start_day, g3) \<Rightarrow>
      for_days
        (loop_body base_info discharge_date weight_gain_start_day non_adherent_start_day)
        [0..<DAYS_OF_DATA]
        \<lparr>records = [], daily_weights = [], daily_adherence = [],
         current_weight = cw0, rng_state = g3\<rparr>)))))"

definition generate_daily_time_series :: "pydict \<Rightarrow> rng \<Rightarrow> py_error + (pydict list \<times> rng)" where
  "generate_daily_time_series base_info g =
     raising (daily_loop base_info g) (\<lambda>s. Inr (records s, rng_state s))"

section \<open>The dataset of all patients\<close>

text \<open>
  Three sources outside the program feed \<^verbatim>\<open>generate_all_patient_data\<close>: the generator of
  the module \<^verbatim>\<open>random\<close>, the generator that the \<^verbatim>\<open>Faker\<close> instance owns, and the
  clock read by \<^verbatim>\<open>datetime.now()\<close>, a stream of readings.
\<close>

record world =
  random_state :: rng
  faker_state :: rng
  clock :: "datetime stream"

text \<open>\<^verbatim>\<open>fake.uuid4()\<close> renders 128 bits of the Faker generator as a string; the
  identifier is kept as the number those bits make.\<close>

definition uuid4 :: "rng \<Rightarrow> pyval \<times> rng" where
  "uuid4 f = (PInt (int (shd f mod 2 ^ 128)), stl f)"

definition COMORBIDITIES :: "string list" where
  "COMORBIDITIES = [''Diabetes'', ''Hypertension'', ''Chronic Kidney Disease'', ''COPD'']"

text \<open>Lines 43 to 54: the identifier, the profile and the dictionary
  \<^verbatim>\<open>base_patient_info\<close>, its entries evaluated in the order of the literal.\<close>

definition base_patient_info :: "world \<Rightarrow> py_error + (pydict \<times> world)" where
  "base_patient_info w =
     (case uuid4 (faker_state w) of (patient_id, f1) \<Rightarrow>
      case choose_profile (random_state w) of (profile_type, g1) \<Rightarrow>
      case py_randint 65 95 g1 of (age, g2) \<Rightarrow>
      case py_choice [''Male'', ''Female''] g2 of (gender, g3) \<Rightarrow>
      case py_randint 0 3 g3 of (k, g4) \<Rightarrow>
      raising (py_sample COMORBIDITIES k g4) (\<lambda>(comorbidities, g5).
      case py_randint 0 5 g5 of (previous_readmissions, g6) \<Rightarrow>
      let now = shd (clock w) in
      case py_randint 30 90 g6 of (days_back, g7) \<Rightarrow>
        Inr ([''patient_id'' \<mapsto> patient_id,
              ''age'' \<mapsto> PInt age,
              ''gender'' \<mapsto> PStr gender,
              ''comorbidities'' \<mapsto> PList comorbidities,
              ''previous_readmissions'' \<mapsto> PInt previous_readmissions,
              ''discharge_date'' \<mapsto> PIso (now - timedelta_days days_back),
              ''profile_type'' \<mapsto> PStr profile_type],
             \<lparr>random_state = g7, faker_state = f1, clock = stl (clock w)\<rparr>)))"

text \<open>One iteration of \<^verbatim>\<open>for _ in range(NUM_PATIENTS)\<close>.\<close>

definition patient_body :: "pydict list \<Rightarrow> world \<Rightarrow> py_error + (pydict list \<times> world)" where
  "patient_body all_patients_records w =
     raising (base_patient_info w) (\<lambda>(base_info, w1).
     raising (generate_daily_time_series base_info (random_state w1)) (\<lambda>(daily_records, g).
     Inr (all_patients_records @ daily_records, w1\<lparr>random_state := g\<rparr>)))"

fun for_patients :: "nat \<Rightarrow> pydict list \<Rightarrow> world \<Rightarrow> py_error + (pydict list \<times> world)" where
  "for_patients 0 all_patients_records w = Inr (all_patients_records, w)"
| "for_patients (Suc n) all_patients_records w =
     raising (patient_body all_patients_records w) (\<lambda>(all_patients_records', w').
       for_patients n all_patients_records' w')"

definition generate_all_patient_data :: "world \<Rightarrow> py_error + (pydict list \<times> world)" where
  "generate_all_patient_data w = for_patients NUM_PATIENTS [] w"

section \<open>The main block\<close>

text \<open>
  What the script does to the outside, in order: lines printed, the construction of the
  \<^verbatim>\<open>Elasticsearch\<close> client and the call of \<^verbatim>\<open>ingest_data\<close>, whose body talks to the
  server and is not modelled further. The environment is the one left by
  \<^verbatim>\<open>load_dotenv()\<close>. An uncaught exception ends the process with status 1.
\<close>

datatype effect =
    Print_Starting
  | Print_Generated nat nat
  | Print_Warning_Skipping
  | Print_Connecting
  | Construct_Elasticsearch string string
  | Call_ingest_data string "pydict list"

record run =
  effects :: "effect list"
  all_data :: "pydict list option"
  exit_code :: int

text \<open>\<^verbatim>\<open>os.getenv\<close> gives \<^verbatim>\<open>None\<close> for a variable that is not set; \<^verbatim>\<open>None\<close> and
  the empty string are false in a condition.\<close>

definition truthy :: "string option \<Rightarrow> bool" where
  "truthy v = (case v of None \<Rightarrow> False | Some s \<Rightarrow> s \<noteq> [])"

text \<open>The parameter \<open>client_ok\<close> tells whether the constructor of the client returns
  for the given endpoint and key rather than raising.\<close>

definition main :: "(string \<Rightarrow> string \<Rightarrow> bool) \<Rightarrow> (string \<rightharpoonup> string) \<Rightarrow> world \<Rightarrow> run" where
  "main client_ok getenv w =
     (case generate_all_patient_data w of
        Inl e \<Rightarrow> \<lparr>effects = [Print_Starting], all_data = None, exit_code = 1\<rparr>
      | Inr (data, w') \<Rightarrow>
          if \<not> (truthy (getenv ''ELASTICSEARCH_ENDPOINT'') \<and> truthy (getenv ''API_KEY''))
          then \<lparr>effects = [Print_Starting, Print_Generated (length data) NUM_PATIENTS,
                           Print_Warning_Skipping],
                all_data = Some data, exit_code = 0\<rparr>
          else let endpoint = the (getenv ''ELASTICSEARCH_ENDPOINT'');
                   api_key = the (getenv ''API_KEY'')
               in if client_ok endpoint api_key
                  then \<lparr>effects = [Print_Starting, Print_Generated (length data) NUM_PATIENTS,
                                   Print_Connecting, Construct_Elasticsearch endpoint api_key,
                                   Call_ingest_data INDEX_NAME data],
                        all_data = Some data, exit_code = 0\<rparr>
                  else \<lparr>effects = [Print_Starting, Print_Generated (length data) NUM_PATIENTS,
                                   Print_Connecting, Construct_Elasticsearch endpoint api_key],
                        all_data = Some data, exit_code = 1\<rparr>)"

section \<open>Statements about one day of a series\<close>

text \<open>The keys that the loop body writes into a daily record.\<close>

definition DAILY_KEYS :: "string list" where
  "DAILY_KEYS = [''date'', ''weight'', ''blood_pressure_systolic'', ''blood_pressure_diastolic'',
     ''heart_rate'', ''oxygen_saturation'', ''medication_adherence'',
     ''weight_gain_over_3_days'', ''consecutive_missed_meds'', ''days_since_discharge'',
     ''symptom_shortness_of_breath'', ''symptom_fatigue'', ''symptom_swelling'']"

text \<open>
  What holds of day \<open>d\<close> in the final state \<open>s\<close> of the loop, for a patient of profile
  \<open>pt\<close> whose trigger days are \<open>wgs\<close> (weight gain) and \<open>nas\<close> (non-adherence) and
  whose weight was seeded with \<open>cw0\<close>. It is used to carry the facts about all days
  through the induction over the loop. The running weight of a day is the float sum of
  the weight of the day before and the jitter and, on a day on which the weight-gain
  trigger is active, the float sum of that sum and the gain; it is a binary64 number
  between 135 and 370.
\<close>

definition day_facts :: "pydict \<Rightarrow> pyval \<Rightarrow> int \<Rightarrow> int \<Rightarrow> real \<Rightarrow> loop_state \<Rightarrow> nat \<Rightarrow> bool" where
  "day_facts base_info pt wgs nas cw0 s d \<longleftrightarrow>
     (let r = records s ! d; dw = daily_weights s; da = daily_adherence s;
          wga = (pt = PStr ''high_risk_weight_gain'' \<and> wgs \<le> int d);
          naa = (pt = PStr ''non_adherent'' \<and> nas \<le> int d);
          prev = (if d = 0 then cw0 else dw ! (d - 1))
      in da ! d = (\<not> naa) \<and>
         r ''medication_adherence'' = Some (PBool (\<not> naa)) \<and>
         r ''weight'' = Some (PFloat (round_float (dw ! d) 2)) \<and>
         r ''weight_gain_over_3_days'' =
           Some (if 3 \<le> d then PFloat (round_float (dw ! d - dw ! (d - 3)) 2) else PInt 0) \<and>
         r ''consecutive_missed_meds'' =
           Some (PInt (if naa \<and> 1 \<le> d \<and> \<not> da ! (d - 1) then 2 else 0)) \<and>
         r ''days_since_discharge'' = Some (PInt (int d)) \<and>
         (\<exists>x. r ''symptom_swelling'' = Some (PInt x) \<and>
              (if wga then 4 \<le> x \<and> x \<le> 8 else 1 \<le> x \<and> x \<le> 3)) \<and>
         (\<exists>jitter gain. - (1 / 2) \<le> jitter \<and> jitter < 1 / 2 \<and> 1 \<le> gain \<and> gain \<le> 5 / 2 \<and>
            dw ! d = (if wga then fadd (fadd prev jitter) gain else fadd prev jitter)) \<and>
         (if wga then 1 / 2 - 1 / 2 ^ 45 \<le> dw ! d - prev \<and> dw ! d - prev \<le> 3 + 1 / 2 ^ 45
          else - (1 / 2) \<le> dw ! d - prev \<and> dw ! d - prev \<le> 1 / 2) \<and>
         fl (dw ! d) = dw ! d \<and>
         150 - (real d + 1) / 2 \<le> dw ! d \<and> dw ! d \<le> 250 + 4 * (real d + 1) \<and>
         (\<forall>k. k \<notin> set DAILY_KEYS \<longrightarrow> r k = base_info k))"

section \<open>Sample inputs\<close>

text \<open>Base records as \<^verbatim>\<open>generate_all_patient_data\<close> builds them, one for each profile,
  and a generator whose raw numbers are all zero.\<close>

definition stable_patient :: pydict where
  "stable_patient =
     [''patient_id'' \<mapsto> PInt 0, ''age'' \<mapsto> PInt 65, ''gender'' \<mapsto> PStr ''Male'',
      ''comorbidities'' \<mapsto> PList [], ''previous_readmissions'' \<mapsto> PInt 0,
      ''discharge_date'' \<mapsto> PIso 0, ''profile_type'' \<mapsto> PStr ''stable'']"

definition weight_gain_patient :: pydict where
  "weight_gain_patient =
     [''patient_id'' \<mapsto> PInt 1, ''age'' \<mapsto> PInt 70, ''gender'' \<mapsto> PStr ''Female'',
      ''comorbidities'' \<mapsto> PList [''COPD''], ''previous_readmissions'' \<mapsto> PInt 2,
      ''discharge_date'' \<mapsto> PIso 0, ''profile_type'' \<mapsto> PStr ''high_risk_weight_gain'']"

definition non_adherent_patient :: pydict where
  "non_adherent_patient =
     [''patient_id'' \<mapsto> PInt 2, ''age'' \<mapsto> PInt 80, ''gender'' \<mapsto> PStr ''Male'',
      ''comorbidities'' \<mapsto> PList [''Diabetes'', ''Hypertension''],
      ''previous_readmissions'' \<mapsto> PInt 1,
      ''discharge_date'' \<mapsto> PIso 0, ''profile_type'' \<mapsto> PStr ''non_adherent'']"

definition zeros :: rng where
  "zeros = sconst 0"


section \<open>Statements about the dataset\<close>

text \<open>The keys of \<^verbatim>\<open>base_patient_info\<close>.\<close>

definition BASE_KEYS :: "string list" where
  "BASE_KEYS = [''patient_id'', ''age'', ''gender'', ''comorbidities'',
     ''previous_readmissions'', ''discharge_date'', ''profile_type'']"

text \<open>A list of records is the series of a patient when the loop body of
  \<^verbatim>\<open>generate_all_patient_data\<close>, started in the world \<open>w\<close>, builds a base record and
  \<^verbatim>\<open>generate_daily_time_series\<close> returns the list for it.\<close>

definition patient_series :: "world \<Rightarrow> pydict list \<Rightarrow> bool" where
  "patient_series w c \<longleftrightarrow>
     (\<exists>base_info w1 g'. base_patient_info w = Inr (base_info, w1) \<and>
        generate_daily_time_series base_info (random_state w1) = Inr (c, g'))"

text \<open>A world in which every raw number is zero and the clock reads 30 days after the
  origin, and an environment that has a key and no endpoint.\<close>

definition absent_world :: world where
  "absent_world = \<lparr>random_state = zeros, faker_state = zeros, clock = sconst 2592000000000\<rparr>"

definition partial_env :: "string \<rightharpoonup> string" where
  "partial_env = [''API_KEY'' \<mapsto> ''secret'']"

text \<open>
  A generator for a stable patient. Each day of a stable patient consumes eight raw
  numbers, the first of them for the jitter of the weight; \<open>day_draws\<close> gives a day its
  jitter and leaves the other seven at zero. In \<open>counter_rng\<close> the seed of the weight is
  200, the jitter is 1/256 on day 0, 0 on days 1 and 2 and 1/512 on day 3. In
  \<open>counter_world\<close> the six raw numbers that \<^verbatim>\<open>base_patient_info\<close> consumes come first.
\<close>

definition day_draws :: "nat \<Rightarrow> rng \<Rightarrow> rng" where
  "day_draws jitter_raw rest = [jitter_raw, 0, 0, 0, 0, 0, 0, 0] @- rest"

definition counter_rng :: rng where
  "counter_rng =
     [4503599627370496] @-
     day_draws 4538783999459328
       (day_draws 4503599627370496
          (day_draws 4503599627370496
             (day_draws 4521191813414912 (sconst 0))))"

definition counter_world :: world where
  "counter_world =
     \<lparr>random_state = [0, 0, 0, 0, 0, 0] @- counter_rng, faker_state = zeros,
      clock = sconst 2592000000000\<rparr>"

text \<open>
  A generator for a patient of profile \<open>high_risk_weight_gain\<close>. A day on which the
  weight-gain trigger is active consumes eleven raw numbers, the first of them for the
  jitter and the fifth for the gain; \<open>gain_draws\<close> gives such a day its jitter and its
  gain and leaves the other nine at zero. In \<open>rounding_rng\<close> the seed of the weight is
  249.609375 and the trigger day is 5. The jitter is \<open>25/64 + 2^-45\<close> on day 0 and 0 on
  days 1 to 4; on days 5 and 6 the jitter is 0.4375 and the gain 2.3125; on day 7 the
  jitter is -0.5 and the gain 1.0. In \<open>rounding_world\<close> the seven raw numbers that
  \<^verbatim>\<open>base_patient_info\<close> consumes come first.
\<close>

definition gain_draws :: "nat \<Rightarrow> nat \<Rightarrow> rng \<Rightarrow> rng" where
  "gain_draws jitter_raw gain_raw rest =
     [jitter_raw, 0, 0, 0, gain_raw, 0, 0, 0, 0, 0, 0] @- rest"

definition rounding_rng :: rng where
  "rounding_rng =
     [8972014882652160, 0] @-
     day_draws 8022036836253952
       (day_draws 4503599627370496
          (day_draws 4503599627370496
             (day_draws 4503599627370496
                (day_draws 4503599627370496
                   (gain_draws 8444249301319680 7881299347898368
                      (gain_draws 8444249301319680 7881299347898368
                         (gain_draws 0 0 (sconst 0))))))))"

definition rounding_world :: world where
  "rounding_world =
     \<lparr>random_state = [6755399441055744, 5, 1, 1, 3, 2, 0] @- rounding_rng,
      faker_state = [1] @- zeros, clock = sconst 2592000000000\<rparr>"

text \<open>The field \<open>k\<close> of the record of day \<open>d\<close> in the series that
  \<^verbatim>\<open>generate_daily_time_series\<close> returns.\<close>

definition series_field :: "pydict \<Rightarrow> rng \<Rightarrow> nat \<Rightarrow> string \<Rightarrow> pyval option" where
  "series_field base_info g d k =
     (case generate_daily_time_series base_info g of
        Inl e \<Rightarrow> None
      | Inr (recs, g') \<Rightarrow> (recs ! d) k)"

section \<open>Properties of binary64 rounding\<close>

lemma rhe_of_int: "round_half_even (of_int k) = k"
  by (simp add: round_half_even_def)

lemma rhe_cases:
  "round_half_even y = \<lfloor>y\<rfloor> \<or> round_half_even y = \<lfloor>y\<rfloor> + 1"
  by (simp add: round_half_even_def Let_def)

lemma rhe_le_int: "y \<le> of_int k \<Longrightarrow> round_half_even y \<le> k"
proof -
  assume a: "y \<le> of_int k"
  show ?thesis
  proof (cases "y = of_int k")
    case True
    then show ?thesis by (simp add: rhe_of_int)
  next
    case False
    then have "y < of_int k" using a by simp
    then have "\<lfloor>y\<rfloor> < k" by (simp add: floor_less_iff)
    then show ?thesis using rhe_cases[of y] by auto
  qed
qed

lemma rhe_ge_int: "of_int k \<le> y \<Longrightarrow> k \<le> round_half_even y"
proof -
  assume a: "of_int k \<le> y"
  then have "k \<le> \<lfloor>y\<rfloor>" by (simp add: le_floor_iff)
  then show ?thesis using rhe_cases[of y] by auto
qed

lemma rhe_lt_half: "y < of_int n + 1 / 2 \<Longrightarrow> round_half_even y \<le> n"
proof -
  assume a: "y < of_int n + 1 / 2"
  have fl: "\<lfloor>y\<rfloor> \<le> n" using a by (simp add: floor_le_iff)
  show ?thesis
  proof (cases "\<lfloor>y\<rfloor> = n")
    case True
    then have "y - of_int \<lfloor>y\<rfloor> < 1 / 2" using a by simp
    then show ?thesis using True by (simp add: round_half_even_def Let_def)
  next
    case False
    then have "\<lfloor>y\<rfloor> + 1 \<le> n" using fl by simp
    then show ?thesis using rhe_cases[of y] by auto
  qed
qed

lemma rhe_mono: "y \<le> z \<Longrightarrow> round_half_even y \<le> round_half_even z"
proof -
  assume a: "y \<le> z"
  have fm: "\<lfloor>y\<rfloor> \<le> \<lfloor>z\<rfloor>" using a by (rule floor_mono)
  show ?thesis
  proof (cases "\<lfloor>y\<rfloor> = \<lfloor>z\<rfloor>")
    case True
    have "y - of_int \<lfloor>y\<rfloor> \<le> z - of_int \<lfloor>z\<rfloor>" using a True by simp
    then show ?thesis using True unfolding round_half_even_def Let_def by auto
  next
    case False
    then have "\<lfloor>y\<rfloor> + 1 \<le> \<lfloor>z\<rfloor>" using fm by simp
    moreover have "round_half_even y \<le> \<lfloor>y\<rfloor> + 1" using rhe_cases[of y] by auto
    moreover have "\<lfloor>z\<rfloor> \<le> round_half_even z" using rhe_cases[of z] by auto
    ultimately show ?thesis by linarith
  qed
qed

lemma expo_ge: "- 1022 \<le> expo x"
  by (simp add: expo_def)

lemma ulp_pos: "0 < ulp x"
  by (simp add: ulp_def)

lemma expo_eq:
  assumes e: "- 1022 \<le> e" and lo: "2 powi e \<le> \<bar>x\<bar>" and hi: "\<bar>x\<bar> < 2 powi (e + 1)"
  shows "expo x = e"
proof -
  define n where "n = \<lfloor>\<bar>x\<bar> * 2 ^ 1074\<rfloor>"
  define k where "k = nat (e + 1074)"
  have ke: "int k = e + 1074" using e by (simp add: k_def)
  have p: "(2::real) powi e * 2 ^ 1074 = 2 ^ k"
  proof -
    have "(2::real) powi e * 2 powi 1074 = 2 powi (e + 1074)"
      by (simp add: power_int_add)
    also have "\<dots> = 2 powi (int k)" by (simp only: ke)
    also have "\<dots> = 2 ^ k" by (rule power_int_of_nat)
    finally show ?thesis by (simp only: power_int_numeral)
  qed
  have q: "(2::real) powi (e + 1) * 2 ^ 1074 = 2 ^ Suc k"
  proof -
    have "(2::real) powi (e + 1) * 2 powi 1074 = 2 powi (e + 1 + 1074)"
      by (simp add: power_int_add)
    also have "\<dots> = 2 powi (int (Suc k))" using ke by (simp add: add.commute)
    also have "\<dots> = 2 ^ Suc k" by (rule power_int_of_nat)
    finally show ?thesis by (simp only: power_int_numeral)
  qed
  have lo': "2 ^ k \<le> \<bar>x\<bar> * 2 ^ 1074"
    using mult_right_mono[OF lo, of "2 ^ 1074"] by (simp only: p) simp
  have hi': "\<bar>x\<bar> * 2 ^ 1074 < 2 ^ Suc k"
    using mult_strict_right_mono[OF hi, of "2 ^ 1074"] by (simp only: q) simp
  have n1: "2 ^ k \<le> n"
  proof -
    have "real_of_int (2 ^ k) \<le> \<bar>x\<bar> * 2 ^ 1074" using lo' by simp
    then show ?thesis unfolding n_def by (simp only: le_floor_iff)
  qed
  have n2: "n < 2 ^ Suc k"
  proof -
    have "\<bar>x\<bar> * 2 ^ 1074 < real_of_int (2 ^ Suc k)" using hi' by simp
    then show ?thesis unfolding n_def by (simp only: floor_less_iff)
  qed
  have nk: "nat (1 + int k) = Suc k" by arith
  have b1: "bitlen n \<le> int (Suc k)"
    using n2 by (simp add: bitlen_le_iff_power nk del: power_Suc)
  have b2: "int (Suc k) \<le> bitlen n"
    using n1 by (simp add: bitlen_ge_iff_power nk del: power_Suc)
  have "bitlen n = e + 1075" using b1 b2 ke by simp
  then show ?thesis using e unfolding expo_def n_def[symmetric] by simp
qed

lemma expo_subnormal:
  assumes hi: "\<bar>x\<bar> < 2 powi (- 1022)"
  shows "expo x = - 1022"
proof -
  define n where "n = \<lfloor>\<bar>x\<bar> * 2 ^ 1074\<rfloor>"
  have "(2::real) powi (- 1022) * 2 powi 1074 = 2 powi (- 1022 + 1074)"
    by (rule power_int_add[symmetric]) simp
  also have "\<dots> = 2 powi 52" by simp
  finally have p: "(2::real) powi (- 1022) * 2 ^ 1074 = 2 ^ 52"
    by (simp only: power_int_numeral)
  have "\<bar>x\<bar> * 2 ^ 1074 < 2 ^ 52"
    using mult_strict_right_mono[OF hi, of "2 ^ 1074"] by (simp only: p) simp
  then have "\<bar>x\<bar> * 2 ^ 1074 < real_of_int (2 ^ 52)" by simp
  then have "n < 2 ^ 52" unfolding n_def by (simp only: floor_less_iff)
  then have "bitlen n \<le> 52" by (simp add: bitlen_le_iff_power)
  then show ?thesis unfolding expo_def n_def[symmetric] by simp
qed

lemma expo_upper: "\<bar>x\<bar> < 2 powi (expo x + 1)"
proof -
  define n where "n = \<lfloor>\<bar>x\<bar> * 2 ^ 1074\<rfloor>"
  define b where "b = max (bitlen n) 53"
  have bn: "n < 2 ^ nat b"
  proof -
    have "bitlen n \<le> b" by (simp add: b_def)
    then show ?thesis by (simp add: bitlen_le_iff_power)
  qed
  have eb: "expo x + 1 = b - 1074" unfolding expo_def n_def[symmetric] b_def by simp
  have "\<bar>x\<bar> * 2 ^ 1074 < of_int n + 1" unfolding n_def by linarith
  moreover have "real_of_int n + 1 \<le> 2 ^ nat b"
  proof -
    have "n + 1 \<le> 2 ^ nat b" using bn by simp
    then have "real_of_int (n + 1) \<le> real_of_int (2 ^ nat b)" by (simp only: of_int_le_iff)
    then show ?thesis by simp
  qed
  ultimately have lt: "\<bar>x\<bar> * 2 ^ 1074 < 2 ^ nat b" by linarith
  have b0: "0 \<le> b" by (simp add: b_def)
  have "(2::real) powi (b - 1074) * 2 powi 1074 = 2 powi (b - 1074 + 1074)"
    by (rule power_int_add[symmetric]) simp
  also have "\<dots> = 2 ^ nat b" using b0 by (simp add: power_int_nonneg_exp)
  finally have "(2::real) powi (b - 1074) * 2 ^ 1074 = 2 ^ nat b"
    by (simp only: power_int_numeral)
  then have "\<bar>x\<bar> * 2 ^ 1074 < 2 powi (b - 1074) * 2 ^ 1074" using lt by simp
  then have "\<bar>x\<bar> < 2 powi (b - 1074)" by (simp only: mult_less_cancel_right_pos zero_less_power zero_less_numeral)
  then show ?thesis by (simp only: eb)
qed

lemma expo_lower:
  assumes "- 1022 < expo x"
  shows "2 powi (expo x) \<le> \<bar>x\<bar>"
proof -
  define n where "n = \<lfloor>\<bar>x\<bar> * 2 ^ 1074\<rfloor>"
  define k where "k = nat (bitlen n - 1)"
  have e: "expo x = bitlen n - 1075" and b: "53 < bitlen n"
    using assms unfolding expo_def n_def[symmetric] by (simp_all add: max_def split: if_splits)
  have kb: "int k = bitlen n - 1" using b by (simp add: k_def)
  have "int (Suc k) \<le> bitlen n" using kb by simp
  moreover have nk: "nat (1 + int k) = Suc k" by arith
  ultimately have "2 ^ k \<le> n" by (simp add: bitlen_ge_iff_power nk del: power_Suc)
  then have "real_of_int (2 ^ k) \<le> real_of_int n" by (simp only: of_int_le_iff)
  then have "2 ^ k \<le> real_of_int n" by simp
  moreover have "real_of_int n \<le> \<bar>x\<bar> * 2 ^ 1074" unfolding n_def by (rule of_int_floor_le)
  ultimately have lo: "2 ^ k \<le> \<bar>x\<bar> * 2 ^ 1074" by (rule order_trans)
  have "(2::real) powi (expo x) * 2 powi 1074 = 2 powi (expo x + 1074)"
    by (rule power_int_add[symmetric]) simp
  also have "\<dots> = 2 powi (int k)" using e kb by simp
  also have "\<dots> = 2 ^ k" by (rule power_int_of_nat)
  finally have "(2::real) powi (expo x) * 2 ^ 1074 = 2 ^ k"
    by (simp only: power_int_numeral)
  then have "2 powi (expo x) * 2 ^ 1074 \<le> \<bar>x\<bar> * 2 ^ 1074" using lo by simp
  then show ?thesis
    by (simp only: mult_le_cancel_right_pos zero_less_power zero_less_numeral)
qed

lemma pow2_add: "(2::real) powi a * 2 powi b = 2 powi (a + b)"
  by (simp add: power_int_add)

lemma pow2_53: "(2::real) powi 53 * 2 powi (e - 52) = 2 powi (e + 1)"
proof -
  have "(2::real) powi 53 * 2 powi (e - 52) = 2 powi (53 + (e - 52))" by (rule pow2_add)
  also have "53 + (e - 52) = e + 1" by simp
  finally show ?thesis .
qed

lemma pow2_52: "(2::real) powi 52 * 2 powi (e - 52) = 2 powi e"
proof -
  have "(2::real) powi 52 * 2 powi (e - 52) = 2 powi (52 + (e - 52))" by (rule pow2_add)
  also have "52 + (e - 52) = e" by simp
  finally show ?thesis .
qed

lemma fl_0: "fl 0 = 0"
  by (simp add: fl_def round_half_even_def)

lemma fl_eval:
  assumes e: "- 1022 \<le> e" and lo: "2 powi e \<le> \<bar>x\<bar>" and hi: "\<bar>x\<bar> < 2 powi (e + 1)"
  shows "fl x = of_int (round_half_even (x / 2 powi (e - 52))) * 2 powi (e - 52)"
  by (simp only: fl_def ulp_def expo_eq[OF e lo hi])

lemma fl_dyadic:
  assumes m: "\<bar>m\<bar> < 2 ^ 53" and k: "k \<le> 1074"
  shows "fl (of_int m / 2 ^ k) = of_int m / 2 ^ k"
proof (cases "m = 0")
  case True
  then show ?thesis by (simp add: fl_0)
next
  case False
  define x :: real where "x = of_int m / 2 ^ k"
  define e where "e = expo x"
  have xk: "x = of_int m * 2 powi (- int k)"
    by (simp add: x_def power_int_minus divide_inverse)
  have ax: "\<bar>x\<bar> < 2 powi (53 - int k)"
  proof -
    have "real_of_int \<bar>m\<bar> < real_of_int (2 ^ 53)" using m by (simp only: of_int_less_iff)
    then have "\<bar>real_of_int m\<bar> < 2 powi 53" by simp
    then have "\<bar>real_of_int m\<bar> * 2 powi (- int k) < 2 powi 53 * 2 powi (- int k)"
      by (simp only: mult_less_cancel_right_pos zero_less_power_int zero_less_numeral)
    also have "(2::real) powi 53 * 2 powi (- int k) = 2 powi (53 + - int k)"
      by (rule power_int_add[symmetric]) simp
    finally show ?thesis by (simp add: xk abs_mult)
  qed
  have le: "e \<le> 52 - int k"
  proof (cases "e = - 1022")
    case True
    then show ?thesis using k by simp
  next
    case False
    then have "- 1022 < expo x" using expo_ge[of x] by (simp add: e_def)
    then have lo: "2 powi e \<le> \<bar>x\<bar>" unfolding e_def by (rule expo_lower)
    show ?thesis
    proof (rule ccontr)
      assume "\<not> e \<le> 52 - int k"
      then have "53 - int k \<le> e" by simp
      then have "(2::real) powi (53 - int k) \<le> 2 powi e"
        by (intro power_int_increasing) simp_all
      then show False using lo ax by linarith
    qed
  qed
  define j where "j = nat (52 - int k - e)"
  have je: "int j = 52 - int k - e" using le by (simp add: j_def)
  have q: "x / ulp x = of_int (m * 2 ^ j)"
  proof -
    have "x / ulp x = of_int m * (2 powi (- int k) / 2 powi (e - 52))"
      by (simp add: xk ulp_def e_def)
    also have "(2::real) powi (- int k) / 2 powi (e - 52) = 2 powi (- int k - (e - 52))"
      by (rule power_int_diff[symmetric]) simp
    also have "- int k - (e - 52) = int j" using je by simp
    finally show ?thesis by simp
  qed
  have "fl x = of_int (m * 2 ^ j) * ulp x"
    by (simp only: fl_def q rhe_of_int)
  also have "\<dots> = of_int m * (2 powi (int j) * 2 powi (e - 52))"
    by (simp add: ulp_def e_def)
  also have "(2::real) powi (int j) * 2 powi (e - 52) = 2 powi (int j + (e - 52))"
    by (rule power_int_add[symmetric]) simp
  also have "int j + (e - 52) = - int k" using je by simp
  finally show ?thesis using xk by (simp add: x_def)
qed

lemma fl_nonneg: "0 \<le> x \<Longrightarrow> 0 \<le> fl x"
proof -
  assume "0 \<le> x"
  then have "real_of_int 0 \<le> x / ulp x" using ulp_pos[of x] by simp
  then have "0 \<le> round_half_even (x / ulp x)" by (rule rhe_ge_int)
  then show ?thesis using ulp_pos[of x] by (simp add: fl_def)
qed

lemma fl_mono:
  assumes x: "0 \<le> x" and xy: "x \<le> y"
  shows "fl x \<le> fl y"
proof (cases "x = 0")
  case True
  then show ?thesis using fl_nonneg[of y] x xy by (simp add: fl_0)
next
  case False
  then have xp: "0 < x" and yp: "0 < y" using x xy by simp_all
  have exy: "expo x \<le> expo y"
  proof (rule ccontr)
    assume "\<not> expo x \<le> expo y"
    then have lt: "expo y + 1 \<le> expo x" by simp
    then have "- 1022 < expo x" using expo_ge[of y] by simp
    then have "2 powi (expo x) \<le> \<bar>x\<bar>" by (rule expo_lower)
    moreover have "\<bar>y\<bar> < 2 powi (expo y + 1)" by (rule expo_upper)
    moreover have "(2::real) powi (expo y + 1) \<le> 2 powi (expo x)"
      using lt by (intro power_int_increasing) simp_all
    ultimately show False using xp yp xy by simp
  qed
  show ?thesis
  proof (cases "expo x = expo y")
    case True
    then have u: "ulp x = ulp y" by (simp add: ulp_def)
    have "x / ulp y \<le> y / ulp y" using xy ulp_pos[of y] by (simp add: divide_right_mono)
    then have "round_half_even (x / ulp y) \<le> round_half_even (y / ulp y)" by (rule rhe_mono)
    then have "real_of_int (round_half_even (x / ulp y)) \<le> real_of_int (round_half_even (y / ulp y))"
      by (simp only: of_int_le_iff)
    then show ?thesis using ulp_pos[of y] by (simp add: fl_def u)
  next
    case False
    then have lt: "expo x + 1 \<le> expo y" using exy by simp
    have a: "fl x \<le> 2 powi (expo x + 1)"
    proof -
      have "x < 2 powi (expo x + 1)" using expo_upper[of x] xp by simp
      also have "(2::real) powi (expo x + 1) = 2 powi 53 * 2 powi (expo x - 52)"
        by (rule pow2_53[symmetric])
      finally have "x / ulp x < 2 powi 53"
        using ulp_pos[of x] by (simp add: ulp_def pos_divide_less_eq)
      then have "x / ulp x \<le> real_of_int (2 ^ 53)" by simp
      then have "round_half_even (x / ulp x) \<le> 2 ^ 53" by (rule rhe_le_int)
      then have "real_of_int (round_half_even (x / ulp x)) \<le> real_of_int (2 ^ 53)"
        by (simp only: of_int_le_iff)
      then have "fl x \<le> real_of_int (2 ^ 53) * ulp x"
        using ulp_pos[of x] by (simp add: fl_def)
      also have "real_of_int (2 ^ 53) * ulp x = 2 powi 53 * 2 powi (expo x - 52)"
        by (simp add: ulp_def)
      also have "\<dots> = 2 powi (expo x + 1)"
        by (rule pow2_53)
      finally show ?thesis .
    qed
    have b: "2 powi (expo y) \<le> fl y"
    proof -
      have "- 1022 < expo y" using lt expo_ge[of x] by simp
      then have "2 powi (expo y) \<le> y" using expo_lower[of y] yp by simp
      moreover have "(2::real) powi (expo y) = 2 powi 52 * 2 powi (expo y - 52)"
        by (rule pow2_52[symmetric])
      ultimately have "2 powi 52 \<le> y / ulp y"
        using ulp_pos[of y] by (simp add: ulp_def pos_le_divide_eq)
      then have "real_of_int (2 ^ 52) \<le> y / ulp y" by simp
      then have "2 ^ 52 \<le> round_half_even (y / ulp y)" by (rule rhe_ge_int)
      then have "real_of_int (2 ^ 52) \<le> real_of_int (round_half_even (y / ulp y))"
        by (simp only: of_int_le_iff)
      then have "real_of_int (2 ^ 52) * ulp y \<le> fl y"
        using ulp_pos[of y] by (simp add: fl_def)
      moreover have "real_of_int (2 ^ 52) * ulp y = 2 powi 52 * 2 powi (expo y - 52)"
        by (simp add: ulp_def)
      moreover have "(2::real) powi 52 * 2 powi (expo y - 52) = 2 powi (expo y)"
        by (rule pow2_52)
      ultimately show ?thesis by simp
    qed
    have "(2::real) powi (expo x + 1) \<le> 2 powi (expo y)"
      using lt by (intro power_int_increasing) simp_all
    then show ?thesis using a b by linarith
  qed
qed

lemma fl_eval7:
  assumes "128 \<le> x" "x < 256"
  shows "fl x = of_int (round_half_even (x * 2 ^ 45)) / 2 ^ 45"
proof -
  have p: "(2::real) powi (7 - 52) = 1 / 2 ^ 45"
    by (simp add: power_int_minus_divide)
  have "fl x = of_int (round_half_even (x / 2 powi (7 - 52))) * 2 powi (7 - 52)"
    using assms by (intro fl_eval) simp_all
  then show ?thesis by (simp only: p) simp
qed

lemma fl_eval8:
  assumes "256 \<le> x" "x < 512"
  shows "fl x = of_int (round_half_even (x * 2 ^ 44)) / 2 ^ 44"
proof -
  have p: "(2::real) powi (8 - 52) = 1 / 2 ^ 44"
    by (simp add: power_int_minus_divide)
  have "fl x = of_int (round_half_even (x / 2 powi (8 - 52))) * 2 powi (8 - 52)"
    using assms by (intro fl_eval) simp_all
  then show ?thesis by (simp only: p) simp
qed

lemma fl_le_double: "0 \<le> x \<Longrightarrow> x \<le> y \<Longrightarrow> fl y = y \<Longrightarrow> fl x \<le> y"
  using fl_mono[of x y] by simp

lemma fl_ge_double: "0 \<le> y \<Longrightarrow> y \<le> x \<Longrightarrow> fl y = y \<Longrightarrow> y \<le> fl x"
  using fl_mono[of y x] by simp

lemma fl_256: "fl 256 = 256"
  using fl_dyadic[of 256 0] by simp

lemma grid45:
  assumes d: "fl a = a" and r: "128 \<le> a" "a < 512"
  shows "\<exists>m. a = of_int m / 2 ^ 45"
proof (cases "a < 256")
  case True
  have "a = of_int (round_half_even (a * 2 ^ 45)) / 2 ^ 45"
    using fl_eval7[OF r(1) True] d by simp
  then show ?thesis by blast
next
  case False
  then have "fl a = of_int (round_half_even (a * 2 ^ 44)) / 2 ^ 44"
    using r by (intro fl_eval8) simp_all
  then have "a = of_int (2 * round_half_even (a * 2 ^ 44)) / 2 ^ 45"
    using d by simp
  then show ?thesis by blast
qed

lemma grid44:
  assumes d: "fl a = a" and r: "256 \<le> a" "a < 512"
  shows "\<exists>m. a = of_int m / 2 ^ 44"
proof -
  have "a = of_int (round_half_even (a * 2 ^ 44)) / 2 ^ 44"
    using fl_eval8[OF r] d by simp
  then show ?thesis by blast
qed

lemma fl_grid45:
  assumes m: "of_int m / 2 ^ 45 < (256::real)" "- 256 < (of_int m / 2 ^ 45 :: real)"
  shows "fl (of_int m / 2 ^ 45) = of_int m / 2 ^ 45"
proof -
  have "real_of_int m < real_of_int (2 ^ 53)" "real_of_int (- (2 ^ 53)) < real_of_int m"
    using m by (simp_all add: field_simps)
  then have "m < 2 ^ 53" "- (2 ^ 53) < m" by (simp_all only: of_int_less_iff)
  then have "\<bar>m\<bar> < 2 ^ 53" by simp
  then show ?thesis by (intro fl_dyadic) simp_all
qed

lemma fl_grid44:
  assumes m: "of_int m / 2 ^ 44 < (512::real)" "- 512 < (of_int m / 2 ^ 44 :: real)"
  shows "fl (of_int m / 2 ^ 44) = of_int m / 2 ^ 44"
proof -
  have "real_of_int m < real_of_int (2 ^ 53)" "real_of_int (- (2 ^ 53)) < real_of_int m"
    using m by (simp_all add: field_simps)
  then have "m < 2 ^ 53" "- (2 ^ 53) < m" by (simp_all only: of_int_less_iff)
  then have "\<bar>m\<bar> < 2 ^ 53" by simp
  then show ?thesis by (intro fl_dyadic) simp_all
qed

text \<open>The difference of two doubles between 128 and 384 is a double.\<close>

lemma fsub_exact:
  assumes a: "fl a = a" "128 \<le> a" "a < 384" and b: "fl b = b" "128 \<le> b" "b < 384"
  shows "fl (a - b) = a - b"
proof -
  obtain m where m: "a = of_int m / 2 ^ 45" using grid45[of a] a by auto
  obtain n where n: "b = of_int n / 2 ^ 45" using grid45[of b] b by auto
  have e: "a - b = of_int (m - n) / 2 ^ 45" by (simp add: m n diff_divide_distrib)
  have "a - b < 256" "- 256 < a - b" using a b by simp_all
  then show ?thesis unfolding e by (intro fl_grid45)
qed

text \<open>A double between 129 and 512 less one half is a double.\<close>

lemma fl_sub_half:
  assumes a: "fl a = a" "129 \<le> a" "a < 512"
  shows "fl (a - 1 / 2) = a - 1 / 2"
proof (cases "a - 1 / 2 < 256")
  case True
  obtain m where m: "a = of_int m / 2 ^ 45" using grid45[of a] a by auto
  have e: "a - 1 / 2 = of_int (m - 2 ^ 44) / 2 ^ 45" by (simp add: m diff_divide_distrib)
  have "- 256 < a - 1 / 2" using a by simp
  then show ?thesis using True unfolding e by (intro fl_grid45)
next
  case False
  then have "256 \<le> a" by simp
  then obtain m where m: "a = of_int m / 2 ^ 44" using grid44[of a] a by auto
  have e: "a - 1 / 2 = of_int (m - 2 ^ 43) / 2 ^ 44" by (simp add: m diff_divide_distrib)
  have "- 512 < a - 1 / 2" "a - 1 / 2 < 512" using a by simp_all
  then show ?thesis unfolding e by (intro fl_grid44)
qed

lemma fl_lt_grid45:
  assumes x: "128 \<le> x" "x < 512" and lt: "x < of_int m / 2 ^ 45"
  shows "fl x \<le> of_int m / 2 ^ 45"
proof (cases "x < 256")
  case True
  have "x * 2 ^ 45 \<le> of_int m" using lt by (simp add: field_simps)
  then have "round_half_even (x * 2 ^ 45) \<le> m" by (rule rhe_le_int)
  then have "real_of_int (round_half_even (x * 2 ^ 45)) \<le> real_of_int m"
    by (simp only: of_int_le_iff)
  then show ?thesis by (simp add: fl_eval7[OF x(1) True] divide_right_mono)
next
  case False
  then have x8: "256 \<le> x" by simp
  have h: "x * 2 ^ 44 < of_int m / 2" using lt by (simp add: field_simps)
  have r: "round_half_even (x * 2 ^ 44) \<le> m div 2"
  proof (cases "even m")
    case True
    then have "real_of_int m / 2 = real_of_int (m div 2)" by (simp add: real_of_int_div)
    then have "x * 2 ^ 44 \<le> real_of_int (m div 2)" using h by simp
    then show ?thesis by (rule rhe_le_int)
  next
    case False
    then have "m = 2 * (m div 2) + 1" by presburger
    then have "real_of_int m = 2 * real_of_int (m div 2) + 1" by (metis of_int_add of_int_mult of_int_numeral of_int_1)
    then have "x * 2 ^ 44 < real_of_int (m div 2) + 1 / 2" using h by simp
    then show ?thesis by (rule rhe_lt_half)
  qed
  have "2 * (m div 2) \<le> m" by presburger
  then have "2 * round_half_even (x * 2 ^ 44) \<le> m" using r by linarith
  then have "real_of_int (2 * round_half_even (x * 2 ^ 44)) \<le> real_of_int m"
    by (simp only: of_int_le_iff)
  then have "real_of_int (round_half_even (x * 2 ^ 44)) * 2 \<le> real_of_int m" by simp
  then show ?thesis by (simp add: fl_eval8[OF x8 x(2)] field_simps)
qed

lemma fl_ge_grid45:
  assumes x: "128 \<le> x" "x < 512" and le: "of_int m / 2 ^ 45 \<le> x"
  shows "of_int m / 2 ^ 45 - 1 / 2 ^ 45 \<le> fl x"
proof (cases "x < 256")
  case True
  have "of_int m \<le> x * 2 ^ 45" using le by (simp add: field_simps)
  then have "m \<le> round_half_even (x * 2 ^ 45)" by (rule rhe_ge_int)
  then have "real_of_int m \<le> real_of_int (round_half_even (x * 2 ^ 45))"
    by (simp only: of_int_le_iff)
  then have "of_int m / 2 ^ 45 \<le> fl x"
    by (simp add: fl_eval7[OF x(1) True] divide_right_mono)
  then show ?thesis by simp
next
  case False
  then have x8: "256 \<le> x" by simp
  have h: "of_int m / 2 \<le> x * 2 ^ 44" using le by (simp add: field_simps)
  have "2 * (m div 2) \<le> m" by presburger
  then have "real_of_int (2 * (m div 2)) \<le> real_of_int m" by (simp only: of_int_le_iff)
  then have "real_of_int (m div 2) \<le> real_of_int m / 2" by simp
  then have "real_of_int (m div 2) \<le> x * 2 ^ 44" using h by simp
  then have r: "m div 2 \<le> round_half_even (x * 2 ^ 44)" by (rule rhe_ge_int)
  have "m - 1 \<le> 2 * (m div 2)" by presburger
  then have "m - 1 \<le> 2 * round_half_even (x * 2 ^ 44)" using r by linarith
  then have "real_of_int (m - 1) \<le> real_of_int (2 * round_half_even (x * 2 ^ 44))"
    by (simp only: of_int_le_iff)
  then have "real_of_int m - 1 \<le> real_of_int (round_half_even (x * 2 ^ 44)) * 2" by simp
  then show ?thesis by (simp add: fl_eval8[OF x8 x(2)] field_simps)
qed

lemma fl_le_grid45:
  assumes x: "128 \<le> x" "x < 512" and le: "x \<le> of_int m / 2 ^ 45"
  shows "fl x \<le> of_int m / 2 ^ 45 + 1 / 2 ^ 45"
proof -
  have "x < of_int (m + 1) / 2 ^ 45" using le by (simp add: field_simps)
  from fl_lt_grid45[OF x this] show ?thesis by (simp add: add_divide_distrib)
qed

lemma fl_idem:
  assumes x: "128 \<le> x" "x \<le> 500"
  shows "fl (fl x) = fl x"
proof -
  have f500: "fl 500 = 500" using fl_dyadic[of 500 0] by simp
  have f128: "fl 128 = 128" using fl_dyadic[of 128 0] by simp
  have lo: "128 \<le> fl x" using fl_ge_double[of 128 x] x f128 by simp
  have hi: "fl x \<le> 500" using fl_le_double[of x 500] x f500 by simp
  show ?thesis
  proof (cases "x < 256")
    case True
    have le: "fl x \<le> 256" using fl_le_double[of x 256] x True fl_256 by simp
    show ?thesis
    proof (cases "fl x = 256")
      case True
      then show ?thesis by (simp add: fl_256)
    next
      case False
      then have lt: "fl x < 256" using le by simp
      have e: "fl x = of_int (round_half_even (x * 2 ^ 45)) / 2 ^ 45"
        using x True by (intro fl_eval7) simp_all
      have "fl (of_int (round_half_even (x * 2 ^ 45)) / 2 ^ 45) =
          of_int (round_half_even (x * 2 ^ 45)) / 2 ^ 45"
        using lt lo unfolding e by (intro fl_grid45) simp_all
      then show ?thesis by (simp only: e)
    qed
  next
    case False
    then have e: "fl x = of_int (round_half_even (x * 2 ^ 44)) / 2 ^ 44"
      using x by (intro fl_eval8) simp_all
    have "fl (of_int (round_half_even (x * 2 ^ 44)) / 2 ^ 44) =
        of_int (round_half_even (x * 2 ^ 44)) / 2 ^ 44"
      using hi lo unfolding e by (intro fl_grid44) simp_all
    then show ?thesis by (simp only: e)
  qed
qed

text \<open>The daily jitter: a double between 129 and 400 moves by at most one half.\<close>

lemma fadd_jitter:
  assumes w: "fl w = w" "129 \<le> w" "w \<le> 400" and j: "- (1 / 2) \<le> j" "j < 1 / 2"
  shows "w - 1 / 2 \<le> fadd w j \<and> fadd w j \<le> w + 1 / 2 \<and> fl (fadd w j) = fadd w j"
proof -
  have h: "fl (w - 1 / 2) = w - 1 / 2" using w by (intro fl_sub_half) simp_all
  have lo: "w - 1 / 2 \<le> fl (w + j)"
    using fl_ge_double[of "w - 1 / 2" "w + j"] h w j by simp
  obtain m where m: "w = of_int m / 2 ^ 45" using grid45[of w] w by auto
  have e: "w + 1 / 2 = of_int (m + 2 ^ 44) / 2 ^ 45" by (simp add: m add_divide_distrib)
  have "w + j < of_int (m + 2 ^ 44) / 2 ^ 45" using j unfolding e[symmetric] by simp
  moreover have "128 \<le> w + j" "w + j < 512" using w j by simp_all
  ultimately have "fl (w + j) \<le> of_int (m + 2 ^ 44) / 2 ^ 45" by (intro fl_lt_grid45)
  then have hi: "fl (w + j) \<le> w + 1 / 2" by (simp only: e)
  have "fl (fl (w + j)) = fl (w + j)" using w j by (intro fl_idem) simp_all
  then show ?thesis using lo hi by (simp add: fadd_def)
qed

text \<open>The extra gain: a double between 128 and 400 grows by the gain, up to one unit
  in the last place.\<close>

lemma fadd_gain:
  assumes w: "fl w = w" "128 \<le> w" "w \<le> 400" and g: "1 \<le> gain" "gain \<le> 5 / 2"
  shows "w + 1 - 1 / 2 ^ 45 \<le> fadd w gain \<and> fadd w gain \<le> w + 5 / 2 + 1 / 2 ^ 45 \<and>
         fl (fadd w gain) = fadd w gain"
proof -
  obtain m where m: "w = of_int m / 2 ^ 45" using grid45[of w] w by auto
  have r: "128 \<le> w + gain" "w + gain < 512" using w g by simp_all
  have e1: "w + 1 = of_int (m + 2 ^ 45) / 2 ^ 45" by (simp add: m add_divide_distrib)
  have "of_int (m + 2 ^ 45) / 2 ^ 45 \<le> w + gain" using g unfolding e1[symmetric] by simp
  from fl_ge_grid45[OF r this] have lo: "w + 1 - 1 / 2 ^ 45 \<le> fl (w + gain)"
    by (simp only: e1)
  have e2: "w + 5 / 2 = of_int (m + 5 * 2 ^ 44) / 2 ^ 45" by (simp add: m add_divide_distrib)
  have "w + gain \<le> of_int (m + 5 * 2 ^ 44) / 2 ^ 45" using g unfolding e2[symmetric] by simp
  from fl_le_grid45[OF r this] have hi: "fl (w + gain) \<le> w + 5 / 2 + 1 / 2 ^ 45"
    by (simp only: e2)
  have "fl (fl (w + gain)) = fl (w + gain)" using w g by (intro fl_idem) simp_all
  then show ?thesis using lo hi by (simp add: fadd_def)
qed

lemma fl_consts:
  "fl 1 = 1" "fl 7 = 7" "fl 92 = 92" "fl 99 = 99" "fl 100 = 100" "fl 150 = 150" "fl 250 = 250"
  "fl (3 / 2) = 3 / 2" "fl (5 / 2) = 5 / 2"
  using fl_dyadic[of 1 0] fl_dyadic[of 7 0] fl_dyadic[of 92 0] fl_dyadic[of 99 0]
    fl_dyadic[of 100 0] fl_dyadic[of 150 0] fl_dyadic[of 250 0]
    fl_dyadic[of 3 1] fl_dyadic[of 5 1]
  by simp_all

section \<open>Draws stay in their range\<close>

lemma raising_Inl: "raising (Inl e) f = Inl e" by (simp add: raising_def)
lemma raising_Inr: "raising (Inr x) f = f x" by (simp add: raising_def)

lemma randbelow_lt: "0 < n \<Longrightarrow> randbelow n g = (r, g') \<Longrightarrow> r < n"
  by (auto simp: randbelow_def)

lemma py_randint_range: "a \<le> b \<Longrightarrow> py_randint a b g = (x, g') \<Longrightarrow> a \<le> x \<and> x \<le> b"
proof -
  assume ab: "a \<le> b" and eq: "py_randint a b g = (x, g')"
  have pos: "0 < nat (b - a + 1)" using ab by simp
  have "x = a + int (shd g mod nat (b - a + 1))"
    using eq by (simp add: py_randint_def randbelow_def)
  moreover have "shd g mod nat (b - a + 1) < nat (b - a + 1)"
    using pos by (rule mod_less_divisor)
  ultimately show ?thesis using ab by linarith
qed

lemma py_random_range: "py_random g = (u, g') \<Longrightarrow> 0 \<le> u \<and> u < 1"
  by (auto simp: py_random_def)

lemma py_uniform_range:
  assumes a: "0 \<le> a" "a \<le> b" and d: "fl a = a" "fl b = b" "fl (b - a) = b - a"
    and eq: "py_uniform a b g = (x, g')"
  shows "a \<le> x \<and> x \<le> b"
proof -
  obtain u g1 where r: "py_random g = (u, g1)" by (cases "py_random g")
  from py_random_range[OF r] have u: "0 \<le> u" "u < 1" by auto
  define p where "p = fl ((b - a) * u)"
  have x: "x = fl (a + p)" using eq r by (simp add: py_uniform_def fadd_def fmul_def fsub_def d p_def)
  have "0 \<le> (b - a) * u" using a u by simp
  then have p0: "0 \<le> p" unfolding p_def by (rule fl_nonneg)
  have "(b - a) * u \<le> (b - a) * 1" using a u by (intro mult_left_mono) auto
  then have p1: "p \<le> b - a"
    unfolding p_def using fl_le_double[of "(b - a) * u" "b - a"] a u d by simp
  have "a \<le> fl (a + p)" using fl_ge_double[of a "a + p"] a p0 d by simp
  moreover have "fl (a + p) \<le> b" using fl_le_double[of "a + p" b] a p0 p1 d by simp
  ultimately show ?thesis by (simp add: x)
qed

lemma py_uniform_jitter:
  "py_uniform (- (1 / 2)) (1 / 2) g = (real (shd g mod 2 ^ 53) / 2 ^ 53 - 1 / 2, stl g)"
proof -
  define k where "k = shd g mod 2 ^ 53"
  have k: "k < 2 ^ 53" by (simp add: k_def)
  have u: "fl (real k / 2 ^ 53) = real k / 2 ^ 53"
    using fl_dyadic[of "int k" 53] k by simp
  have e: "real k / 2 ^ 53 - 1 / 2 = of_int (int k - 2 ^ 52) / 2 ^ 53"
    by (simp add: diff_divide_distrib)
  have "\<bar>int k - 2 ^ 52\<bar> < 2 ^ 53" using k by simp
  then have s: "fl (real k / 2 ^ 53 - 1 / 2) = real k / 2 ^ 53 - 1 / 2"
    unfolding e by (intro fl_dyadic) simp_all
  have d: "fsub (1 / 2) (- (1 / 2)) = 1" by (simp add: fsub_def fl_consts)
  have c: "- (1 / 2) + real k / 2 ^ 53 = real k / 2 ^ 53 - 1 / 2" by simp
  have "fadd (- (1 / 2)) (fmul 1 (real k / 2 ^ 53)) = real k / 2 ^ 53 - 1 / 2"
    by (simp only: fadd_def fmul_def mult_1 u c s)
  then show ?thesis
    unfolding py_uniform_def py_random_def k_def[symmetric] d by (simp only: prod.case)
qed

lemma py_uniform_jitter_range:
  assumes "py_uniform (- (1 / 2)) (1 / 2) g = (x, g')"
  shows "- (1 / 2) \<le> x \<and> x < 1 / 2"
proof -
  have "real (shd g mod 2 ^ 53) / 2 ^ 53 < 1" by simp
  moreover have "0 \<le> real (shd g mod 2 ^ 53) / 2 ^ 53" by simp
  ultimately show ?thesis using assms unfolding py_uniform_jitter by auto
qed

section \<open>The choice of a profile\<close>

text \<open>The binary64 numbers nearest to 0.7, 0.2 and 0.1, and the cumulative weights
  0.7, 0.8999999999999999 and 0.9999999999999999 that \<^verbatim>\<open>random.choices\<close> computes
  from them.\<close>

lemma profile_doubles:
  "fl (7 / 10) = 3152519739159347 / 4503599627370496"
  "fl (1 / 5) = 3602879701896397 / 18014398509481984"
  "fl (1 / 10) = 3602879701896397 / 36028797018963968"
  using fl_eval[of "- 1" "7 / 10"] fl_eval[of "- 3" "1 / 5"] fl_eval[of "- 4" "1 / 10"]
  by (simp_all add: round_half_even_def Let_def)

lemma profile_sums:
  "fl (3152519739159347 / 4503599627370496) = 3152519739159347 / 4503599627370496"
  "fl (16212958658533785 / 18014398509481984) = 2026619832316723 / 2251799813685248"
  "fl (36028797018963965 / 36028797018963968) = 9007199254740991 / 9007199254740992"
  using fl_dyadic[of 3152519739159347 52]
    fl_eval[of "- 1" "16212958658533785 / 18014398509481984"]
    fl_eval[of "- 1" "36028797018963965 / 36028797018963968"]
  by (simp_all add: round_half_even_def Let_def)

lemma profile_cum_weights:
  "accumulate 0 (map snd PATIENT_PROFILES) =
     [3152519739159347 / 4503599627370496, 2026619832316723 / 2251799813685248,
      9007199254740991 / 9007199254740992]"
  by (simp add: PATIENT_PROFILES_def fadd_def profile_doubles profile_sums)

lemma choose_profile_stable:
  assumes "shd g mod 2 ^ 53 = 0"
  shows "choose_profile g = (''stable'', stl g)"
proof -
  have u: "py_random g = (0, stl g)" using assms by (simp add: py_random_def)
  show ?thesis
    unfolding choose_profile_def py_choices1_def Let_def profile_cum_weights u
    by (simp add: PATIENT_PROFILES_def fmul_def fl_0 bisect_def)
qed

lemma choose_profile_weight_gain:
  assumes "shd g mod 2 ^ 53 = 6755399441055744"
  shows "choose_profile g = (''high_risk_weight_gain'', stl g)"
proof -
  have u: "py_random g = (3 / 4, stl g)" using assms by (simp add: py_random_def)
  have p: "fl (27021597764222973 / 36028797018963968) = 6755399441055743 / 9007199254740992"
    using fl_eval[of "- 1" "27021597764222973 / 36028797018963968"]
    by (simp add: round_half_even_def Let_def)
  show ?thesis
    unfolding choose_profile_def py_choices1_def Let_def profile_cum_weights u
    by (simp add: PATIENT_PROFILES_def fmul_def p bisect_def)
qed

section \<open>One iteration of the daily loop\<close>

lemma list_getitem_nth: "0 \<le> i \<Longrightarrow> i < int (length xs) \<Longrightarrow> list_getitem xs i = Inr (xs ! nat i)"
  by (simp add: list_getitem_def)

lemma getitem_Some: "d k = Some v \<Longrightarrow> getitem d k = Inr v"
  by (simp add: getitem_def)

lemma loop_body_explicit:
  assumes P: "base_info ''profile_type'' = Some pt"
    and L1: "length (daily_weights s) = day" and L2: "length (daily_adherence s) = day"
    and d1: "py_uniform (- (1 / 2)) (1 / 2) (rng_state s) = (jitter, g1)"
    and d2: "py_randint 1 3 g1 = (breath, g2)"
    and d3: "py_randint 1 4 g2 = (fatigue, g3)"
    and d4: "py_randint 1 3 g3 = (swelling, g4)"
    and d5: "py_uniform 1 (5 / 2) g4 = (gain, g5)"
    and d6: "py_randint 4 8 g5 = (breath', g6)"
    and d7: "py_randint 4 8 g6 = (swelling', g7')"
    and wga: "wga = (pt = PStr ''high_risk_weight_gain'' \<and> wgs \<le> int day)"
    and g7: "g7 = (if wga then g7' else g4)"
    and d8: "py_randint 5 9 g7 = (fatigue', g8')"
    and naa: "naa = (pt = PStr ''non_adherent'' \<and> nas \<le> int day)"
    and g8: "g8 = (if naa then g8' else g7)"
    and d9: "py_randint 110 160 g8 = (systolic, g9)"
    and d10: "py_randint 70 100 g9 = (diastolic, g10)"
    and d11: "py_randint 60 100 g10 = (heart_rate, g11)"
    and d12: "py_uniform 92 99 g11 = (oxygen, g12)"
    and cw: "cw = (if wga then fadd (fadd (current_weight s) jitter) gain
                   else fadd (current_weight s) jitter)"
  shows "loop_body base_info dd wgs nas day s =
    Inr \<lparr>records = records s @
            [(base_info(''date'' \<mapsto> PIso (dd + timedelta_days (int day))) ++
              [''weight'' \<mapsto> PFloat (round_float cw 2),
               ''blood_pressure_systolic'' \<mapsto> PInt systolic,
               ''blood_pressure_diastolic'' \<mapsto> PInt diastolic,
               ''heart_rate'' \<mapsto> PInt heart_rate,
               ''oxygen_saturation'' \<mapsto> PFloat (round_float oxygen 2),
               ''medication_adherence'' \<mapsto> PBool (\<not> naa),
               ''weight_gain_over_3_days'' \<mapsto>
                  (if 3 \<le> day
                   then PFloat (round_float (fsub cw ((daily_weights s @ [cw]) ! (day - 3))) 2)
                   else PInt 0),
               ''consecutive_missed_meds'' \<mapsto>
                  PInt (if naa \<and> 1 \<le> day \<and> \<not> (daily_adherence s @ [\<not> naa]) ! (day - 1)
                        then 2 else 0),
               ''days_since_discharge'' \<mapsto>
                  PInt (days_of (dd + timedelta_days (int day) - dd))]) ++
             [''symptom_shortness_of_breath'' \<mapsto> PInt (if wga then breath' else breath),
              ''symptom_fatigue'' \<mapsto> PInt (if naa then fatigue' else fatigue),
              ''symptom_swelling'' \<mapsto> PInt (if wga then swelling' else swelling)]],
          daily_weights = daily_weights s @ [cw],
          daily_adherence = daily_adherence s @ [\<not> naa],
          current_weight = cw,
          rng_state = g12\<rparr>"
proof -
  have gp: "getitem base_info ''profile_type'' = Inr pt" using P by (simp add: getitem_def)
  have n1: "nat (int day - 3) = day - 3" "nat (int day - 1) = day - 1" by simp_all
  show ?thesis
  proof (cases wga; cases naa)
    assume a: "wga" "naa"
    then have False using wga naa by auto
    then show ?thesis ..
  next
    assume a: "wga" "\<not> naa"
    have e: "g7 = g7'" "g8 = g7'" using g7 g8 a by simp_all
    show ?thesis using a L1 L2 unfolding loop_body_def Let_def
      apply (simp only: d1 d2 d3 d4 gp raising_Inr prod.case)
      apply (simp add: wga[symmetric] naa[symmetric] d5 d6 d7 d8[unfolded e] d9[unfolded e] d10 d11 d12 cw raising_Inr list_getitem_nth n1 fun_upd_twist)
      done
  next
    assume a: "\<not> wga" "naa"
    have e: "g7 = g4" "g8 = g8'" using g7 g8 a by simp_all
    show ?thesis using a L1 L2 unfolding loop_body_def Let_def
      apply (simp only: d1 d2 d3 d4 gp raising_Inr prod.case)
      apply (simp add: wga[symmetric] naa[symmetric] d5 d6 d7 d8[unfolded e] d9[unfolded e] d10 d11 d12 cw raising_Inr list_getitem_nth n1 fun_upd_twist)
      done
  next
    assume a: "\<not> wga" "\<not> naa"
    have e: "g7 = g4" "g8 = g4" using g7 g8 a by simp_all
    show ?thesis using a L1 L2 unfolding loop_body_def Let_def
      apply (simp only: d1 d2 d3 d4 gp raising_Inr prod.case)
      apply (simp add: wga[symmetric] naa[symmetric] d5 d6 d7 d8[unfolded e] d9[unfolded e] d10 d11 d12 cw raising_Inr list_getitem_nth n1 fun_upd_twist)
      done
  qed
qed

lemma days_of_timedelta_days: "days_of (dd + timedelta_days d - dd) = d"
  by (simp add: days_of_def timedelta_days_def)

lemma days_of_timedelta_days2: "days_of (timedelta_days d) = d"
  by (simp add: days_of_def timedelta_days_def)

lemma loop_body_step:
  assumes P: "base_info ''profile_type'' = Some pt"
    and L0: "length (records s) = day"
    and L1: "length (daily_weights s) = day" and L2: "length (daily_adherence s) = day"
    and C: "current_weight s = (if day = 0 then cw0 else daily_weights s ! (day - 1))"
    and W: "fl (current_weight s) = current_weight s"
    and B: "150 - real day / 2 \<le> current_weight s" "current_weight s \<le> 250 + 4 * real day"
    and D: "day < 30"
    and G: "\<forall>i<day. fl (daily_weights s ! i) = daily_weights s ! i \<and>
              128 \<le> daily_weights s ! i \<and> daily_weights s ! i < 384"
  shows "\<exists>s' r w a. loop_body base_info dd wgs nas day s = Inr s' \<and>
           records s' = records s @ [r] \<and> daily_weights s' = daily_weights s @ [w] \<and>
           daily_adherence s' = daily_adherence s @ [a] \<and> current_weight s' = w \<and>
           day_facts base_info pt wgs nas cw0 s' day"
proof -
  define wga where "wga = (pt = PStr ''high_risk_weight_gain'' \<and> wgs \<le> int day)"
  define naa where "naa = (pt = PStr ''non_adherent'' \<and> nas \<le> int day)"
  obtain jitter g1 where d1: "py_uniform (- (1 / 2)) (1 / 2) (rng_state s) = (jitter, g1)"
    by (cases "py_uniform (- (1 / 2)) (1 / 2) (rng_state s)")
  obtain breath g2 where d2: "py_randint 1 3 g1 = (breath, g2)" by (cases "py_randint 1 3 g1")
  obtain fatigue g3 where d3: "py_randint 1 4 g2 = (fatigue, g3)" by (cases "py_randint 1 4 g2")
  obtain swelling g4 where d4: "py_randint 1 3 g3 = (swelling, g4)" by (cases "py_randint 1 3 g3")
  obtain gain g5 where d5: "py_uniform 1 (5 / 2) g4 = (gain, g5)" by (cases "py_uniform 1 (5 / 2) g4")
  obtain breath' g6 where d6: "py_randint 4 8 g5 = (breath', g6)" by (cases "py_randint 4 8 g5")
  obtain swelling' g7' where d7: "py_randint 4 8 g6 = (swelling', g7')" by (cases "py_randint 4 8 g6")
  define g7 where "g7 = (if wga then g7' else g4)"
  obtain fatigue' g8' where d8: "py_randint 5 9 g7 = (fatigue', g8')" by (cases "py_randint 5 9 g7")
  define g8 where "g8 = (if naa then g8' else g7)"
  obtain systolic g9 where d9: "py_randint 110 160 g8 = (systolic, g9)" by (cases "py_randint 110 160 g8")
  obtain diastolic g10 where d10: "py_randint 70 100 g9 = (diastolic, g10)" by (cases "py_randint 70 100 g9")
  obtain heart_rate g11 where d11: "py_randint 60 100 g10 = (heart_rate, g11)" by (cases "py_randint 60 100 g10")
  obtain oxygen g12 where d12: "py_uniform 92 99 g11 = (oxygen, g12)" by (cases "py_uniform 92 99 g11")
  define w1 where "w1 = fadd (current_weight s) jitter"
  define cw where "cw = (if wga then fadd (fadd (current_weight s) jitter) gain
                         else fadd (current_weight s) jitter)"
  note ex = loop_body_explicit[where base_info = base_info and pt = pt and dd = dd, OF P L1 L2 d1 d2 d3 d4 d5 d6 d7 wga_def g7_def d8 naa_def g8_def
      d9 d10 d11 d12 cw_def]
  define s' where "s' = projr (loop_body base_info dd wgs nas day s)"
  have s': "loop_body base_info dd wgs nas day s = Inr s'"
    unfolding s'_def ex by simp
  note s'eq = s'[unfolded ex, simplified, symmetric]
  have jr: "- (1 / 2) \<le> jitter" "jitter < 1 / 2" using py_uniform_jitter_range[OF d1] by simp_all
  have gr: "1 \<le> gain" "gain \<le> 5 / 2"
    using py_uniform_range[OF _ _ _ _ _ d5] by (simp_all add: fl_consts)
  have sr: "1 \<le> swelling \<and> swelling \<le> 3" using py_randint_range[OF _ d4] by simp
  have sr': "4 \<le> swelling' \<and> swelling' \<le> 8" using py_randint_range[OF _ d7] by simp
  have rd: "real day < 30" using D by simp
  have c129: "129 \<le> current_weight s" "current_weight s \<le> 400" using B rd by linarith+
  from fadd_jitter[OF W c129 jr]
  have j1: "current_weight s - 1 / 2 \<le> w1" "w1 \<le> current_weight s + 1 / 2" "fl w1 = w1"
    by (simp_all add: w1_def)
  have w128: "128 \<le> w1" "w1 \<le> 400" using j1 B rd by linarith+
  from fadd_gain[OF j1(3) w128 gr]
  have j2: "w1 + 1 - 1 / 2 ^ 45 \<le> fadd w1 gain" "fadd w1 gain \<le> w1 + 5 / 2 + 1 / 2 ^ 45"
    "fl (fadd w1 gain) = fadd w1 gain"
    by simp_all
  have cw1: "cw = (if wga then fadd w1 gain else w1)" by (simp add: cw_def w1_def)
  have ch: "if wga then 1 / 2 - 1 / 2 ^ 45 \<le> cw - current_weight s \<and>
                        cw - current_weight s \<le> 3 + 1 / 2 ^ 45
            else - (1 / 2) \<le> cw - current_weight s \<and> cw - current_weight s \<le> 1 / 2"
    using j1 j2 by (simp add: cw1)
  have cwd: "fl cw = cw" using j1 j2 by (simp add: cw1)
  have chl: "- (1 / 2) \<le> cw - current_weight s" and chu: "cw - current_weight s \<le> 4"
    using ch by (cases wga; simp)+
  have hd: "(real day + 1) / 2 = real day / 2 + 1 / 2" by (simp add: add_divide_distrib)
  have hm: "4 * (real day + 1) = 4 * real day + 4" by simp
  have cwb: "150 - (real day + 1) / 2 \<le> cw" "cw \<le> 250 + 4 * (real day + 1)"
    unfolding hd hm using chl chu B by linarith+
  have cwr: "128 \<le> cw" "cw < 384" using cwb[unfolded hd hm] rd by linarith+
  have f1: "daily_adherence s' ! day = (\<not> naa)" using L2 by (simp add: s'eq nth_append)
  have f2: "(records s' ! day) ''medication_adherence'' = Some (PBool (\<not> naa))"
    using L0 by (simp add: s'eq nth_append)
  have f3: "(records s' ! day) ''weight'' = Some (PFloat (round_float (daily_weights s' ! day) 2))"
    using L0 L1 by (simp add: s'eq nth_append)
  have p8: "daily_weights s' ! day = cw" using L1 by (simp add: s'eq nth_append)
  have ex3: "fsub cw (daily_weights s ! (day - 3)) = cw - daily_weights s ! (day - 3)"
    if "3 \<le> day"
  proof -
    have "day - 3 < day" using that by arith
    then have "fl (daily_weights s ! (day - 3)) = daily_weights s ! (day - 3)"
      "128 \<le> daily_weights s ! (day - 3)" "daily_weights s ! (day - 3) < 384"
      using G by blast+
    then show ?thesis unfolding fsub_def using cwd cwr by (intro fsub_exact)
  qed
  have f4: "(records s' ! day) ''weight_gain_over_3_days'' =
      Some (if 3 \<le> day then PFloat (round_float (daily_weights s' ! day - daily_weights s' ! (day - 3)) 2) else PInt 0)"
    using L0 L1 ex3 by (simp add: s'eq nth_append)
  have f5: "(records s' ! day) ''consecutive_missed_meds'' =
      Some (PInt (if naa \<and> 1 \<le> day \<and> \<not> daily_adherence s' ! (day - 1) then 2 else 0))"
    using L0 L2 by (simp add: s'eq nth_append)
  have f6: "(records s' ! day) ''days_since_discharge'' = Some (PInt (int day))"
    using L0 by (simp add: s'eq nth_append days_of_timedelta_days2)
  have f7: "\<exists>x. (records s' ! day) ''symptom_swelling'' = Some (PInt x) \<and>
              (if wga then 4 \<le> x \<and> x \<le> 8 else 1 \<le> x \<and> x \<le> 3)"
    using L0 sr sr' by (simp add: s'eq nth_append)
  have q8: "(if day = 0 then cw0 else daily_weights s' ! (day - 1)) = current_weight s"
    using L1 C by (auto simp: s'eq nth_append)
  have "- (1 / 2) \<le> jitter \<and> jitter < 1 / 2 \<and> 1 \<le> gain \<and> gain \<le> 5 / 2 \<and>
      daily_weights s' ! day =
        (if wga then fadd (fadd (if day = 0 then cw0 else daily_weights s' ! (day - 1)) jitter) gain
         else fadd (if day = 0 then cw0 else daily_weights s' ! (day - 1)) jitter)"
    using jr gr by (simp only: p8 q8 cw_def)
  then have f8: "\<exists>jitter gain. - (1 / 2) \<le> jitter \<and> jitter < 1 / 2 \<and> 1 \<le> gain \<and> gain \<le> 5 / 2 \<and>
      daily_weights s' ! day =
        (if wga then fadd (fadd (if day = 0 then cw0 else daily_weights s' ! (day - 1)) jitter) gain
         else fadd (if day = 0 then cw0 else daily_weights s' ! (day - 1)) jitter)"
    by blast
  have f10: "if wga
      then 1 / 2 - 1 / 2 ^ 45 \<le> daily_weights s' ! day - (if day = 0 then cw0 else daily_weights s' ! (day - 1)) \<and>
           daily_weights s' ! day - (if day = 0 then cw0 else daily_weights s' ! (day - 1)) \<le> 3 + 1 / 2 ^ 45
      else - (1 / 2) \<le> daily_weights s' ! day - (if day = 0 then cw0 else daily_weights s' ! (day - 1)) \<and>
           daily_weights s' ! day - (if day = 0 then cw0 else daily_weights s' ! (day - 1)) \<le> 1 / 2"
    using ch by (simp only: p8 q8)
  have f11: "fl (daily_weights s' ! day) = daily_weights s' ! day"
    "150 - (real day + 1) / 2 \<le> daily_weights s' ! day"
    "daily_weights s' ! day \<le> 250 + 4 * (real day + 1)"
    using cwd cwb by (simp_all only: p8)
  have f9: "\<forall>k. k \<notin> set DAILY_KEYS \<longrightarrow> (records s' ! day) k = base_info k"
    using L0 by (simp add: s'eq nth_append DAILY_KEYS_def)
  have "day_facts base_info pt wgs nas cw0 s' day"
    unfolding day_facts_def Let_def wga_def[symmetric] naa_def[symmetric]
    using f1 f2 f3 f4 f5 f6 f7 f8 f10 f11 f9 by (intro conjI) assumption+
  moreover have "\<exists>r w a. records s' = records s @ [r] \<and> daily_weights s' = daily_weights s @ [w] \<and>
           daily_adherence s' = daily_adherence s @ [a] \<and> current_weight s' = w"
    by (simp add: s'eq)
  ultimately show ?thesis using s' by blast
qed

section \<open>The daily loop\<close>

lemma for_days_snoc: "for_days body (ds @ [d]) s = raising (for_days body ds s) (body d)"
proof (induction ds arbitrary: s)
  case Nil
  show ?case by (cases "body d s") (simp_all add: raising_def)
next
  case (Cons a ds)
  show ?case by (cases "body a s") (simp_all add: raising_def Cons.IH)
qed

lemma day_facts_extend:
  assumes d: "d < length (records s)" "d < length (daily_weights s)" "d < length (daily_adherence s)"
    and e: "records s' = records s @ rs" "daily_weights s' = daily_weights s @ ws"
     "daily_adherence s' = daily_adherence s @ as"
  shows "day_facts base_info pt wgs nas cw0 s' d = day_facts base_info pt wgs nas cw0 s d"
proof -
  have r: "records s' ! d = records s ! d" using d e by (simp add: nth_append)
  have lt: "d - 1 < length (daily_weights s)" "d - 3 < length (daily_weights s)"
    "d - 1 < length (daily_adherence s)" using d by arith+
  have w: "daily_weights s' ! d = daily_weights s ! d"
    "daily_weights s' ! (d - 1) = daily_weights s ! (d - 1)"
    "daily_weights s' ! (d - 3) = daily_weights s ! (d - 3)"
    using d e lt by (simp_all add: nth_append)
  have a: "daily_adherence s' ! d = daily_adherence s ! d"
    "daily_adherence s' ! (d - 1) = daily_adherence s ! (d - 1)"
    using d e lt by (simp_all add: nth_append)
  show ?thesis unfolding day_facts_def Let_def by (simp only: r w a)
qed

lemma for_days_append:
  "for_days body (ds @ es) s = raising (for_days body ds s) (for_days body es)"
proof (induction ds arbitrary: s)
  case Nil
  show ?case by (simp add: raising_def)
next
  case (Cons a ds)
  show ?case by (cases "body a s") (simp_all add: raising_def Cons.IH)
qed

text \<open>What the facts of a day say about its running weight.\<close>

lemma day_facts_weight:
  assumes "day_facts base_info pt wgs nas cw0 s d"
  shows "fl (daily_weights s ! d) = daily_weights s ! d"
    and "150 - (real d + 1) / 2 \<le> daily_weights s ! d"
    and "daily_weights s ! d \<le> 250 + 4 * (real d + 1)"
  using assms unfolding day_facts_def Let_def by blast+

lemma for_days_facts:
  assumes P: "base_info ''profile_type'' = Some pt"
    and I0: "length (records s0) = k" "length (daily_weights s0) = k"
      "length (daily_adherence s0) = k"
      "current_weight s0 = (if k = 0 then cw0 else daily_weights s0 ! (k - 1))"
      "\<forall>d<k. day_facts base_info pt wgs nas cw0 s0 d"
    and S: "fl cw0 = cw0" "150 \<le> cw0" "cw0 \<le> 250"
  shows "k + m \<le> 30 \<Longrightarrow>
         \<exists>s. for_days (loop_body base_info dd wgs nas) [k..<k + m] s0 = Inr s \<and>
            length (records s) = k + m \<and> length (daily_weights s) = k + m \<and>
            length (daily_adherence s) = k + m \<and>
            current_weight s = (if k + m = 0 then cw0 else daily_weights s ! (k + m - 1)) \<and>
            (\<forall>d<k + m. day_facts base_info pt wgs nas cw0 s d) \<and>
            take k (records s) = records s0 \<and> take k (daily_weights s) = daily_weights s0"
proof (induction m)
  case 0
  show ?case using I0 by simp
next
  case (Suc m)
  have km: "k + m < 30" using Suc.prems by simp
  then have "k + m \<le> 30" by simp
  from Suc.IH[OF this]
  obtain s where run: "for_days (loop_body base_info dd wgs nas) [k..<k + m] s0 = Inr s"
    and L: "length (records s) = k + m" "length (daily_weights s) = k + m"
      "length (daily_adherence s) = k + m"
    and C: "current_weight s = (if k + m = 0 then cw0 else daily_weights s ! (k + m - 1))"
    and F: "\<forall>d<k + m. day_facts base_info pt wgs nas cw0 s d"
    and T: "take k (records s) = records s0" "take k (daily_weights s) = daily_weights s0"
    by blast
  have G: "\<forall>i<k + m. fl (daily_weights s ! i) = daily_weights s ! i \<and>
              128 \<le> daily_weights s ! i \<and> daily_weights s ! i < 384"
  proof (intro allI impI)
    fix i assume i: "i < k + m"
    then have Fi: "day_facts base_info pt wgs nas cw0 s i" using F by blast
    note w = day_facts_weight[OF Fi]
    have r: "real i + 1 \<le> 30" using i km by simp
    then have "(real i + 1) / 2 \<le> 15" by simp
    then have "128 \<le> daily_weights s ! i" using w(2) by linarith
    moreover have "4 * (real i + 1) \<le> 120" using r by simp
    then have "daily_weights s ! i < 384" using w(3) by linarith
    ultimately show "fl (daily_weights s ! i) = daily_weights s ! i \<and>
              128 \<le> daily_weights s ! i \<and> daily_weights s ! i < 384"
      using w(1) by blast
  qed
  have WB: "fl (current_weight s) = current_weight s \<and>
      150 - real (k + m) / 2 \<le> current_weight s \<and> current_weight s \<le> 250 + 4 * real (k + m)"
  proof (cases "k + m = 0")
    case True
    then show ?thesis using C S by simp
  next
    case False
    then obtain n where n: "k + m = Suc n" by (cases "k + m") simp_all
    have Fn: "day_facts base_info pt wgs nas cw0 s n" using F n by simp
    have c: "current_weight s = daily_weights s ! n" using C n by simp
    have r: "real (k + m) = real n + 1" using n by simp
    show ?thesis using day_facts_weight[OF Fn] unfolding c r by simp
  qed
  from loop_body_step[where base_info = base_info and pt = pt and dd = dd and wgs = wgs
      and nas = nas and day = "k + m" and s = s and ?cw0.0 = cw0, OF P L C _ _ _ km G] WB
  obtain s' r w a where step: "loop_body base_info dd wgs nas (k + m) s = Inr s'"
    and E: "records s' = records s @ [r]" "daily_weights s' = daily_weights s @ [w]"
      "daily_adherence s' = daily_adherence s @ [a]" "current_weight s' = w"
    and N: "day_facts base_info pt wgs nas cw0 s' (k + m)"
    by blast
  have run': "for_days (loop_body base_info dd wgs nas) [k..<k + Suc m] s0 = Inr s'"
    by (simp add: for_days_snoc run step raising_def)
  have old: "day_facts base_info pt wgs nas cw0 s' d" if "d < k + m" for d
    using day_facts_extend[of d s s', OF _ _ _ E(1) E(2) E(3)] F L that by simp
  have all: "\<forall>d<k + Suc m. day_facts base_info pt wgs nas cw0 s' d"
    using old N by (auto simp: less_Suc_eq)
  have len: "length (records s') = k + Suc m" "length (daily_weights s') = k + Suc m"
    "length (daily_adherence s') = k + Suc m" using E L by simp_all
  have cur: "current_weight s' =
      (if k + Suc m = 0 then cw0 else daily_weights s' ! (k + Suc m - 1))"
    using E L by (simp add: nth_append)
  have tk: "take k (records s') = records s0" "take k (daily_weights s') = daily_weights s0"
    using E L T by simp_all
  show ?case
    apply (rule exI[of _ s'])
    using run' len cur all tk by (intro conjI) assumption+
qed

text \<open>The seed of the weight is a binary64 number between 150 and 250.\<close>

lemma seed_range:
  assumes "py_uniform 150 250 g = (cw0, g1)"
  shows "150 \<le> cw0" and "cw0 \<le> 250" and "fl cw0 = cw0"
proof -
  obtain u g' where r: "py_random g = (u, g')" by (cases "py_random g")
  have b: "150 \<le> cw0 \<and> cw0 \<le> 250"
    using py_uniform_range[OF _ _ _ _ _ assms] by (simp add: fl_consts)
  then show "150 \<le> cw0" and "cw0 \<le> 250" by simp_all
  have e: "cw0 = fl (150 + fmul (fsub 250 150) u)"
    using assms r by (simp add: py_uniform_def fadd_def)
  define x where "x = 150 + fmul (fsub 250 150) u"
  have f: "fl 128 = 128" "fl 500 = 500" using fl_dyadic[of 128 0] fl_dyadic[of 500 0] by simp_all
  have "128 \<le> x \<and> x \<le> 500"
  proof (rule ccontr)
    assume n: "\<not> (128 \<le> x \<and> x \<le> 500)"
    have "0 \<le> fmul (fsub 250 150) u"
      using py_random_range[OF r] by (simp add: fmul_def fsub_def fl_consts fl_nonneg)
    then have "500 < x" using n by (simp add: x_def)
    then have "500 \<le> fl x" using fl_ge_double[of 500 x] f by simp
    then show False using b by (simp add: e x_def)
  qed
  then have "fl (fl x) = fl x" by (intro fl_idem) simp_all
  then show "fl cw0 = cw0" by (simp add: e x_def)
qed

lemma daily_loop_facts:
  assumes P: "base_info ''profile_type'' = Some pt"
    and D: "base_info ''discharge_date'' = Some (PIso t)"
  shows "\<exists>s cw0 wgs nas.
            daily_loop base_info g = Inr s \<and>
            150 \<le> cw0 \<and> cw0 \<le> 250 \<and>
            (if pt = PStr ''high_risk_weight_gain'' then 5 \<le> wgs \<and> wgs \<le> 20 else wgs = - 1) \<and>
            (if pt = PStr ''non_adherent'' then 5 \<le> nas \<and> nas \<le> 20 else nas = - 1) \<and>
            length (records s) = DAYS_OF_DATA \<and> length (daily_weights s) = DAYS_OF_DATA \<and>
            length (daily_adherence s) = DAYS_OF_DATA \<and>
            (\<forall>d<DAYS_OF_DATA. day_facts base_info pt wgs nas cw0 s d)"
proof -
  obtain cw0 g1 where d1: "py_uniform 150 250 g = (cw0, g1)" by (cases "py_uniform 150 250 g")
  obtain wgs g2 where d2:
    "(if pt = PStr ''high_risk_weight_gain'' then py_randint 5 20 g1 else (- 1, g1)) = (wgs, g2)"
    by (cases "if pt = PStr ''high_risk_weight_gain'' then py_randint 5 20 g1 else (- 1, g1)")
  obtain nas g3 where d3:
    "(if pt = PStr ''non_adherent'' then py_randint 5 20 g2 else (- 1, g2)) = (nas, g3)"
    by (cases "if pt = PStr ''non_adherent'' then py_randint 5 20 g2 else (- 1, g2)")
  define s0 where "s0 = \<lparr>records = [], daily_weights = [], daily_adherence = [],
         current_weight = cw0, rng_state = g3\<rparr>"
  have eq: "daily_loop base_info g =
      for_days (loop_body base_info t wgs nas) [0..<DAYS_OF_DATA] s0"
    unfolding daily_loop_def s0_def
    by (simp only: d1 prod.case getitem_Some[where d = base_info, OF P]
        getitem_Some[where d = base_info, OF D] raising_Inr fromisoformat.simps d2 d3)
  note S = seed_range(3)[OF d1] seed_range(1)[OF d1] seed_range(2)[OF d1]
  have r0: "150 \<le> cw0 \<and> cw0 \<le> 250" using S by simp
  have r1: "if pt = PStr ''high_risk_weight_gain'' then 5 \<le> wgs \<and> wgs \<le> 20 else wgs = - 1"
    using d2 py_randint_range[of 5 20 g1 wgs g2] by (auto split: if_splits)
  have r2: "if pt = PStr ''non_adherent'' then 5 \<le> nas \<and> nas \<le> 20 else nas = - 1"
    using d3 py_randint_range[of 5 20 g2 nas g3] by (auto split: if_splits)
  have I0: "length (records s0) = 0" "length (daily_weights s0) = 0"
    "length (daily_adherence s0) = 0"
    "current_weight s0 = (if (0::nat) = 0 then cw0 else daily_weights s0 ! (0 - 1))"
    "\<forall>d<0. day_facts base_info pt wgs nas cw0 s0 d" by (simp_all add: s0_def)
  have le: "0 + DAYS_OF_DATA \<le> 30" by (simp add: DAYS_OF_DATA_def)
  from for_days_facts[where base_info = base_info and pt = pt and dd = t and wgs = wgs
      and nas = nas and m = DAYS_OF_DATA and k = 0, OF P I0 S le]
  obtain s where run: "for_days (loop_body base_info t wgs nas) [0..<0 + DAYS_OF_DATA] s0 = Inr s"
    and F: "length (records s) = 0 + DAYS_OF_DATA" "length (daily_weights s) = 0 + DAYS_OF_DATA"
    "length (daily_adherence s) = 0 + DAYS_OF_DATA"
    "\<forall>d<0 + DAYS_OF_DATA. day_facts base_info pt wgs nas cw0 s d" by blast
  have res: "daily_loop base_info g = Inr s" using eq run by simp
  show ?thesis
    apply (rule exI[of _ s], rule exI[of _ cw0], rule exI[of _ wgs], rule exI[of _ nas])
    using res r0 r1 r2 F by (intro conjI) simp_all
qed

lemma series_of_loop:
  "daily_loop base_info g = Inr s \<Longrightarrow>
     generate_daily_time_series base_info g = Inr (records s, rng_state s)"
  by (simp add: generate_daily_time_series_def raising_def)

section \<open>Properties of the daily series\<close>

text \<open>
  The theorems of this section are about \<^verbatim>\<open>generate_daily_time_series\<close> called on any
  base record that has a profile and the ISO rendering of a discharge date, as every base
  record built by \<^verbatim>\<open>generate_all_patient_data\<close> has, and on any state of the generator.
  Each of them also says that the call returns, with \<open>DAYS_OF_DATA\<close> records. (In Python
  the call returns when the 29th day after the discharge date is still a
  \<^verbatim>\<open>datetime\<close>, as it is for the discharge date of every generated base record,
  which lies at least 30 days before a reading of the clock.)
\<close>

text \<open>
  C1, as amended. The field \<open>weight_gain_over_3_days\<close> is the integer 0 on days 0, 1
  and 2. From day 3 on it is the difference between the running weight of that day and the
  running weight of three days before, both taken from the list \<open>daily_weights\<close> before
  rounding, and the difference is then rounded to two digits. The field \<open>weight\<close> is the
  running weight of the day rounded to two digits. The running weights are binary64
  numbers between 135 and 370, so that their float difference is their exact difference.
\<close>

theorem weight_gain_over_3_days_of_running_weight:
  assumes "base_info ''profile_type'' = Some pt"
    and "base_info ''discharge_date'' = Some (PIso t)"
  shows "\<exists>s. daily_loop base_info g = Inr s \<and>
           generate_daily_time_series base_info g = Inr (records s, rng_state s) \<and>
           length (records s) = DAYS_OF_DATA \<and> length (daily_weights s) = DAYS_OF_DATA \<and>
           (\<forall>d<DAYS_OF_DATA.
              (records s ! d) ''weight'' = Some (PFloat (round_float (daily_weights s ! d) 2)) \<and>
              (records s ! d) ''weight_gain_over_3_days'' =
                 Some (if d < 3 then PInt 0
                       else PFloat (round_float
                                      (daily_weights s ! d - daily_weights s ! (d - 3)) 2)))"
proof -
  from daily_loop_facts[where base_info = base_info and g = g, OF assms]
  obtain s cw0 wgs nas where run: "daily_loop base_info g = Inr s"
    and len: "length (records s) = DAYS_OF_DATA" "length (daily_weights s) = DAYS_OF_DATA"
    and F: "\<forall>d<DAYS_OF_DATA. day_facts base_info pt wgs nas cw0 s d"
    by blast
  have day: "(records s ! d) ''weight'' = Some (PFloat (round_float (daily_weights s ! d) 2)) \<and>
              (records s ! d) ''weight_gain_over_3_days'' =
                 Some (if d < 3 then PInt 0
                       else PFloat (round_float
                                      (daily_weights s ! d - daily_weights s ! (d - 3)) 2))"
    if d: "d < DAYS_OF_DATA" for d
  proof -
    have Fd: "day_facts base_info pt wgs nas cw0 s d" using F d by blast
    have "(3 \<le> d) = (\<not> d < 3)" by arith
    then show ?thesis using Fd by (simp add: day_facts_def Let_def)
  qed
  show ?thesis
    apply (rule exI[of _ s])
    using run series_of_loop[OF run] len day by blast
qed

theorem weight_gain_over_3_days_of_running_weight_witness:
  "stable_patient ''profile_type'' = Some (PStr ''stable'') \<and>
   stable_patient ''discharge_date'' = Some (PIso 0) \<and> (5::nat) < DAYS_OF_DATA \<and>
   (\<exists>s. daily_loop stable_patient zeros = Inr s \<and>
        generate_daily_time_series stable_patient zeros = Inr (records s, rng_state s) \<and>
        (records s ! 5) ''weight'' = Some (PFloat (round_float (daily_weights s ! 5) 2)) \<and>
        (records s ! 5) ''weight_gain_over_3_days'' =
           Some (PFloat (round_float (daily_weights s ! 5 - daily_weights s ! 2) 2)))"
proof -
  have h1: "stable_patient ''profile_type'' = Some (PStr ''stable'')" by (simp add: stable_patient_def)
  have h2: "stable_patient ''discharge_date'' = Some (PIso 0)" by (simp add: stable_patient_def)
  have h3: "(5::nat) < DAYS_OF_DATA" by (simp add: DAYS_OF_DATA_def)
  from weight_gain_over_3_days_of_running_weight[where base_info = stable_patient
      and g = zeros, OF h1 h2]
  obtain s where r: "daily_loop stable_patient zeros = Inr s"
      "generate_daily_time_series stable_patient zeros = Inr (records s, rng_state s)"
    and a: "\<forall>d<DAYS_OF_DATA.
              (records s ! d) ''weight'' = Some (PFloat (round_float (daily_weights s ! d) 2)) \<and>
              (records s ! d) ''weight_gain_over_3_days'' =
                 Some (if d < 3 then PInt 0
                       else PFloat (round_float
                                      (daily_weights s ! d - daily_weights s ! (d - 3)) 2))"
    by blast
  from a h3 have "(records s ! 5) ''weight'' = Some (PFloat (round_float (daily_weights s ! 5) 2)) \<and>
      (records s ! 5) ''weight_gain_over_3_days'' =
         Some (if (5::nat) < 3 then PInt 0
               else PFloat (round_float (daily_weights s ! 5 - daily_weights s ! (5 - 3)) 2))"
    by blast
  then have "(records s ! 5) ''weight'' = Some (PFloat (round_float (daily_weights s ! 5) 2)) \<and>
      (records s ! 5) ''weight_gain_over_3_days'' =
         Some (PFloat (round_float (daily_weights s ! 5 - daily_weights s ! 2) 2))"
    by simp
  then show ?thesis using h1 h2 h3 r by blast
qed


section \<open>A run in which the gain is not the difference of the weight fields\<close>

lemma py_randint_stl: "snd (py_randint a b g) = stl g"
  by (simp add: py_randint_def randbelow_def)

lemma py_uniform_stl: "snd (py_uniform a b g) = stl g"
  by (simp add: py_uniform_def py_random_def)

lemma loop_body_stable:
  assumes P: "base_info ''profile_type'' = Some (PStr ''stable'')"
    and L1: "length (daily_weights s) = day" and L2: "length (daily_adherence s) = day"
  shows "\<exists>r. loop_body base_info dd wgs nas day s =
           Inr \<lparr>records = records s @ [r],
                daily_weights = daily_weights s @
                  [fadd (current_weight s) (fst (py_uniform (- (1 / 2)) (1 / 2) (rng_state s)))],
                daily_adherence = daily_adherence s @ [True],
                current_weight =
                  fadd (current_weight s) (fst (py_uniform (- (1 / 2)) (1 / 2) (rng_state s))),
                rng_state = stl (stl (stl (stl (stl (stl (stl (stl (rng_state s))))))))\<rparr>"
proof -
  define g1 where "g1 = stl (rng_state s)"
  define g2 where "g2 = stl g1"
  define g3 where "g3 = stl g2"
  define g4 where "g4 = stl g3"
  define g9 where "g9 = stl g4"
  define g10 where "g10 = stl g9"
  define g11 where "g11 = stl g10"
  define g12 where "g12 = stl g11"
  define jitter where "jitter = fst (py_uniform (- (1 / 2)) (1 / 2) (rng_state s))"
  have d1: "py_uniform (- (1 / 2)) (1 / 2) (rng_state s) = (jitter, g1)"
    by (simp add: jitter_def g1_def prod_eq_iff py_uniform_stl)
  have d2: "py_randint 1 3 g1 = (fst (py_randint 1 3 g1), g2)"
    by (simp add: g2_def prod_eq_iff py_randint_stl)
  have d3: "py_randint 1 4 g2 = (fst (py_randint 1 4 g2), g3)"
    by (simp add: g3_def prod_eq_iff py_randint_stl)
  have d4: "py_randint 1 3 g3 = (fst (py_randint 1 3 g3), g4)"
    by (simp add: g4_def prod_eq_iff py_randint_stl)
  obtain gain g5 where d5: "py_uniform 1 (5 / 2) g4 = (gain, g5)" by (cases "py_uniform 1 (5 / 2) g4")
  obtain breath' g6 where d6: "py_randint 4 8 g5 = (breath', g6)" by (cases "py_randint 4 8 g5")
  obtain swelling' g7' where d7: "py_randint 4 8 g6 = (swelling', g7')" by (cases "py_randint 4 8 g6")
  have wga: "False = (PStr ''stable'' = PStr ''high_risk_weight_gain'' \<and> wgs \<le> int day)" by simp
  have g7: "g4 = (if False then g7' else g4)" by simp
  obtain fatigue' g8' where d8: "py_randint 5 9 g4 = (fatigue', g8')" by (cases "py_randint 5 9 g4")
  have naa: "False = (PStr ''stable'' = PStr ''non_adherent'' \<and> nas \<le> int day)" by simp
  have g8: "g4 = (if False then g8' else g4)" by simp
  have d9: "py_randint 110 160 g4 = (fst (py_randint 110 160 g4), g9)"
    by (simp add: g9_def prod_eq_iff py_randint_stl)
  have d10: "py_randint 70 100 g9 = (fst (py_randint 70 100 g9), g10)"
    by (simp add: g10_def prod_eq_iff py_randint_stl)
  have d11: "py_randint 60 100 g10 = (fst (py_randint 60 100 g10), g11)"
    by (simp add: g11_def prod_eq_iff py_randint_stl)
  have d12: "py_uniform 92 99 g11 = (fst (py_uniform 92 99 g11), g12)"
    by (simp add: g12_def prod_eq_iff py_uniform_stl)
  have cw: "fadd (current_weight s) jitter =
      (if False then fadd (fadd (current_weight s) jitter) gain
       else fadd (current_weight s) jitter)"
    by simp
  note ex = loop_body_explicit[where base_info = base_info and pt = "PStr ''stable''"
      and dd = dd and wgs = wgs and nas = nas,
      OF P L1 L2 d1 d2 d3 d4 d5 d6 d7 wga g7 d8 naa g8 d9 d10 d11 d12 cw]
  have g: "g12 = stl (stl (stl (stl (stl (stl (stl (stl (rng_state s))))))))"
    by (simp add: g12_def g11_def g10_def g9_def g4_def g3_def g2_def g1_def)
  show ?thesis unfolding ex g[symmetric] jitter_def[symmetric] by simp
qed

lemma day_draws_stl:
  "stl (stl (stl (stl (stl (stl (stl (stl (day_draws j rest)))))))) = rest"
  by (simp add: day_draws_def)

lemma day_draws_jitter:
  "fst (py_uniform (- (1 / 2)) (1 / 2) (day_draws j rest)) = real (j mod 2 ^ 53) / 2 ^ 53 - 1 / 2"
  by (simp add: py_uniform_jitter day_draws_def)

text \<open>The binary64 numbers of the run.\<close>

lemma counter_doubles:
  "fl 50 = 50" "fl 200 = 200" "fl (51201 / 256) = 51201 / 256"
  "fl (102403 / 512) = 102403 / 512"
  using fl_dyadic[of 50 0] fl_dyadic[of 200 0] fl_dyadic[of 51201 8] fl_dyadic[of 102403 9]
  by simp_all

lemma counter_seed:
  "py_uniform 150 250 counter_rng =
     (200, day_draws 4538783999459328
             (day_draws 4503599627370496
                (day_draws 4503599627370496
                   (day_draws 4521191813414912 (sconst 0)))))"
  by (simp add: py_uniform_def py_random_def counter_rng_def fadd_def fmul_def fsub_def
      fl_consts counter_doubles)

lemma upt_4: "[0..<4] = [0, 1, 2, 3::nat]"
  by (simp add: numeral_eq_Suc)

lemma counter_first_days:
  "\<exists>s4. for_days (loop_body stable_patient 0 (- 1) (- 1)) [0..<4]
           \<lparr>records = [], daily_weights = [], daily_adherence = [],
            current_weight = 200,
            rng_state = day_draws 4538783999459328
             (day_draws 4503599627370496
                (day_draws 4503599627370496
                   (day_draws 4521191813414912 (sconst 0))))\<rparr> = Inr s4 \<and>
         daily_weights s4 = [51201 / 256, 51201 / 256, 51201 / 256, 102403 / 512]"
proof -
  have P: "stable_patient ''profile_type'' = Some (PStr ''stable'')"
    by (simp add: stable_patient_def)
  define G3 where "G3 = day_draws 4521191813414912 (sconst 0)"
  define G2 where "G2 = day_draws 4503599627370496 G3"
  define G1 where "G1 = day_draws 4503599627370496 G2"
  define G0 where "G0 = day_draws 4538783999459328 G1"
  define S0 where "S0 = \<lparr>records = [], daily_weights = [], daily_adherence = [],
            current_weight = 200, rng_state = G0\<rparr>"
  from loop_body_stable[where base_info = stable_patient and s = S0 and day = 0
      and dd = 0 and wgs = "- 1" and nas = "- 1", OF P]
  obtain r0 where e0: "loop_body stable_patient 0 (- 1) (- 1) 0 S0 =
      Inr \<lparr>records = [r0], daily_weights = [51201 / 256], daily_adherence = [True],
           current_weight = 51201 / 256, rng_state = G1\<rparr>"
    by (auto simp: S0_def G0_def day_draws_stl day_draws_jitter fadd_def counter_doubles)
  define S1 where "S1 = \<lparr>records = [r0], daily_weights = [51201 / 256],
      daily_adherence = [True], current_weight = 51201 / 256, rng_state = G1\<rparr>"
  from loop_body_stable[where base_info = stable_patient and s = S1 and day = 1
      and dd = 0 and wgs = "- 1" and nas = "- 1", OF P]
  obtain r1 where e1: "loop_body stable_patient 0 (- 1) (- 1) 1 S1 =
      Inr \<lparr>records = [r0, r1], daily_weights = [51201 / 256, 51201 / 256],
           daily_adherence = [True, True],
           current_weight = 51201 / 256, rng_state = G2\<rparr>"
    by (auto simp: S1_def G1_def day_draws_stl day_draws_jitter fadd_def counter_doubles)
  define S2 where "S2 = \<lparr>records = [r0, r1], daily_weights = [51201 / 256, 51201 / 256],
      daily_adherence = [True, True], current_weight = 51201 / 256, rng_state = G2\<rparr>"
  from loop_body_stable[where base_info = stable_patient and s = S2 and day = 2
      and dd = 0 and wgs = "- 1" and nas = "- 1", OF P]
  obtain r2 where e2: "loop_body stable_patient 0 (- 1) (- 1) 2 S2 =
      Inr \<lparr>records = [r0, r1, r2],
           daily_weights = [51201 / 256, 51201 / 256, 51201 / 256],
           daily_adherence = [True, True, True],
           current_weight = 51201 / 256, rng_state = G3\<rparr>"
    by (auto simp: S2_def G2_def day_draws_stl day_draws_jitter fadd_def counter_doubles)
  define S3 where "S3 = \<lparr>records = [r0, r1, r2],
      daily_weights = [51201 / 256, 51201 / 256, 51201 / 256],
      daily_adherence = [True, True, True], current_weight = 51201 / 256,
      rng_state = G3\<rparr>"
  from loop_body_stable[where base_info = stable_patient and s = S3 and day = 3
      and dd = 0 and wgs = "- 1" and nas = "- 1", OF P]
  obtain r3 where e3: "loop_body stable_patient 0 (- 1) (- 1) 3 S3 =
      Inr \<lparr>records = [r0, r1, r2, r3],
           daily_weights = [51201 / 256, 51201 / 256, 51201 / 256, 102403 / 512],
           daily_adherence = [True, True, True, True],
           current_weight = 102403 / 512, rng_state = sconst 0\<rparr>"
    by (auto simp: S3_def G3_def day_draws_stl day_draws_jitter fadd_def counter_doubles)
  have "for_days (loop_body stable_patient 0 (- 1) (- 1)) [0..<4] S0 =
      Inr \<lparr>records = [r0, r1, r2, r3],
           daily_weights = [51201 / 256, 51201 / 256, 51201 / 256, 102403 / 512],
           daily_adherence = [True, True, True, True],
           current_weight = 102403 / 512, rng_state = sconst 0\<rparr>"
    unfolding upt_4
    by (simp add: e0 e1[unfolded S1_def] e2[unfolded S2_def] e3[unfolded S3_def] raising_Inr
        del: One_nat_def)
  then show ?thesis unfolding S0_def G0_def G1_def G2_def G3_def by simp
qed

text \<open>The binary64 number nearest to 200.01.\<close>

lemma nearest_200_01: "fl (20001 / 100) = 879653282685911 / 4398046511104"
  using fl_eval7[of "20001 / 100"] by (simp add: round_half_even_def Let_def)

lemma counter_roundings:
  "round_float (102403 / 512) 2 = 879653282685911 / 4398046511104"
  "round_float (51201 / 256) 2 = 200"
  "round_float (1 / 512) 2 = 0"
  by (simp_all add: round_float_def round_half_even_def Let_def nearest_200_01
      counter_doubles fl_0)

lemma counter_run:
  "\<exists>s. daily_loop stable_patient counter_rng = Inr s \<and>
       take 4 (daily_weights s) = [51201 / 256, 51201 / 256, 51201 / 256, 102403 / 512] \<and>
       length (records s) = 30 \<and> length (daily_weights s) = 30 \<and>
       (\<forall>d<30. day_facts stable_patient (PStr ''stable'') (- 1) (- 1) 200 s d)"
proof -
  have P: "stable_patient ''profile_type'' = Some (PStr ''stable'')"
    by (simp add: stable_patient_def)
  define S0 where "S0 = \<lparr>records = [], daily_weights = [], daily_adherence = [],
            current_weight = 200,
            rng_state = day_draws 4538783999459328
             (day_draws 4503599627370496
                (day_draws 4503599627370496
                   (day_draws 4521191813414912 (sconst 0))))\<rparr>"
  have eq: "daily_loop stable_patient counter_rng =
      for_days (loop_body stable_patient 0 (- 1) (- 1)) [0..<30] S0"
    by (simp add: daily_loop_def counter_seed getitem_def stable_patient_def raising_def
        DAYS_OF_DATA_def S0_def)
  from counter_first_days
  obtain s4 where run4: "for_days (loop_body stable_patient 0 (- 1) (- 1)) [0..<4] S0 = Inr s4"
    and dw4: "daily_weights s4 = [51201 / 256, 51201 / 256, 51201 / 256, 102403 / 512]"
    unfolding S0_def by blast
  have I0: "length (records S0) = 0" "length (daily_weights S0) = 0"
    "length (daily_adherence S0) = 0"
    "current_weight S0 = (if (0::nat) = 0 then 200 else daily_weights S0 ! (0 - 1))"
    "\<forall>d<0. day_facts stable_patient (PStr ''stable'') (- 1) (- 1) 200 S0 d"
    by (simp_all add: S0_def)
  have S: "fl 200 = 200" "(150::real) \<le> 200" "(200::real) \<le> 250"
    by (simp_all add: counter_doubles)
  have le4: "(0::nat) + 4 \<le> 30" and le26: "(4::nat) + 26 \<le> 30" by simp_all
  from for_days_facts[where base_info = stable_patient and pt = "PStr ''stable''" and dd = 0
      and wgs = "- 1" and nas = "- 1" and m = 4 and k = 0 and ?s0.0 = S0 and ?cw0.0 = 200,
      OF P I0 S le4]
  have I4: "length (records s4) = 4" "length (daily_weights s4) = 4"
    "length (daily_adherence s4) = 4"
    "current_weight s4 = (if (4::nat) = 0 then 200 else daily_weights s4 ! (4 - 1))"
    "\<forall>d<4. day_facts stable_patient (PStr ''stable'') (- 1) (- 1) 200 s4 d"
    using run4 by auto
  from for_days_facts[where base_info = stable_patient and pt = "PStr ''stable''" and dd = 0
      and wgs = "- 1" and nas = "- 1" and m = 26 and k = 4 and ?s0.0 = s4 and ?cw0.0 = 200,
      OF P I4 S le26]
  obtain s where run: "for_days (loop_body stable_patient 0 (- 1) (- 1)) [4..<4 + 26] s4 = Inr s"
    and L: "length (records s) = 4 + 26" "length (daily_weights s) = 4 + 26"
    and F: "\<forall>d<4 + 26. day_facts stable_patient (PStr ''stable'') (- 1) (- 1) 200 s d"
    and T: "take 4 (daily_weights s) = daily_weights s4"
    by blast
  have split: "[0..<30] = [0..<4] @ [4..<4 + 26]"
    using upt_add_eq_append[of 0 4 26] by simp
  have "daily_loop stable_patient counter_rng = Inr s"
    unfolding eq split for_days_append run4 raising_Inr by (rule run)
  then show ?thesis using T dw4 L F by auto
qed

lemma counter_input_is_generated:
  "base_patient_info counter_world =
     Inr (stable_patient,
          \<lparr>random_state = counter_rng, faker_state = zeros, clock = sconst 2592000000000\<rparr>)"
  by (simp add: base_patient_info_def counter_world_def zeros_def uuid4_def
      choose_profile_stable py_randint_def randbelow_def
      py_choice_def py_sample_def COMORBIDITIES_def raising_def timedelta_days_def
      stable_patient_def Let_def)

text \<open>
  C1, as the claim states it, fails. The loop body of \<^verbatim>\<open>generate_all_patient_data\<close>
  builds the stable patient in \<open>counter_world\<close> and leaves the generator \<open>counter_rng\<close>
  to \<^verbatim>\<open>generate_daily_time_series\<close>. There the running weight is 200.00390625 on day 0 and 200.005859375 on day 3,
  both binary64 numbers. The record of day 0 has \<open>weight\<close> 200.0, the record of day 3
  has \<open>weight\<close> 200.01, that is the binary64 number 879653282685911 / 4398046511104
  nearest to it, and the record of day 3 has \<open>weight_gain_over_3_days\<close> 0.0, the
  rounding of 0.001953125, which is not the float difference 0.009999999999990905 of the
  two \<open>weight\<close> fields.
\<close>

theorem gain_is_not_difference_of_weight_fields:
  "base_patient_info counter_world =
     Inr (stable_patient,
          \<lparr>random_state = counter_rng, faker_state = zeros, clock = sconst 2592000000000\<rparr>) \<and>
   series_field stable_patient counter_rng 3 ''weight_gain_over_3_days'' = Some (PFloat 0) \<and>
   series_field stable_patient counter_rng 3 ''weight'' =
     Some (PFloat (879653282685911 / 4398046511104)) \<and>
   series_field stable_patient counter_rng 0 ''weight'' = Some (PFloat 200) \<and>
   fsub (879653282685911 / 4398046511104) 200 = 43980465111 / 4398046511104 \<and>
   (0::real) \<noteq> 43980465111 / 4398046511104"
proof -
  from counter_run obtain s where run: "daily_loop stable_patient counter_rng = Inr s"
    and T: "take 4 (daily_weights s) = [51201 / 256, 51201 / 256, 51201 / 256, 102403 / 512]"
    and F: "\<forall>d<30. day_facts stable_patient (PStr ''stable'') (- 1) (- 1) 200 s d"
    by blast
  have w3: "daily_weights s ! 3 = 102403 / 512"
    using arg_cong[OF T, of "\<lambda>xs. xs ! 3"] by simp
  have w0: "daily_weights s ! 0 = 51201 / 256"
    using arg_cong[OF T, of "\<lambda>xs. xs ! 0"] by simp
  have F3: "day_facts stable_patient (PStr ''stable'') (- 1) (- 1) 200 s 3" using F by simp
  have F0: "day_facts stable_patient (PStr ''stable'') (- 1) (- 1) 200 s 0" using F by simp
  have a: "(records s ! 3) ''weight_gain_over_3_days'' = Some (PFloat 0)"
    using F3 by (simp add: day_facts_def Let_def w3 w0 counter_roundings)
  have b: "(records s ! 3) ''weight'' = Some (PFloat (879653282685911 / 4398046511104))"
    using F3 by (simp add: day_facts_def Let_def w3 counter_roundings)
  have c: "(records s ! 0) ''weight'' = Some (PFloat 200)"
    using F0 by (simp add: day_facts_def Let_def w0 counter_roundings)
  have g: "generate_daily_time_series stable_patient counter_rng = Inr (records s, rng_state s)"
    by (rule series_of_loop[OF run])
  have d: "fsub (879653282685911 / 4398046511104) 200 = 43980465111 / 4398046511104"
    using fl_dyadic[of 43980465111 42] by (simp add: fsub_def)
  show ?thesis by (simp add: counter_input_is_generated series_field_def g a b c d)
qed

section \<open>A run in which an active day adds less than one half\<close>

lemma loop_body_weight_gain:
  assumes P: "base_info ''profile_type'' = Some (PStr ''high_risk_weight_gain'')"
    and L1: "length (daily_weights s) = day" and L2: "length (daily_adherence s) = day"
  shows "\<exists>r. loop_body base_info dd wgs nas day s =
           Inr \<lparr>records = records s @ [r],
                daily_weights = daily_weights s @
                  [if wgs \<le> int day
                   then fadd (fadd (current_weight s)
                                (fst (py_uniform (- (1 / 2)) (1 / 2) (rng_state s))))
                          (fst (py_uniform 1 (5 / 2) (stl (stl (stl (stl (rng_state s)))))))
                   else fadd (current_weight s)
                          (fst (py_uniform (- (1 / 2)) (1 / 2) (rng_state s)))],
                daily_adherence = daily_adherence s @ [True],
                current_weight =
                  (if wgs \<le> int day
                   then fadd (fadd (current_weight s)
                                (fst (py_uniform (- (1 / 2)) (1 / 2) (rng_state s))))
                          (fst (py_uniform 1 (5 / 2) (stl (stl (stl (stl (rng_state s)))))))
                   else fadd (current_weight s)
                          (fst (py_uniform (- (1 / 2)) (1 / 2) (rng_state s)))),
                rng_state =
                  (if wgs \<le> int day
                   then stl (stl (stl (stl (stl (stl (stl (stl (stl (stl (stl
                          (rng_state s)))))))))))
                   else stl (stl (stl (stl (stl (stl (stl (stl (rng_state s)))))))))\<rparr>"
proof -
  define wga where "wga = (wgs \<le> int day)"
  define g1 where "g1 = stl (rng_state s)"
  define g2 where "g2 = stl g1"
  define g3 where "g3 = stl g2"
  define g4 where "g4 = stl g3"
  define g5 where "g5 = stl g4"
  define g6 where "g6 = stl g5"
  define g7' where "g7' = stl g6"
  define g7 where "g7 = (if wga then g7' else g4)"
  define g9 where "g9 = stl g7"
  define g10 where "g10 = stl g9"
  define g11 where "g11 = stl g10"
  define g12 where "g12 = stl g11"
  define jitter where "jitter = fst (py_uniform (- (1 / 2)) (1 / 2) (rng_state s))"
  define gain where "gain = fst (py_uniform 1 (5 / 2) g4)"
  define cw where "cw = (if wga then fadd (fadd (current_weight s) jitter) gain
                         else fadd (current_weight s) jitter)"
  have d1: "py_uniform (- (1 / 2)) (1 / 2) (rng_state s) = (jitter, g1)"
    by (simp add: jitter_def g1_def prod_eq_iff py_uniform_stl)
  have d2: "py_randint 1 3 g1 = (fst (py_randint 1 3 g1), g2)"
    by (simp add: g2_def prod_eq_iff py_randint_stl)
  have d3: "py_randint 1 4 g2 = (fst (py_randint 1 4 g2), g3)"
    by (simp add: g3_def prod_eq_iff py_randint_stl)
  have d4: "py_randint 1 3 g3 = (fst (py_randint 1 3 g3), g4)"
    by (simp add: g4_def prod_eq_iff py_randint_stl)
  have d5: "py_uniform 1 (5 / 2) g4 = (gain, g5)"
    by (simp add: gain_def g5_def prod_eq_iff py_uniform_stl)
  have d6: "py_randint 4 8 g5 = (fst (py_randint 4 8 g5), g6)"
    by (simp add: g6_def prod_eq_iff py_randint_stl)
  have d7: "py_randint 4 8 g6 = (fst (py_randint 4 8 g6), g7')"
    by (simp add: g7'_def prod_eq_iff py_randint_stl)
  have wga: "wga = (PStr ''high_risk_weight_gain'' = PStr ''high_risk_weight_gain'' \<and>
      wgs \<le> int day)"
    by (simp add: wga_def)
  obtain fatigue' g8' where d8: "py_randint 5 9 g7 = (fatigue', g8')" by (cases "py_randint 5 9 g7")
  have naa: "False = (PStr ''high_risk_weight_gain'' = PStr ''non_adherent'' \<and> nas \<le> int day)"
    by simp
  have g8: "g7 = (if False then g8' else g7)" by simp
  have d9: "py_randint 110 160 g7 = (fst (py_randint 110 160 g7), g9)"
    by (simp add: g9_def prod_eq_iff py_randint_stl)
  have d10: "py_randint 70 100 g9 = (fst (py_randint 70 100 g9), g10)"
    by (simp add: g10_def prod_eq_iff py_randint_stl)
  have d11: "py_randint 60 100 g10 = (fst (py_randint 60 100 g10), g11)"
    by (simp add: g11_def prod_eq_iff py_randint_stl)
  have d12: "py_uniform 92 99 g11 = (fst (py_uniform 92 99 g11), g12)"
    by (simp add: g12_def prod_eq_iff py_uniform_stl)
  note ex = loop_body_explicit[where base_info = base_info
      and pt = "PStr ''high_risk_weight_gain''" and dd = dd and wgs = wgs and nas = nas,
      OF P L1 L2 d1 d2 d3 d4 d5 d6 d7 wga g7_def d8 naa g8 d9 d10 d11 d12 cw_def]
  have g: "g12 = (if wga
      then stl (stl (stl (stl (stl (stl (stl (stl (stl (stl (stl (rng_state s)))))))))))
      else stl (stl (stl (stl (stl (stl (stl (stl (rng_state s)))))))))"
    by (simp add: g12_def g11_def g10_def g9_def g7_def g7'_def g6_def g5_def g4_def g3_def
        g2_def g1_def)
  have c: "cw = (if wga
      then fadd (fadd (current_weight s) (fst (py_uniform (- (1 / 2)) (1 / 2) (rng_state s))))
             (fst (py_uniform 1 (5 / 2) (stl (stl (stl (stl (rng_state s)))))))
      else fadd (current_weight s) (fst (py_uniform (- (1 / 2)) (1 / 2) (rng_state s))))"
    by (simp add: cw_def jitter_def gain_def g4_def g3_def g2_def g1_def)
  show ?thesis unfolding ex g c wga_def by simp
qed

lemma gain_draws_stl:
  "stl (stl (stl (stl (stl (stl (stl (stl (stl (stl (stl (gain_draws j gn rest)))))))))))
     = rest"
  by (simp add: gain_draws_def)

lemma gain_draws_jitter:
  "fst (py_uniform (- (1 / 2)) (1 / 2) (gain_draws j gn rest)) =
     real (j mod 2 ^ 53) / 2 ^ 53 - 1 / 2"
  by (simp add: py_uniform_jitter gain_draws_def)

lemma gain_draws_gain:
  "fst (py_uniform 1 (5 / 2) (stl (stl (stl (stl (gain_draws j gn rest)))))) =
     fadd 1 (fmul (3 / 2) (real (gn mod 2 ^ 53) / 2 ^ 53))"
  by (simp add: py_uniform_def py_random_def gain_draws_def fsub_def fl_consts)

text \<open>The binary64 numbers of the run, and the sum that is rounded: \<open>256 + 2^-45\<close> is
  half way between the binary64 numbers 256 and \<open>256 + 2^-44\<close>, and 256 has the even
  significand.\<close>

lemma rounding_doubles:
  "fl (6375 / 64) = 6375 / 64" "fl (15975 / 64) = 15975 / 64"
  "fl (21 / 16) = 21 / 16" "fl (37 / 16) = 37 / 16"
  "fl (8796093022208001 / 35184372088832) = 8796093022208001 / 35184372088832"
  "fl (8811486184996865 / 35184372088832) = 8811486184996865 / 35184372088832"
  "fl (8892850045452289 / 35184372088832) = 8892850045452289 / 35184372088832"
  "fl (8908243208241153 / 35184372088832) = 8908243208241153 / 35184372088832"
  "fl (8989607068696577 / 35184372088832) = 8989607068696577 / 35184372088832"
  "fl (8972014882652161 / 35184372088832) = 8972014882652161 / 35184372088832"
  using fl_dyadic[of 6375 6] fl_dyadic[of 15975 6] fl_dyadic[of 21 4] fl_dyadic[of 37 4]
    fl_dyadic[of 8796093022208001 45] fl_dyadic[of 8811486184996865 45] fl_dyadic[of 8892850045452289 45]
    fl_dyadic[of 8908243208241153 45] fl_dyadic[of 8989607068696577 45] fl_dyadic[of 8972014882652161 45]
  by simp_all

lemma rounding_tie: "fl (9007199254740993 / 35184372088832) = 256"
  using fl_eval8[of "9007199254740993 / 35184372088832"] by (simp add: round_half_even_def Let_def)

lemma rounding_seed:
  "py_uniform 150 250 rounding_rng =
     (15975 / 64,
      [0] @- day_draws 8022036836253952
          (day_draws 4503599627370496
             (day_draws 4503599627370496
                (day_draws 4503599627370496
                   (day_draws 4503599627370496
                      (gain_draws 8444249301319680 7881299347898368
                         (gain_draws 8444249301319680 7881299347898368
                            (gain_draws 0 0 (sconst 0)))))))))"
  by (simp add: py_uniform_def py_random_def rounding_rng_def fadd_def fmul_def fsub_def
      fl_consts rounding_doubles)

lemma upt_8: "[0..<8] = [0, 1, 2, 3, 4, 5, 6, 7::nat]"
  by (simp add: numeral_eq_Suc)
lemma rounding_first_days:
  "\<exists>s8. for_days (loop_body weight_gain_patient 0 5 (- 1)) [0..<8]
           \<lparr>records = [], daily_weights = [], daily_adherence = [],
            current_weight = 15975 / 64,
            rng_state = day_draws 8022036836253952
             (day_draws 4503599627370496
                (day_draws 4503599627370496
                   (day_draws 4503599627370496
                      (day_draws 4503599627370496
                         (gain_draws 8444249301319680 7881299347898368
                            (gain_draws 8444249301319680 7881299347898368
                               (gain_draws 0 0 (sconst 0))))))))\<rparr> = Inr s8 \<and>
         daily_weights s8 = [8796093022208001 / 35184372088832, 8796093022208001 / 35184372088832, 8796093022208001 / 35184372088832, 8796093022208001 / 35184372088832, 8796093022208001 / 35184372088832, 8892850045452289 / 35184372088832, 8989607068696577 / 35184372088832, 256]"
proof -
  have P: "weight_gain_patient ''profile_type'' = Some (PStr ''high_risk_weight_gain'')"
    by (simp add: weight_gain_patient_def)
  define G7 where "G7 = gain_draws 0 0 (sconst 0)"
  define G6 where "G6 = gain_draws 8444249301319680 7881299347898368 G7"
  define G5 where "G5 = gain_draws 8444249301319680 7881299347898368 G6"
  define G4 where "G4 = day_draws 4503599627370496 G5"
  define G3 where "G3 = day_draws 4503599627370496 G4"
  define G2 where "G2 = day_draws 4503599627370496 G3"
  define G1 where "G1 = day_draws 4503599627370496 G2"
  define G0 where "G0 = day_draws 8022036836253952 G1"
  define S0 where "S0 = \<lparr>records = [], daily_weights = [],
           daily_adherence = [],
           current_weight = 15975 / 64, rng_state = G0\<rparr>"
  from loop_body_weight_gain[where base_info = weight_gain_patient and s = S0 and day = 0
      and dd = 0 and wgs = 5 and nas = "- 1", OF P]
  obtain r0 where e0: "loop_body weight_gain_patient 0 5 (- 1) 0 S0 =
      Inr \<lparr>records = [r0], daily_weights = [8796093022208001 / 35184372088832],
                daily_adherence = [True],
                current_weight = 8796093022208001 / 35184372088832, rng_state = G1\<rparr>"
    by (auto simp: S0_def G0_def day_draws_stl day_draws_jitter gain_draws_stl
        gain_draws_jitter gain_draws_gain fadd_def fmul_def fl_0 fl_consts rounding_doubles
        rounding_tie)
  define S1 where "S1 = \<lparr>records = [r0], daily_weights = [8796093022208001 / 35184372088832],
           daily_adherence = [True],
           current_weight = 8796093022208001 / 35184372088832, rng_state = G1\<rparr>"
  from loop_body_weight_gain[where base_info = weight_gain_patient and s = S1 and day = 1
      and dd = 0 and wgs = 5 and nas = "- 1", OF P]
  obtain r1 where e1: "loop_body weight_gain_patient 0 5 (- 1) 1 S1 =
      Inr \<lparr>records = [r0, r1], daily_weights = [8796093022208001 / 35184372088832, 8796093022208001 / 35184372088832],
                daily_adherence = [True, True],
                current_weight = 8796093022208001 / 35184372088832, rng_state = G2\<rparr>"
    by (auto simp: S1_def G1_def day_draws_stl day_draws_jitter gain_draws_stl
        gain_draws_jitter gain_draws_gain fadd_def fmul_def fl_0 fl_consts rounding_doubles
        rounding_tie)
  define S2 where "S2 = \<lparr>records = [r0, r1], daily_weights = [8796093022208001 / 35184372088832, 8796093022208001 / 35184372088832],
           daily_adherence = [True, True],
           current_weight = 8796093022208001 / 35184372088832, rng_state = G2\<rparr>"
  from loop_body_weight_gain[where base_info = weight_gain_patient and s = S2 and day = 2
      and dd = 0 and wgs = 5 and nas = "- 1", OF P]
  obtain r2 where e2: "loop_body weight_gain_patient 0 5 (- 1) 2 S2 =
      Inr \<lparr>records = [r0, r1, r2], daily_weights = [8796093022208001 / 35184372088832, 8796093022208001 / 35184372088832, 8796093022208001 / 35184372088832],
                daily_adherence = [True, True, True],
                current_weight = 8796093022208001 / 35184372088832, rng_state = G3\<rparr>"
    by (auto simp: S2_def G2_def day_draws_stl day_draws_jitter gain_draws_stl
        gain_draws_jitter gain_draws_gain fadd_def fmul_def fl_0 fl_consts rounding_doubles
        rounding_tie)
  define S3 where "S3 = \<lparr>records = [r0, r1, r2], daily_weights = [8796093022208001 / 35184372088832, 8796093022208001 / 35184372088832, 8796093022208001 / 35184372088832],
           daily_adherence = [True, True, True],
           current_weight = 8796093022208001 / 35184372088832, rng_state = G3\<rparr>"
  from loop_body_weight_gain[where base_info = weight_gain_patient and s = S3 and day = 3
      and dd = 0 and wgs = 5 and nas = "- 1", OF P]
  obtain r3 where e3: "loop_body weight_gain_patient 0 5 (- 1) 3 S3 =
      Inr \<lparr>records = [r0, r1, r2, r3], daily_weights = [8796093022208001 / 35184372088832, 8796093022208001 / 35184372088832, 8796093022208001 / 35184372088832, 8796093022208001 / 35184372088832],
                daily_adherence = [True, True, True, True],
                current_weight = 8796093022208001 / 35184372088832, rng_state = G4\<rparr>"
    by (auto simp: S3_def G3_def day_draws_stl day_draws_jitter gain_draws_stl
        gain_draws_jitter gain_draws_gain fadd_def fmul_def fl_0 fl_consts rounding_doubles
        rounding_tie)
  define S4 where "S4 = \<lparr>records = [r0, r1, r2, r3], daily_weights = [8796093022208001 / 35184372088832, 8796093022208001 / 35184372088832, 8796093022208001 / 35184372088832, 8796093022208001 / 35184372088832],
           daily_adherence = [True, True, True, True],
           current_weight = 8796093022208001 / 35184372088832, rng_state = G4\<rparr>"
  from loop_body_weight_gain[where base_info = weight_gain_patient and s = S4 and day = 4
      and dd = 0 and wgs = 5 and nas = "- 1", OF P]
  obtain r4 where e4: "loop_body weight_gain_patient 0 5 (- 1) 4 S4 =
      Inr \<lparr>records = [r0, r1, r2, r3, r4], daily_weights = [8796093022208001 / 35184372088832, 8796093022208001 / 35184372088832, 8796093022208001 / 35184372088832, 8796093022208001 / 35184372088832, 8796093022208001 / 35184372088832],
                daily_adherence = [True, True, True, True, True],
                current_weight = 8796093022208001 / 35184372088832, rng_state = G5\<rparr>"
    by (auto simp: S4_def G4_def day_draws_stl day_draws_jitter gain_draws_stl
        gain_draws_jitter gain_draws_gain fadd_def fmul_def fl_0 fl_consts rounding_doubles
        rounding_tie)
  define S5 where "S5 = \<lparr>records = [r0, r1, r2, r3, r4], daily_weights = [8796093022208001 / 35184372088832, 8796093022208001 / 35184372088832, 8796093022208001 / 35184372088832, 8796093022208001 / 35184372088832, 8796093022208001 / 35184372088832],
           daily_adherence = [True, True, True, True, True],
           current_weight = 8796093022208001 / 35184372088832, rng_state = G5\<rparr>"
  from loop_body_weight_gain[where base_info = weight_gain_patient and s = S5 and day = 5
      and dd = 0 and wgs = 5 and nas = "- 1", OF P]
  obtain r5 where e5: "loop_body weight_gain_patient 0 5 (- 1) 5 S5 =
      Inr \<lparr>records = [r0, r1, r2, r3, r4, r5], daily_weights = [8796093022208001 / 35184372088832, 8796093022208001 / 35184372088832, 8796093022208001 / 35184372088832, 8796093022208001 / 35184372088832, 8796093022208001 / 35184372088832, 8892850045452289 / 35184372088832],
                daily_adherence = [True, True, True, True, True, True],
                current_weight = 8892850045452289 / 35184372088832, rng_state = G6\<rparr>"
    by (auto simp: S5_def G5_def day_draws_stl day_draws_jitter gain_draws_stl
        gain_draws_jitter gain_draws_gain fadd_def fmul_def fl_0 fl_consts rounding_doubles
        rounding_tie)
  define S6 where "S6 = \<lparr>records = [r0, r1, r2, r3, r4, r5], daily_weights = [8796093022208001 / 35184372088832, 8796093022208001 / 35184372088832, 8796093022208001 / 35184372088832, 8796093022208001 / 35184372088832, 8796093022208001 / 35184372088832, 8892850045452289 / 35184372088832],
           daily_adherence = [True, True, True, True, True, True],
           current_weight = 8892850045452289 / 35184372088832, rng_state = G6\<rparr>"
  from loop_body_weight_gain[where base_info = weight_gain_patient and s = S6 and day = 6
      and dd = 0 and wgs = 5 and nas = "- 1", OF P]
  obtain r6 where e6: "loop_body weight_gain_patient 0 5 (- 1) 6 S6 =
      Inr \<lparr>records = [r0, r1, r2, r3, r4, r5, r6], daily_weights = [8796093022208001 / 35184372088832, 8796093022208001 / 35184372088832, 8796093022208001 / 35184372088832, 8796093022208001 / 35184372088832, 8796093022208001 / 35184372088832, 8892850045452289 / 35184372088832, 8989607068696577 / 35184372088832],
                daily_adherence = [True, True, True, True, True, True, True],
                current_weight = 8989607068696577 / 35184372088832, rng_state = G7\<rparr>"
    by (auto simp: S6_def G6_def day_draws_stl day_draws_jitter gain_draws_stl
        gain_draws_jitter gain_draws_gain fadd_def fmul_def fl_0 fl_consts rounding_doubles
        rounding_tie)
  define S7 where "S7 = \<lparr>records = [r0, r1, r2, r3, r4, r5, r6], daily_weights = [8796093022208001 / 35184372088832, 8796093022208001 / 35184372088832, 8796093022208001 / 35184372088832, 8796093022208001 / 35184372088832, 8796093022208001 / 35184372088832, 8892850045452289 / 35184372088832, 8989607068696577 / 35184372088832],
           daily_adherence = [True, True, True, True, True, True, True],
           current_weight = 8989607068696577 / 35184372088832, rng_state = G7\<rparr>"
  from loop_body_weight_gain[where base_info = weight_gain_patient and s = S7 and day = 7
      and dd = 0 and wgs = 5 and nas = "- 1", OF P]
  obtain r7 where e7: "loop_body weight_gain_patient 0 5 (- 1) 7 S7 =
      Inr \<lparr>records = [r0, r1, r2, r3, r4, r5, r6, r7], daily_weights = [8796093022208001 / 35184372088832, 8796093022208001 / 35184372088832, 8796093022208001 / 35184372088832, 8796093022208001 / 35184372088832, 8796093022208001 / 35184372088832, 8892850045452289 / 35184372088832, 8989607068696577 / 35184372088832, 256],
                daily_adherence = [True, True, True, True, True, True, True, True],
                current_weight = 256, rng_state = sconst 0\<rparr>"
    by (auto simp: S7_def G7_def day_draws_stl day_draws_jitter gain_draws_stl
        gain_draws_jitter gain_draws_gain fadd_def fmul_def fl_0 fl_consts rounding_doubles
        rounding_tie)
  have "for_days (loop_body weight_gain_patient 0 5 (- 1)) [0..<8] S0 =
      Inr \<lparr>records = [r0, r1, r2, r3, r4, r5, r6, r7], daily_weights = [8796093022208001 / 35184372088832, 8796093022208001 / 35184372088832, 8796093022208001 / 35184372088832, 8796093022208001 / 35184372088832, 8796093022208001 / 35184372088832, 8892850045452289 / 35184372088832, 8989607068696577 / 35184372088832, 256],
                daily_adherence = [True, True, True, True, True, True, True, True],
                current_weight = 256, rng_state = sconst 0\<rparr>"
    unfolding upt_8
    by (simp add: e0 e1[unfolded S1_def] e2[unfolded S2_def] e3[unfolded S3_def]
        e4[unfolded S4_def] e5[unfolded S5_def] e6[unfolded S6_def] e7[unfolded S7_def]
        raising_Inr del: One_nat_def)
  then show ?thesis
    unfolding S0_def G0_def G1_def G2_def G3_def G4_def G5_def G6_def G7_def by simp
qed

lemma rounding_run:
  "\<exists>s. daily_loop weight_gain_patient rounding_rng = Inr s \<and>
       take 8 (daily_weights s) = [8796093022208001 / 35184372088832, 8796093022208001 / 35184372088832, 8796093022208001 / 35184372088832, 8796093022208001 / 35184372088832, 8796093022208001 / 35184372088832, 8892850045452289 / 35184372088832, 8989607068696577 / 35184372088832, 256] \<and>
       length (records s) = 30 \<and> length (daily_weights s) = 30 \<and>
       (\<forall>d<30. day_facts weight_gain_patient (PStr ''high_risk_weight_gain'') 5 (- 1)
                 (15975 / 64) s d)"
proof -
  have P: "weight_gain_patient ''profile_type'' = Some (PStr ''high_risk_weight_gain'')"
    by (simp add: weight_gain_patient_def)
  define S0 where "S0 = \<lparr>records = [], daily_weights = [], daily_adherence = [],
            current_weight = 15975 / 64,
            rng_state = day_draws 8022036836253952
             (day_draws 4503599627370496
                (day_draws 4503599627370496
                   (day_draws 4503599627370496
                      (day_draws 4503599627370496
                         (gain_draws 8444249301319680 7881299347898368
                            (gain_draws 8444249301319680 7881299347898368
                               (gain_draws 0 0 (sconst 0))))))))\<rparr>"
  have eq: "daily_loop weight_gain_patient rounding_rng =
      for_days (loop_body weight_gain_patient 0 5 (- 1)) [0..<30] S0"
    by (simp add: daily_loop_def rounding_seed getitem_def weight_gain_patient_def raising_def
        DAYS_OF_DATA_def S0_def py_randint_def randbelow_def)
  from rounding_first_days
  obtain s8 where run8: "for_days (loop_body weight_gain_patient 0 5 (- 1)) [0..<8] S0 = Inr s8"
    and dw8: "daily_weights s8 = [8796093022208001 / 35184372088832, 8796093022208001 / 35184372088832, 8796093022208001 / 35184372088832, 8796093022208001 / 35184372088832, 8796093022208001 / 35184372088832, 8892850045452289 / 35184372088832, 8989607068696577 / 35184372088832, 256]"
    unfolding S0_def by blast
  have I0: "length (records S0) = 0" "length (daily_weights S0) = 0"
    "length (daily_adherence S0) = 0"
    "current_weight S0 = (if (0::nat) = 0 then 15975 / 64 else daily_weights S0 ! (0 - 1))"
    "\<forall>d<0. day_facts weight_gain_patient (PStr ''high_risk_weight_gain'') 5 (- 1)
             (15975 / 64) S0 d"
    by (simp_all add: S0_def)
  have S: "fl (15975 / 64) = 15975 / 64" "(150::real) \<le> 15975 / 64" "(15975 / 64::real) \<le> 250"
    by (simp_all add: rounding_doubles)
  have le8: "(0::nat) + 8 \<le> 30" and le22: "(8::nat) + 22 \<le> 30" by simp_all
  from for_days_facts[where base_info = weight_gain_patient
      and pt = "PStr ''high_risk_weight_gain''" and dd = 0
      and wgs = 5 and nas = "- 1" and m = 8 and k = 0 and ?s0.0 = S0 and ?cw0.0 = "15975 / 64",
      OF P I0 S le8]
  have I8: "length (records s8) = 8" "length (daily_weights s8) = 8"
    "length (daily_adherence s8) = 8"
    "current_weight s8 = (if (8::nat) = 0 then 15975 / 64 else daily_weights s8 ! (8 - 1))"
    "\<forall>d<8. day_facts weight_gain_patient (PStr ''high_risk_weight_gain'') 5 (- 1)
             (15975 / 64) s8 d"
    using run8 by auto
  from for_days_facts[where base_info = weight_gain_patient
      and pt = "PStr ''high_risk_weight_gain''" and dd = 0
      and wgs = 5 and nas = "- 1" and m = 22 and k = 8 and ?s0.0 = s8 and ?cw0.0 = "15975 / 64",
      OF P I8 S le22]
  obtain s where run: "for_days (loop_body weight_gain_patient 0 5 (- 1)) [8..<8 + 22] s8 = Inr s"
    and L: "length (records s) = 8 + 22" "length (daily_weights s) = 8 + 22"
    and F: "\<forall>d<8 + 22. day_facts weight_gain_patient (PStr ''high_risk_weight_gain'') 5 (- 1)
                (15975 / 64) s d"
    and T: "take 8 (daily_weights s) = daily_weights s8"
    by blast
  have split: "[0..<30] = [0..<8] @ [8..<8 + 22]"
    using upt_add_eq_append[of 0 8 22] by simp
  have "daily_loop weight_gain_patient rounding_rng = Inr s"
    unfolding eq split for_days_append run8 raising_Inr by (rule run)
  then show ?thesis using T dw8 L F by auto
qed

lemma rounding_input_is_generated:
  "base_patient_info rounding_world =
     Inr (weight_gain_patient,
          \<lparr>random_state = rounding_rng, faker_state = zeros, clock = sconst 2592000000000\<rparr>)"
  by (simp add: base_patient_info_def rounding_world_def zeros_def uuid4_def
      choose_profile_weight_gain py_randint_def randbelow_def
      py_choice_def py_sample_def COMORBIDITIES_def raising_def timedelta_days_def
      weight_gain_patient_def Let_def)

text \<open>
  C8, as the claim states it, fails. The loop body of \<^verbatim>\<open>generate_all_patient_data\<close>
  builds the patient \<open>weight_gain_patient\<close> of profile \<open>high_risk_weight_gain\<close> in
  \<open>rounding_world\<close> and leaves the generator \<open>rounding_rng\<close> to
  \<^verbatim>\<open>generate_daily_time_series\<close>, which draws the trigger day 5. The running weight of
  day 6 is \<open>255.5 + 2^-45\<close>. On day 7 the trigger is active, as the swelling between 4 and
  8 shows: the jitter -0.5 gives \<open>255 + 2^-45\<close> exactly, and the float sum of that and
  the gain 1.0 is 256.0, because \<open>256 + 2^-45\<close> is not a binary64 number. The change from
  day 6 to day 7 is \<open>1/2 - 2^-45\<close>, which is less than 0.5.
\<close>

theorem active_day_change_below_one_half:
  "base_patient_info rounding_world =
     Inr (weight_gain_patient,
          \<lparr>random_state = rounding_rng, faker_state = zeros, clock = sconst 2592000000000\<rparr>) \<and>
   fst (py_randint 5 20 (snd (py_uniform 150 250 rounding_rng))) = 5 \<and>
   (\<exists>s. daily_loop weight_gain_patient rounding_rng = Inr s \<and>
        generate_daily_time_series weight_gain_patient rounding_rng =
          Inr (records s, rng_state s) \<and>
        daily_weights s ! 6 = 8989607068696577 / 35184372088832 \<and>
        daily_weights s ! 7 = 256 \<and>
        daily_weights s ! 7 - daily_weights s ! 6 = 1 / 2 - 1 / 2 ^ 45 \<and>
        daily_weights s ! 7 - daily_weights s ! 6 < 1 / 2 \<and>
        (\<exists>x. (records s ! 7) ''symptom_swelling'' = Some (PInt x) \<and> 4 \<le> x \<and> x \<le> 8))"
proof -
  from rounding_run obtain s where run: "daily_loop weight_gain_patient rounding_rng = Inr s"
    and T: "take 8 (daily_weights s) = [8796093022208001 / 35184372088832, 8796093022208001 / 35184372088832, 8796093022208001 / 35184372088832, 8796093022208001 / 35184372088832, 8796093022208001 / 35184372088832, 8892850045452289 / 35184372088832, 8989607068696577 / 35184372088832, 256]"
    and F: "\<forall>d<30. day_facts weight_gain_patient (PStr ''high_risk_weight_gain'') 5 (- 1)
                (15975 / 64) s d"
    by blast
  have w6: "daily_weights s ! 6 = 8989607068696577 / 35184372088832"
    using arg_cong[OF T, of "\<lambda>xs. xs ! 6"] by simp
  have w7: "daily_weights s ! 7 = 256"
    using arg_cong[OF T, of "\<lambda>xs. xs ! 7"] by simp
  have F7: "day_facts weight_gain_patient (PStr ''high_risk_weight_gain'') 5 (- 1)
      (15975 / 64) s 7"
    using F by simp
  have sw: "\<exists>x. (records s ! 7) ''symptom_swelling'' = Some (PInt x) \<and> 4 \<le> x \<and> x \<le> 8"
    using F7 by (simp add: day_facts_def Let_def)
  have tr: "fst (py_randint 5 20 (snd (py_uniform 150 250 rounding_rng))) = 5"
    by (simp add: rounding_seed py_randint_def randbelow_def)
  have g: "generate_daily_time_series weight_gain_patient rounding_rng =
      Inr (records s, rng_state s)"
    by (rule series_of_loop[OF run])
  have d: "daily_weights s ! 7 - daily_weights s ! 6 = 1 / 2 - 1 / 2 ^ 45"
    "daily_weights s ! 7 - daily_weights s ! 6 < 1 / 2"
    by (simp_all add: w6 w7)
  show ?thesis
    using rounding_input_is_generated tr run g w6 w7 d sw by blast
qed

section \<open>Further properties of the daily series\<close>

text \<open>
  C2. On every day the field \<open>consecutive_missed_meds\<close> is 2 when the day is not the
  first one and \<open>medication_adherence\<close> is false in the record of that day and in the
  record of the day before, and it is 0 in every other case; no other value occurs.
\<close>

theorem consecutive_missed_meds_two_iff:
  assumes "base_info ''profile_type'' = Some pt"
    and "base_info ''discharge_date'' = Some (PIso t)"
  shows "\<exists>recs g'. generate_daily_time_series base_info g = Inr (recs, g') \<and>
           length recs = DAYS_OF_DATA \<and>
           (\<forall>d<DAYS_OF_DATA. \<exists>today.
              (recs ! d) ''medication_adherence'' = Some (PBool today) \<and>
              (recs ! d) ''consecutive_missed_meds'' =
                 Some (PInt (if 1 \<le> d \<and> \<not> today \<and>
                                (recs ! (d - 1)) ''medication_adherence'' = Some (PBool False)
                             then 2 else 0)))"
proof -
  from daily_loop_facts[where base_info = base_info and g = g, OF assms]
  obtain s cw0 wgs nas where run: "daily_loop base_info g = Inr s"
    and len: "length (records s) = DAYS_OF_DATA"
    and F: "\<forall>d<DAYS_OF_DATA. day_facts base_info pt wgs nas cw0 s d"
    by blast
  have day: "\<exists>today. (records s ! d) ''medication_adherence'' = Some (PBool today) \<and>
              (records s ! d) ''consecutive_missed_meds'' =
                 Some (PInt (if 1 \<le> d \<and> \<not> today \<and>
                     (records s ! (d - 1)) ''medication_adherence'' = Some (PBool False)
                   then 2 else 0))" if d: "d < DAYS_OF_DATA" for d
  proof -
    define naa where "naa = (pt = PStr ''non_adherent'' \<and> nas \<le> int d)"
    have Fd: "day_facts base_info pt wgs nas cw0 s d" using F d by blast
    have a1: "(records s ! d) ''medication_adherence'' = Some (PBool (\<not> naa))"
      using Fd by (simp add: day_facts_def Let_def naa_def)
    have a2: "(records s ! d) ''consecutive_missed_meds'' =
        Some (PInt (if naa \<and> 1 \<le> d \<and> \<not> daily_adherence s ! (d - 1) then 2 else 0))"
      using Fd by (simp add: day_facts_def Let_def naa_def)
    have Fp: "day_facts base_info pt wgs nas cw0 s (d - 1)" using F d by simp
    define nap where "nap = (pt = PStr ''non_adherent'' \<and> nas \<le> int (d - 1))"
    have a3: "(records s ! (d - 1)) ''medication_adherence'' = Some (PBool (\<not> nap))"
      "daily_adherence s ! (d - 1) = (\<not> nap)"
      using Fp by (simp_all add: day_facts_def Let_def nap_def)
    show ?thesis
      apply (rule exI[of _ "\<not> naa"])
      using a1 a2 a3 by auto
  qed
  show ?thesis
    apply (rule exI[of _ "records s"], rule exI[of _ "rng_state s"])
    using series_of_loop[OF run] len day by blast
qed

theorem consecutive_missed_meds_two_iff_witness:
  "non_adherent_patient ''profile_type'' = Some (PStr ''non_adherent'') \<and>
   non_adherent_patient ''discharge_date'' = Some (PIso 0) \<and> (7::nat) < DAYS_OF_DATA \<and>
   (\<exists>recs g'. generate_daily_time_series non_adherent_patient zeros = Inr (recs, g') \<and>
      length recs = DAYS_OF_DATA \<and>
      (\<exists>today. (recs ! 7) ''medication_adherence'' = Some (PBool today) \<and>
         (recs ! 7) ''consecutive_missed_meds'' =
            Some (PInt (if \<not> today \<and> (recs ! 6) ''medication_adherence'' = Some (PBool False)
                        then 2 else 0))))"
proof -
  have h1: "non_adherent_patient ''profile_type'' = Some (PStr ''non_adherent'')" by (simp add: non_adherent_patient_def)
  have h2: "non_adherent_patient ''discharge_date'' = Some (PIso 0)" by (simp add: non_adherent_patient_def)
  have h3: "(7::nat) < DAYS_OF_DATA" by (simp add: DAYS_OF_DATA_def)
  from consecutive_missed_meds_two_iff[where base_info = non_adherent_patient
      and g = zeros, OF h1 h2]
  obtain recs g' where r: "generate_daily_time_series non_adherent_patient zeros = Inr (recs, g')"
      "length recs = DAYS_OF_DATA"
    and a: "\<forall>d<DAYS_OF_DATA. \<exists>today.
              (recs ! d) ''medication_adherence'' = Some (PBool today) \<and>
              (recs ! d) ''consecutive_missed_meds'' =
                 Some (PInt (if 1 \<le> d \<and> \<not> today \<and>
                                (recs ! (d - 1)) ''medication_adherence'' = Some (PBool False)
                             then 2 else 0))"
    by blast
  from a h3 obtain today where "(recs ! 7) ''medication_adherence'' = Some (PBool today)"
    "(recs ! 7) ''consecutive_missed_meds'' =
       Some (PInt (if 1 \<le> (7::nat) \<and> \<not> today \<and>
                      (recs ! (7 - 1)) ''medication_adherence'' = Some (PBool False)
                   then 2 else 0))"
    by blast
  then have "(recs ! 7) ''medication_adherence'' = Some (PBool today) \<and>
    (recs ! 7) ''consecutive_missed_meds'' =
       Some (PInt (if \<not> today \<and> (recs ! 6) ''medication_adherence'' = Some (PBool False)
                   then 2 else 0))"
    by simp
  then show ?thesis using h1 h2 h3 r by blast
qed

text \<open>
  C3. For a patient of profile \<open>non_adherent\<close> there is a trigger day between 5 and 20
  such that \<open>medication_adherence\<close> is true in the record of every earlier day and false
  in the record of the trigger day and of every later day, up to the last one.
\<close>

theorem non_adherent_from_trigger_day:
  assumes "base_info ''profile_type'' = Some (PStr ''non_adherent'')"
    and "base_info ''discharge_date'' = Some (PIso t)"
  shows "\<exists>recs g' trigger. generate_daily_time_series base_info g = Inr (recs, g') \<and>
           length recs = DAYS_OF_DATA \<and> 5 \<le> trigger \<and> trigger \<le> 20 \<and>
           (\<forall>d<DAYS_OF_DATA. (recs ! d) ''medication_adherence'' = Some (PBool (d < trigger)))"
proof -
  from daily_loop_facts[where base_info = base_info and g = g, OF assms]
  obtain s cw0 wgs nas where run: "daily_loop base_info g = Inr s"
    and len: "length (records s) = DAYS_OF_DATA"
    and tr: "5 \<le> nas \<and> nas \<le> 20"
    and F: "\<forall>d<DAYS_OF_DATA. day_facts base_info (PStr ''non_adherent'') wgs nas cw0 s d"
    by auto
  have day: "(records s ! d) ''medication_adherence'' = Some (PBool (d < nat nas))"
    if d: "d < DAYS_OF_DATA" for d
  proof -
    have Fd: "day_facts base_info (PStr ''non_adherent'') wgs nas cw0 s d" using F d by blast
    have "(records s ! d) ''medication_adherence'' = Some (PBool (\<not> nas \<le> int d))"
      using Fd by (simp add: day_facts_def Let_def)
    moreover have "(\<not> nas \<le> int d) = (d < nat nas)" using tr by linarith
    ultimately show ?thesis by simp
  qed
  have t: "5 \<le> nat nas \<and> nat nas \<le> 20" using tr by linarith
  show ?thesis
    apply (rule exI[of _ "records s"], rule exI[of _ "rng_state s"], rule exI[of _ "nat nas"])
    using series_of_loop[OF run] len day t by blast
qed

theorem non_adherent_from_trigger_day_witness:
  "non_adherent_patient ''profile_type'' = Some (PStr ''non_adherent'') \<and>
   non_adherent_patient ''discharge_date'' = Some (PIso 0) \<and> (29::nat) < DAYS_OF_DATA \<and>
   (\<exists>recs g' trigger. generate_daily_time_series non_adherent_patient zeros = Inr (recs, g') \<and>
      length recs = DAYS_OF_DATA \<and> (5::nat) \<le> trigger \<and> trigger \<le> 20 \<and>
      (recs ! 29) ''medication_adherence'' = Some (PBool (29 < trigger)))"
proof -
  have h1: "non_adherent_patient ''profile_type'' = Some (PStr ''non_adherent'')" by (simp add: non_adherent_patient_def)
  have h2: "non_adherent_patient ''discharge_date'' = Some (PIso 0)" by (simp add: non_adherent_patient_def)
  have h3: "(29::nat) < DAYS_OF_DATA" by (simp add: DAYS_OF_DATA_def)
  from non_adherent_from_trigger_day[where base_info = non_adherent_patient
      and g = zeros, OF h1 h2] h1 h2 h3
  show ?thesis by blast
qed

text \<open>
  C4. For a patient of profile \<open>high_risk_weight_gain\<close> there is a trigger day between 5
  and 20 such that \<open>symptom_swelling\<close> lies between 1 and 3 on every earlier day and
  between 4 and 8 on the trigger day and on every later day.
\<close>

theorem weight_gain_swelling_from_trigger_day:
  assumes "base_info ''profile_type'' = Some (PStr ''high_risk_weight_gain'')"
    and "base_info ''discharge_date'' = Some (PIso t)"
  shows "\<exists>recs g' trigger. generate_daily_time_series base_info g = Inr (recs, g') \<and>
           length recs = DAYS_OF_DATA \<and> 5 \<le> trigger \<and> trigger \<le> 20 \<and>
           (\<forall>d<DAYS_OF_DATA. \<exists>x. (recs ! d) ''symptom_swelling'' = Some (PInt x) \<and>
              (if trigger \<le> d then 4 \<le> x \<and> x \<le> 8 else 1 \<le> x \<and> x \<le> 3))"
proof -
  from daily_loop_facts[where base_info = base_info and g = g, OF assms]
  obtain s cw0 wgs nas where run: "daily_loop base_info g = Inr s"
    and len: "length (records s) = DAYS_OF_DATA"
    and tr: "5 \<le> wgs \<and> wgs \<le> 20"
    and F: "\<forall>d<DAYS_OF_DATA. day_facts base_info (PStr ''high_risk_weight_gain'') wgs nas cw0 s d"
    by auto
  have day: "\<exists>x. (records s ! d) ''symptom_swelling'' = Some (PInt x) \<and>
              (if nat wgs \<le> d then 4 \<le> x \<and> x \<le> 8 else 1 \<le> x \<and> x \<le> 3)"
    if d: "d < DAYS_OF_DATA" for d
  proof -
    have Fd: "day_facts base_info (PStr ''high_risk_weight_gain'') wgs nas cw0 s d"
      using F d by blast
    have e: "\<exists>x. (records s ! d) ''symptom_swelling'' = Some (PInt x) \<and>
        (if wgs \<le> int d then 4 \<le> x \<and> x \<le> 8 else 1 \<le> x \<and> x \<le> 3)"
      using Fd by (simp add: day_facts_def Let_def)
    have "(wgs \<le> int d) = (nat wgs \<le> d)" using tr by linarith
    then show ?thesis using e by simp
  qed
  have t: "5 \<le> nat wgs \<and> nat wgs \<le> 20" using tr by linarith
  show ?thesis
    apply (rule exI[of _ "records s"], rule exI[of _ "rng_state s"], rule exI[of _ "nat wgs"])
    using series_of_loop[OF run] len day t by blast
qed

theorem weight_gain_swelling_from_trigger_day_witness:
  "weight_gain_patient ''profile_type'' = Some (PStr ''high_risk_weight_gain'') \<and>
   weight_gain_patient ''discharge_date'' = Some (PIso 0) \<and> (4::nat) < DAYS_OF_DATA \<and>
   (\<exists>recs g' trigger. generate_daily_time_series weight_gain_patient zeros = Inr (recs, g') \<and>
      length recs = DAYS_OF_DATA \<and> (5::nat) \<le> trigger \<and> trigger \<le> 20 \<and>
      (\<exists>x. (recs ! 4) ''symptom_swelling'' = Some (PInt x) \<and> 1 \<le> x \<and> x \<le> 3))"
proof -
  have h1: "weight_gain_patient ''profile_type'' = Some (PStr ''high_risk_weight_gain'')" by (simp add: weight_gain_patient_def)
  have h2: "weight_gain_patient ''discharge_date'' = Some (PIso 0)" by (simp add: weight_gain_patient_def)
  have h3: "(4::nat) < DAYS_OF_DATA" by (simp add: DAYS_OF_DATA_def)
  from weight_gain_swelling_from_trigger_day[where base_info = weight_gain_patient
      and g = zeros, OF h1 h2]
  obtain recs g' trigger where
    r: "generate_daily_time_series weight_gain_patient zeros = Inr (recs, g')"
      "length recs = DAYS_OF_DATA" "5 \<le> trigger" "trigger \<le> 20"
    and a: "\<forall>d<DAYS_OF_DATA. \<exists>x. (recs ! d) ''symptom_swelling'' = Some (PInt x) \<and>
              (if trigger \<le> d then 4 \<le> x \<and> x \<le> 8 else 1 \<le> x \<and> x \<le> 3)"
    by blast
  from a h3 obtain x where x: "(recs ! 4) ''symptom_swelling'' = Some (PInt x)"
    "if trigger \<le> 4 then 4 \<le> x \<and> x \<le> 8 else 1 \<le> x \<and> x \<le> 3"
    by blast
  have "\<not> trigger \<le> 4" using r(3) by simp
  then have "1 \<le> x \<and> x \<le> 3" using x(2) by simp
  then show ?thesis using h1 h2 h3 r x(1) by blast
qed

text \<open>
  C8, as amended. The running weight is seeded once, between 150 and 250, and every
  day's value is the float sum of the value of the day before (the seed, on day 0) and a
  jitter of at least -0.5 and less than 0.5 and, only on a day on which the weight-gain
  trigger is active, the float sum of that sum and an extra gain between 1 and 2.5. The
  trigger is active when the profile is \<open>high_risk_weight_gain\<close> and the day is the
  trigger day, drawn between 5 and 20, or a later one. Each float sum is rounded to the
  nearest binary64 number. Hence the change from one day to the next lies between -0.5
  and 0.5 when the trigger is not active and between \<open>0.5 - 2^-45\<close> and \<open>3 + 2^-45\<close>
  when it is. The field \<open>weight\<close> is the running weight rounded to two digits.
\<close>

theorem weight_series_is_running_float_sum:
  assumes "base_info ''profile_type'' = Some pt"
    and "base_info ''discharge_date'' = Some (PIso t)"
  shows "\<exists>s seed trigger. daily_loop base_info g = Inr s \<and>
           generate_daily_time_series base_info g = Inr (records s, rng_state s) \<and>
           150 \<le> seed \<and> seed \<le> 250 \<and>
           (if pt = PStr ''high_risk_weight_gain'' then 5 \<le> trigger \<and> trigger \<le> 20
            else trigger = - 1) \<and>
           length (records s) = DAYS_OF_DATA \<and> length (daily_weights s) = DAYS_OF_DATA \<and>
           (\<forall>d<DAYS_OF_DATA.
              (records s ! d) ''weight'' = Some (PFloat (round_float (daily_weights s ! d) 2)) \<and>
              (\<exists>jitter gain.
                 - (1 / 2) \<le> jitter \<and> jitter < 1 / 2 \<and> 1 \<le> gain \<and> gain \<le> 5 / 2 \<and>
                 daily_weights s ! d =
                   (if pt = PStr ''high_risk_weight_gain'' \<and> trigger \<le> int d
                    then fadd (fadd (if d = 0 then seed else daily_weights s ! (d - 1)) jitter)
                           gain
                    else fadd (if d = 0 then seed else daily_weights s ! (d - 1)) jitter)) \<and>
              (if pt = PStr ''high_risk_weight_gain'' \<and> trigger \<le> int d
               then 1 / 2 - 1 / 2 ^ 45
                      \<le> daily_weights s ! d - (if d = 0 then seed else daily_weights s ! (d - 1)) \<and>
                    daily_weights s ! d - (if d = 0 then seed else daily_weights s ! (d - 1))
                      \<le> 3 + 1 / 2 ^ 45
               else - (1 / 2) \<le> daily_weights s ! d - (if d = 0 then seed else daily_weights s ! (d - 1)) \<and>
                    daily_weights s ! d - (if d = 0 then seed else daily_weights s ! (d - 1)) \<le> 1 / 2))"
proof -
  from daily_loop_facts[where base_info = base_info and g = g, OF assms]
  obtain s cw0 wgs nas where run: "daily_loop base_info g = Inr s"
    and seed: "150 \<le> cw0" "cw0 \<le> 250"
    and tr: "if pt = PStr ''high_risk_weight_gain'' then 5 \<le> wgs \<and> wgs \<le> 20 else wgs = - 1"
    and len: "length (records s) = DAYS_OF_DATA" "length (daily_weights s) = DAYS_OF_DATA"
    and F: "\<forall>d<DAYS_OF_DATA. day_facts base_info pt wgs nas cw0 s d"
    by blast
  have day: "(records s ! d) ''weight'' = Some (PFloat (round_float (daily_weights s ! d) 2)) \<and>
              (\<exists>jitter gain.
                 - (1 / 2) \<le> jitter \<and> jitter < 1 / 2 \<and> 1 \<le> gain \<and> gain \<le> 5 / 2 \<and>
                 daily_weights s ! d =
                   (if pt = PStr ''high_risk_weight_gain'' \<and> wgs \<le> int d
                    then fadd (fadd (if d = 0 then cw0 else daily_weights s ! (d - 1)) jitter)
                           gain
                    else fadd (if d = 0 then cw0 else daily_weights s ! (d - 1)) jitter)) \<and>
              (if pt = PStr ''high_risk_weight_gain'' \<and> wgs \<le> int d
               then 1 / 2 - 1 / 2 ^ 45
                      \<le> daily_weights s ! d - (if d = 0 then cw0 else daily_weights s ! (d - 1)) \<and>
                    daily_weights s ! d - (if d = 0 then cw0 else daily_weights s ! (d - 1))
                      \<le> 3 + 1 / 2 ^ 45
               else - (1 / 2) \<le> daily_weights s ! d - (if d = 0 then cw0 else daily_weights s ! (d - 1)) \<and>
                    daily_weights s ! d - (if d = 0 then cw0 else daily_weights s ! (d - 1)) \<le> 1 / 2)"
    if d: "d < DAYS_OF_DATA" for d
  proof -
    have Fd: "day_facts base_info pt wgs nas cw0 s d" using F d by blast
    show ?thesis using Fd unfolding day_facts_def Let_def by (intro conjI) blast+
  qed
  show ?thesis
    apply (rule exI[of _ s], rule exI[of _ cw0], rule exI[of _ wgs])
    using run series_of_loop[OF run] seed tr len day by blast
qed

theorem weight_series_is_running_float_sum_witness:
  "weight_gain_patient ''profile_type'' = Some (PStr ''high_risk_weight_gain'') \<and>
   weight_gain_patient ''discharge_date'' = Some (PIso 0) \<and> (25::nat) < DAYS_OF_DATA \<and>
   (\<exists>s seed. daily_loop weight_gain_patient zeros = Inr s \<and>
      (150::real) \<le> seed \<and> seed \<le> 250 \<and> length (daily_weights s) = DAYS_OF_DATA \<and>
      1 / 2 - 1 / 2 ^ 45 \<le> daily_weights s ! 25 - daily_weights s ! 24 \<and>
      daily_weights s ! 25 - daily_weights s ! 24 \<le> 3 + 1 / 2 ^ 45)"
proof -
  have h1: "weight_gain_patient ''profile_type'' = Some (PStr ''high_risk_weight_gain'')"
    by (simp add: weight_gain_patient_def)
  have h2: "weight_gain_patient ''discharge_date'' = Some (PIso 0)"
    by (simp add: weight_gain_patient_def)
  have h3: "(25::nat) < DAYS_OF_DATA" by (simp add: DAYS_OF_DATA_def)
  from weight_series_is_running_float_sum[where base_info = weight_gain_patient
      and g = zeros, OF h1 h2]
  obtain s seed trigger where r: "daily_loop weight_gain_patient zeros = Inr s"
      "150 \<le> seed" "seed \<le> 250" "length (daily_weights s) = DAYS_OF_DATA"
    and t: "5 \<le> trigger \<and> trigger \<le> 20"
    and a: "\<forall>d<DAYS_OF_DATA.
              (if PStr ''high_risk_weight_gain'' = PStr ''high_risk_weight_gain'' \<and> trigger \<le> int d
               then 1 / 2 - 1 / 2 ^ 45
                      \<le> daily_weights s ! d - (if d = 0 then seed else daily_weights s ! (d - 1)) \<and>
                    daily_weights s ! d - (if d = 0 then seed else daily_weights s ! (d - 1))
                      \<le> 3 + 1 / 2 ^ 45
               else - (1 / 2) \<le> daily_weights s ! d - (if d = 0 then seed else daily_weights s ! (d - 1)) \<and>
                    daily_weights s ! d - (if d = 0 then seed else daily_weights s ! (d - 1)) \<le> 1 / 2)"
    by auto
  from a h3 have "(if PStr ''high_risk_weight_gain'' = PStr ''high_risk_weight_gain'' \<and> trigger \<le> int 25
               then 1 / 2 - 1 / 2 ^ 45
                      \<le> daily_weights s ! 25 - (if (25::nat) = 0 then seed else daily_weights s ! (25 - 1)) \<and>
                    daily_weights s ! 25 - (if (25::nat) = 0 then seed else daily_weights s ! (25 - 1))
                      \<le> 3 + 1 / 2 ^ 45
               else - (1 / 2) \<le> daily_weights s ! 25 - (if (25::nat) = 0 then seed else daily_weights s ! (25 - 1)) \<and>
                    daily_weights s ! 25 - (if (25::nat) = 0 then seed else daily_weights s ! (25 - 1)) \<le> 1 / 2)"
    by blast
  then have "1 / 2 - 1 / 2 ^ 45 \<le> daily_weights s ! 25 - daily_weights s ! 24 \<and>
      daily_weights s ! 25 - daily_weights s ! 24 \<le> 3 + 1 / 2 ^ 45"
    using t by simp
  then show ?thesis using h1 h2 h3 r by blast
qed

text \<open>
  C10. For a patient whose profile is not \<open>non_adherent\<close>, \<open>medication_adherence\<close> is
  true and \<open>consecutive_missed_meds\<close> is 0 in the record of every day.
\<close>

theorem adherent_profiles_never_miss:
  assumes "base_info ''profile_type'' = Some pt"
    and "pt \<noteq> PStr ''non_adherent''"
    and "base_info ''discharge_date'' = Some (PIso t)"
  shows "\<exists>recs g'. generate_daily_time_series base_info g = Inr (recs, g') \<and>
           length recs = DAYS_OF_DATA \<and>
           (\<forall>d<DAYS_OF_DATA. (recs ! d) ''medication_adherence'' = Some (PBool True) \<and>
              (recs ! d) ''consecutive_missed_meds'' = Some (PInt 0))"
proof -
  from daily_loop_facts[where base_info = base_info and g = g, OF assms(1) assms(3)]
  obtain s cw0 wgs nas where run: "daily_loop base_info g = Inr s"
    and len: "length (records s) = DAYS_OF_DATA"
    and F: "\<forall>d<DAYS_OF_DATA. day_facts base_info pt wgs nas cw0 s d"
    by blast
  have day: "(records s ! d) ''medication_adherence'' = Some (PBool True) \<and>
              (records s ! d) ''consecutive_missed_meds'' = Some (PInt 0)"
    if d: "d < DAYS_OF_DATA" for d
  proof -
    have Fd: "day_facts base_info pt wgs nas cw0 s d" using F d by blast
    show ?thesis using Fd assms(2) by (simp add: day_facts_def Let_def)
  qed
  show ?thesis
    apply (rule exI[of _ "records s"], rule exI[of _ "rng_state s"])
    using series_of_loop[OF run] len day by blast
qed

theorem adherent_profiles_never_miss_witness:
  "weight_gain_patient ''profile_type'' = Some (PStr ''high_risk_weight_gain'') \<and>
   PStr ''high_risk_weight_gain'' \<noteq> PStr ''non_adherent'' \<and>
   weight_gain_patient ''discharge_date'' = Some (PIso 0) \<and> (12::nat) < DAYS_OF_DATA \<and>
   (\<exists>recs g'. generate_daily_time_series weight_gain_patient zeros = Inr (recs, g') \<and>
      length recs = DAYS_OF_DATA \<and>
      (recs ! 12) ''medication_adherence'' = Some (PBool True) \<and>
      (recs ! 12) ''consecutive_missed_meds'' = Some (PInt 0))"
proof -
  have h1: "weight_gain_patient ''profile_type'' = Some (PStr ''high_risk_weight_gain'')" by (simp add: weight_gain_patient_def)
  have h2: "weight_gain_patient ''discharge_date'' = Some (PIso 0)" by (simp add: weight_gain_patient_def)
  have h3: "(12::nat) < DAYS_OF_DATA" by (simp add: DAYS_OF_DATA_def)
  have h4: "PStr ''high_risk_weight_gain'' \<noteq> PStr ''non_adherent''" by simp
  from adherent_profiles_never_miss[where base_info = weight_gain_patient
      and g = zeros, OF h1 h4 h2] h1 h2 h3 h4
  show ?thesis by blast
qed

section \<open>The base record and the assembled dataset\<close>

lemma swap_out:
  assumes d: "distinct (take (Suc k) pool)" and l: "Suc k \<le> length pool" and j: "j < Suc k"
  shows "distinct (take k (pool[j := pool ! k]))"
    and "pool ! j \<notin> set (take k (pool[j := pool ! k]))"
    and "set (take k (pool[j := pool ! k])) \<subseteq> set (take (Suc k) pool)"
proof -
  have inj: "pool ! a \<noteq> pool ! b" if "a < Suc k" "b < Suc k" "a \<noteq> b" for a b
    using d l that by (simp add: distinct_conv_nth)
  have nth: "take k (pool[j := pool ! k]) ! a = (if a = j then pool ! k else pool ! a)"
    if "a < k" for a using that l by (simp add: nth_list_update)
  have len: "length (take k (pool[j := pool ! k])) = k" using l by simp
  show "distinct (take k (pool[j := pool ! k]))"
    unfolding distinct_conv_nth len
  proof (intro allI impI)
    fix a b assume ab: "a < k" "b < k" "a \<noteq> b"
    show "take k (pool[j := pool ! k]) ! a \<noteq> take k (pool[j := pool ! k]) ! b"
    proof (cases "a = j")
      case True
      then have "b \<noteq> j" using ab by simp
      then show ?thesis using True nth[OF ab(1)] nth[OF ab(2)] inj[of k b] ab by simp
    next
      case False
      show ?thesis
      proof (cases "b = j")
        case True
        then show ?thesis using False nth[OF ab(1)] nth[OF ab(2)] inj[of a k] ab by simp
      next
        case bf: False
        then show ?thesis using False nth[OF ab(1)] nth[OF ab(2)] inj[of a b] ab by simp
      qed
    qed
  qed
  show "pool ! j \<notin> set (take k (pool[j := pool ! k]))"
  proof
    assume "pool ! j \<in> set (take k (pool[j := pool ! k]))"
    then obtain a where a: "a < k" "take k (pool[j := pool ! k]) ! a = pool ! j"
      unfolding in_set_conv_nth len by blast
    show False
    proof (cases "a = j")
      case True
      then have "pool ! k = pool ! j" using a nth[OF a(1)] by simp
      moreover have "k \<noteq> j" using True a by simp
      ultimately show False using inj[of k j] j by simp
    next
      case False
      then have "pool ! a = pool ! j" using a nth[OF a(1)] by simp
      then show False using inj[of a j] a j False by simp
    qed
  qed
  show "set (take k (pool[j := pool ! k])) \<subseteq> set (take (Suc k) pool)"
  proof
    fix x assume "x \<in> set (take k (pool[j := pool ! k]))"
    then obtain a where a0: "a < k" "take k (pool[j := pool ! k]) ! a = x"
      unfolding in_set_conv_nth len by blast
    then have a: "x = (if a = j then pool ! k else pool ! a)" using nth[OF a0(1)] by simp
    define b where "b = (if a = j then k else a)"
    have b: "b < Suc k" "x = pool ! b" using a a0 by (simp_all add: b_def)
    have "take (Suc k) pool ! b = x" using b l by simp
    moreover have "b < length (take (Suc k) pool)" using b l by simp
    ultimately show "x \<in> set (take (Suc k) pool)" using nth_mem by blast
  qed
qed

lemma sample_loop_distinct:
  assumes "n \<le> length pool" "i + m \<le> n" "distinct (take (n - i) pool)"
    and "sample_loop n pool i m g = (res, g')"
  shows "length res = m \<and> distinct res \<and> set res \<subseteq> set (take (n - i) pool)"
  using assms
proof (induction m arbitrary: pool i g res g')
  case 0
  then show ?case by simp
next
  case (Suc m)
  obtain k where k: "n - i = Suc k" using Suc.prems(2) by (cases "n - i") simp_all
  have k1: "n - i - 1 = k" and k2: "n - Suc i = k" using k by simp_all
  obtain j g1 where dj: "randbelow (Suc k) g = (j, g1)" by (cases "randbelow (Suc k) g")
  define pool' where "pool' = pool[j := pool ! k]"
  obtain rest g2 where rec: "sample_loop n pool' (Suc i) m g1 = (rest, g2)"
    by (cases "sample_loop n pool' (Suc i) m g1")
  have res: "res = pool ! j # rest"
    using Suc.prems(4) by (simp add: k k1 dj pool'_def[symmetric] rec)
  have jl: "j < Suc k" using randbelow_lt[OF _ dj] by simp
  have d: "distinct (take (Suc k) pool)" using Suc.prems(3) by (simp only: k)
  have l: "Suc k \<le> length pool" using Suc.prems(1) k by arith
  note so = swap_out[OF d l jl, folded pool'_def]
  have p1: "n \<le> length pool'" using Suc.prems(1) by (simp add: pool'_def)
  have p2: "Suc i + m \<le> n" using Suc.prems(2) by simp
  have p3: "distinct (take (n - Suc i) pool')" using so(1) by (simp only: k2)
  have IH: "length rest = m \<and> distinct rest \<and> set rest \<subseteq> set (take (n - Suc i) pool')"
    by (rule Suc.IH[OF p1 p2 p3 rec])
  have "take (Suc k) pool ! j = pool ! j" "j < length (take (Suc k) pool)"
    using jl l by simp_all
  then have xin: "pool ! j \<in> set (take (Suc k) pool)" using nth_mem by metis
  have s1: "set rest \<subseteq> set (take k pool')" using IH by (simp only: k2)
  have sub: "set rest \<subseteq> set (take (Suc k) pool)" using s1 so(3) by (rule subset_trans)
  have notin: "pool ! j \<notin> set rest" using s1 so(2) by blast
  have "length res = Suc m \<and> distinct res \<and> set res \<subseteq> set (take (Suc k) pool)"
    using res IH xin sub notin by simp
  then show ?case by (simp only: k)
qed

lemma py_sample_distinct:
  assumes "distinct population" "0 \<le> k" "k \<le> int (length population)"
  shows "\<exists>res g'. py_sample population k g = Inr (res, g') \<and> length res = nat k \<and>
           distinct res \<and> set res \<subseteq> set population"
proof -
  obtain res g' where r: "sample_loop (length population) population 0 (nat k) g = (res, g')"
    by (cases "sample_loop (length population) population 0 (nat k) g")
  have "length res = nat k \<and> distinct res \<and> set res \<subseteq> set (take (length population - 0) population)"
    apply (rule sample_loop_distinct[OF _ _ _ r])
    using assms by simp_all
  then show ?thesis using r assms by (simp add: py_sample_def)
qed

lemma base_patient_info_explicit:
  "\<exists>pid age gender cs readm t pt w'.
     base_patient_info w =
       Inr ([''patient_id'' \<mapsto> pid, ''age'' \<mapsto> PInt age, ''gender'' \<mapsto> PStr gender,
             ''comorbidities'' \<mapsto> PList cs, ''previous_readmissions'' \<mapsto> PInt readm,
             ''discharge_date'' \<mapsto> PIso t, ''profile_type'' \<mapsto> PStr pt], w') \<and>
     length cs \<le> 3 \<and> distinct cs \<and> set cs \<subseteq> set COMORBIDITIES"
proof -
  obtain pid f1 where d0: "uuid4 (faker_state w) = (pid, f1)" by (cases "uuid4 (faker_state w)")
  obtain pt g1 where d1: "choose_profile (random_state w) = (pt, g1)"
    by (cases "choose_profile (random_state w)")
  obtain age g2 where d2: "py_randint 65 95 g1 = (age, g2)" by (cases "py_randint 65 95 g1")
  obtain gender g3 where d3: "py_choice [''Male'', ''Female''] g2 = (gender, g3)"
    by (cases "py_choice [''Male'', ''Female''] g2")
  obtain k g4 where d4: "py_randint 0 3 g3 = (k, g4)" by (cases "py_randint 0 3 g3")
  have kr: "0 \<le> k \<and> k \<le> 3" using py_randint_range[OF _ d4] by simp
  have dc: "distinct COMORBIDITIES" by (simp add: COMORBIDITIES_def)
  have lc: "k \<le> int (length COMORBIDITIES)" using kr by (simp add: COMORBIDITIES_def)
  from py_sample_distinct[OF dc _ lc, of g4] kr
  obtain cs g5 where d5: "py_sample COMORBIDITIES k g4 = Inr (cs, g5)"
    and cs: "length cs = nat k" "distinct cs" "set cs \<subseteq> set COMORBIDITIES" by blast
  obtain readm g6 where d6: "py_randint 0 5 g5 = (readm, g6)" by (cases "py_randint 0 5 g5")
  obtain days_back g7 where d7: "py_randint 30 90 g6 = (days_back, g7)" by (cases "py_randint 30 90 g6")
  have eq: "base_patient_info w =
       Inr ([''patient_id'' \<mapsto> pid, ''age'' \<mapsto> PInt age, ''gender'' \<mapsto> PStr gender,
             ''comorbidities'' \<mapsto> PList cs, ''previous_readmissions'' \<mapsto> PInt readm,
             ''discharge_date'' \<mapsto> PIso (shd (clock w) - timedelta_days days_back),
             ''profile_type'' \<mapsto> PStr pt],
            \<lparr>random_state = g7, faker_state = f1, clock = stl (clock w)\<rparr>)"
    unfolding base_patient_info_def
    by (simp only: d0 d1 d2 d3 d4 d5 d6 d7 prod.case raising_Inr Let_def)
  have "length cs \<le> 3" using cs(1) kr by linarith
  then show ?thesis using eq cs by blast
qed

lemma base_keys_not_daily: "k \<in> set BASE_KEYS \<Longrightarrow> k \<notin> set DAILY_KEYS"
  by (auto simp: BASE_KEYS_def DAILY_KEYS_def)

lemma patient_facts:
  "\<exists>base_info w1 s cs.
     base_patient_info w = Inr (base_info, w1) \<and>
     daily_loop base_info (random_state w1) = Inr s \<and>
     base_info ''comorbidities'' = Some (PList cs) \<and>
     length cs \<le> 3 \<and> distinct cs \<and> set cs \<subseteq> set COMORBIDITIES \<and>
     length (records s) = DAYS_OF_DATA \<and>
     (\<forall>d<DAYS_OF_DATA. (records s ! d) ''days_since_discharge'' = Some (PInt (int d)) \<and>
        (\<forall>k\<in>set BASE_KEYS. (records s ! d) k = base_info k \<and> base_info k \<noteq> None))"
proof -
  from base_patient_info_explicit[of w]
  obtain pid age gender cs readm t pt w1 where
    b: "base_patient_info w =
       Inr ([''patient_id'' \<mapsto> pid, ''age'' \<mapsto> PInt age, ''gender'' \<mapsto> PStr gender,
             ''comorbidities'' \<mapsto> PList cs, ''previous_readmissions'' \<mapsto> PInt readm,
             ''discharge_date'' \<mapsto> PIso t, ''profile_type'' \<mapsto> PStr pt], w1)"
    and cs: "length cs \<le> 3" "distinct cs" "set cs \<subseteq> set COMORBIDITIES" by blast
  define base_info where "base_info =
      [''patient_id'' \<mapsto> pid, ''age'' \<mapsto> PInt age, ''gender'' \<mapsto> PStr gender,
       ''comorbidities'' \<mapsto> PList cs, ''previous_readmissions'' \<mapsto> PInt readm,
       ''discharge_date'' \<mapsto> PIso t, ''profile_type'' \<mapsto> PStr pt]"
  have h1: "base_info ''profile_type'' = Some (PStr pt)" by (simp add: base_info_def)
  have h2: "base_info ''discharge_date'' = Some (PIso t)" by (simp add: base_info_def)
  have h3: "base_info ''comorbidities'' = Some (PList cs)" by (simp add: base_info_def)
  have h4: "\<forall>k\<in>set BASE_KEYS. base_info k \<noteq> None"
    by (simp add: base_info_def BASE_KEYS_def)
  from daily_loop_facts[where base_info = base_info and g = "random_state w1", OF h1 h2]
  obtain s cw0 wgs nas where run: "daily_loop base_info (random_state w1) = Inr s"
    and len: "length (records s) = DAYS_OF_DATA"
    and F: "\<forall>d<DAYS_OF_DATA. day_facts base_info (PStr pt) wgs nas cw0 s d"
    by blast
  have day: "(records s ! d) ''days_since_discharge'' = Some (PInt (int d)) \<and>
        (\<forall>k\<in>set BASE_KEYS. (records s ! d) k = base_info k \<and> base_info k \<noteq> None)"
    if d: "d < DAYS_OF_DATA" for d
  proof -
    have Fd: "day_facts base_info (PStr pt) wgs nas cw0 s d" using F d by blast
    have a: "(records s ! d) ''days_since_discharge'' = Some (PInt (int d))"
      using Fd by (simp add: day_facts_def Let_def)
    have fr: "\<forall>k. k \<notin> set DAILY_KEYS \<longrightarrow> (records s ! d) k = base_info k"
      using Fd unfolding day_facts_def Let_def by blast
    show ?thesis using a fr h4 base_keys_not_daily by blast
  qed
  show ?thesis
    apply (rule exI[of _ base_info], rule exI[of _ w1], rule exI[of _ s], rule exI[of _ cs])
    using b[folded base_info_def] run h3 cs len day by blast
qed

lemma patient_body_chunk:
  "\<exists>c w'. patient_body acc w = Inr (acc @ c, w') \<and> patient_series w c \<and>
     length c = DAYS_OF_DATA \<and>
     (\<forall>d<DAYS_OF_DATA. (c ! d) ''days_since_discharge'' = Some (PInt (int d)))"
proof -
  from patient_facts[of w]
  obtain base_info w1 s where b: "base_patient_info w = Inr (base_info, w1)"
    and run: "daily_loop base_info (random_state w1) = Inr s"
    and len: "length (records s) = DAYS_OF_DATA"
    and day: "\<forall>d<DAYS_OF_DATA. (records s ! d) ''days_since_discharge'' = Some (PInt (int d))"
    by blast
  note g = series_of_loop[OF run]
  have pb: "patient_body acc w = Inr (acc @ records s, w1\<lparr>random_state := rng_state s\<rparr>)"
    by (simp add: patient_body_def b g raising_Inr)
  have ps: "patient_series w (records s)"
    unfolding patient_series_def using b g by blast
  show ?thesis using pb ps len day by blast
qed

lemma for_patients_chunks:
  "\<exists>chunks w'. for_patients n acc w = Inr (acc @ concat chunks, w') \<and> length chunks = n \<and>
     (\<forall>c\<in>set chunks. (\<exists>wp. patient_series wp c) \<and> length c = DAYS_OF_DATA \<and>
        (\<forall>d<DAYS_OF_DATA. (c ! d) ''days_since_discharge'' = Some (PInt (int d))))"
proof (induction n arbitrary: acc w)
  case 0
  show ?case by (rule exI[of _ "[]"]) simp
next
  case (Suc n)
  from patient_body_chunk[of acc w]
  obtain c w1 where pb: "patient_body acc w = Inr (acc @ c, w1)"
    and c: "patient_series w c" "length c = DAYS_OF_DATA"
      "\<forall>d<DAYS_OF_DATA. (c ! d) ''days_since_discharge'' = Some (PInt (int d))" by blast
  from Suc.IH[of "acc @ c" w1]
  obtain chunks w' where r: "for_patients n (acc @ c) w1 = Inr ((acc @ c) @ concat chunks, w')"
    and l: "length chunks = n"
    and a: "\<forall>c\<in>set chunks. (\<exists>wp. patient_series wp c) \<and> length c = DAYS_OF_DATA \<and>
        (\<forall>d<DAYS_OF_DATA. (c ! d) ''days_since_discharge'' = Some (PInt (int d)))" by blast
  have run: "for_patients (Suc n) acc w = Inr (acc @ concat (c # chunks), w')"
    by (simp add: pb raising_Inr r)
  have all: "\<forall>c\<in>set (c # chunks). (\<exists>wp. patient_series wp c) \<and> length c = DAYS_OF_DATA \<and>
        (\<forall>d<DAYS_OF_DATA. (c ! d) ''days_since_discharge'' = Some (PInt (int d)))"
    using c a by auto
  show ?case
    apply (rule exI[of _ "c # chunks"], rule exI[of _ w'])
    using run l all by simp
qed

lemma length_concat_uniform:
  "(\<forall>c\<in>set chunks. length c = n) \<Longrightarrow> length (concat chunks) = length chunks * n"
  by (induction chunks) simp_all

lemma nth_concat_uniform:
  "(\<forall>c\<in>set chunks. length c = n) \<Longrightarrow> p < length chunks \<Longrightarrow> d < n \<Longrightarrow>
     concat chunks ! (p * n + d) = chunks ! p ! d"
proof (induction chunks arbitrary: p)
  case Nil
  then show ?case by simp
next
  case (Cons c chunks)
  show ?case
  proof (cases p)
    case 0
    then show ?thesis using Cons.prems by (simp add: nth_append)
  next
    case (Suc q)
    have "concat (c # chunks) ! (p * n + d) = concat chunks ! (q * n + d)"
      using Cons.prems Suc by (simp add: nth_append)
    also have "\<dots> = chunks ! q ! d"
      using Cons.IH[of q] Cons.prems Suc by simp
    finally show ?thesis using Suc by simp
  qed
qed

lemma generate_all_chunks:
  "\<exists>chunks w'. generate_all_patient_data w = Inr (concat chunks, w') \<and>
     length chunks = NUM_PATIENTS \<and>
     length (concat chunks) = NUM_PATIENTS * DAYS_OF_DATA \<and>
     (\<forall>c\<in>set chunks. (\<exists>wp. patient_series wp c) \<and> length c = DAYS_OF_DATA \<and>
        (\<forall>d<DAYS_OF_DATA. (c ! d) ''days_since_discharge'' = Some (PInt (int d)))) \<and>
     (\<forall>p<NUM_PATIENTS. \<forall>d<DAYS_OF_DATA.
        (concat chunks ! (p * DAYS_OF_DATA + d)) ''days_since_discharge'' = Some (PInt (int d)))"
proof -
  from for_patients_chunks[of NUM_PATIENTS "[]" w]
  obtain chunks w' where r: "for_patients NUM_PATIENTS [] w = Inr ([] @ concat chunks, w')"
    and l: "length chunks = NUM_PATIENTS"
    and a: "\<forall>c\<in>set chunks. (\<exists>wp. patient_series wp c) \<and> length c = DAYS_OF_DATA \<and>
        (\<forall>d<DAYS_OF_DATA. (c ! d) ''days_since_discharge'' = Some (PInt (int d)))" by blast
  have u: "\<forall>c\<in>set chunks. length c = DAYS_OF_DATA" using a by blast
  have len: "length (concat chunks) = NUM_PATIENTS * DAYS_OF_DATA"
    using length_concat_uniform[OF u] l by simp
  have idx: "(concat chunks ! (p * DAYS_OF_DATA + d)) ''days_since_discharge'' = Some (PInt (int d))"
    if "p < NUM_PATIENTS" "d < DAYS_OF_DATA" for p d
  proof -
    have "chunks ! p \<in> set chunks" using that l by simp
    then have "(chunks ! p ! d) ''days_since_discharge'' = Some (PInt (int d))"
      using a that by blast
    then show ?thesis using nth_concat_uniform[OF u, of p d] that l by simp
  qed
  have run: "generate_all_patient_data w = Inr (concat chunks, w')"
    using r by (simp add: generate_all_patient_data_def)
  show ?thesis
    apply (rule exI[of _ chunks], rule exI[of _ w'])
    using run l len a idx by blast
qed

lemma stable_patient_is_generated:
  "base_patient_info absent_world = Inr (stable_patient, absent_world)"
  by (simp add: base_patient_info_def absent_world_def zeros_def uuid4_def
      choose_profile_stable py_randint_def randbelow_def
      py_choice_def py_sample_def COMORBIDITIES_def raising_def timedelta_days_def
      stable_patient_def Let_def)

text \<open>
  C5. Every run of \<^verbatim>\<open>generate_all_patient_data\<close> returns, and what it returns is the
  concatenation of \<open>NUM_PATIENTS\<close> blocks in the order of the patients, \<open>NUM_PATIENTS\<close>
  times \<open>DAYS_OF_DATA\<close> records in all. Each block is the series of one patient: it has
  \<open>DAYS_OF_DATA\<close> records, and the record at position \<open>d\<close> of the block, which is the
  record at position \<open>p * DAYS_OF_DATA + d\<close> of the dataset for the block of patient
  \<open>p\<close>, has \<open>days_since_discharge = d\<close>.
\<close>

theorem dataset_is_patient_major:
  "\<exists>chunks w'. generate_all_patient_data w = Inr (concat chunks, w') \<and>
     length chunks = NUM_PATIENTS \<and>
     length (concat chunks) = NUM_PATIENTS * DAYS_OF_DATA \<and>
     (\<forall>p<NUM_PATIENTS.
        (\<exists>wp. patient_series wp (chunks ! p)) \<and> length (chunks ! p) = DAYS_OF_DATA \<and>
        (\<forall>d<DAYS_OF_DATA.
           concat chunks ! (p * DAYS_OF_DATA + d) = chunks ! p ! d \<and>
           (chunks ! p ! d) ''days_since_discharge'' = Some (PInt (int d))))"
proof -
  from generate_all_chunks[of w]
  obtain chunks w' where r: "generate_all_patient_data w = Inr (concat chunks, w')"
    and l: "length chunks = NUM_PATIENTS"
      "length (concat chunks) = NUM_PATIENTS * DAYS_OF_DATA"
    and a: "\<forall>c\<in>set chunks. (\<exists>wp. patient_series wp c) \<and> length c = DAYS_OF_DATA \<and>
        (\<forall>d<DAYS_OF_DATA. (c ! d) ''days_since_discharge'' = Some (PInt (int d)))" by blast
  have u: "\<forall>c\<in>set chunks. length c = DAYS_OF_DATA" using a by blast
  have pat: "(\<exists>wp. patient_series wp (chunks ! p)) \<and> length (chunks ! p) = DAYS_OF_DATA \<and>
        (\<forall>d<DAYS_OF_DATA.
           concat chunks ! (p * DAYS_OF_DATA + d) = chunks ! p ! d \<and>
           (chunks ! p ! d) ''days_since_discharge'' = Some (PInt (int d)))"
    if p: "p < NUM_PATIENTS" for p
  proof -
    have m: "chunks ! p \<in> set chunks" using p l by simp
    have i: "concat chunks ! (p * DAYS_OF_DATA + d) = chunks ! p ! d" if "d < DAYS_OF_DATA" for d
      using nth_concat_uniform[OF u, of p d] that p l by simp
    show ?thesis using a m i by blast
  qed
  show ?thesis
    apply (rule exI[of _ chunks], rule exI[of _ w'])
    using r l pat by blast
qed

theorem dataset_is_patient_major_witness:
  "(2::nat) < NUM_PATIENTS \<and> (7::nat) < DAYS_OF_DATA \<and>
   (\<exists>recs w'. generate_all_patient_data absent_world = Inr (recs, w') \<and>
      length recs = NUM_PATIENTS * DAYS_OF_DATA \<and>
      (recs ! (2 * DAYS_OF_DATA + 7)) ''days_since_discharge'' = Some (PInt 7))"
proof -
  have h1: "(2::nat) < NUM_PATIENTS" by (simp add: NUM_PATIENTS_def)
  have h2: "(7::nat) < DAYS_OF_DATA" by (simp add: DAYS_OF_DATA_def)
  from dataset_is_patient_major[of absent_world]
  obtain chunks w' where
    r: "generate_all_patient_data absent_world = Inr (concat chunks, w')"
      "length (concat chunks) = NUM_PATIENTS * DAYS_OF_DATA"
    and a: "\<forall>p<NUM_PATIENTS.
        (\<exists>wp. patient_series wp (chunks ! p)) \<and> length (chunks ! p) = DAYS_OF_DATA \<and>
        (\<forall>d<DAYS_OF_DATA.
           concat chunks ! (p * DAYS_OF_DATA + d) = chunks ! p ! d \<and>
           (chunks ! p ! d) ''days_since_discharge'' = Some (PInt (int d)))" by blast
  from a h1 have "\<forall>d<DAYS_OF_DATA.
           concat chunks ! (2 * DAYS_OF_DATA + d) = chunks ! 2 ! d \<and>
           (chunks ! 2 ! d) ''days_since_discharge'' = Some (PInt (int d))" by blast
  with h2 have "concat chunks ! (2 * DAYS_OF_DATA + 7) = chunks ! 2 ! 7 \<and>
           (chunks ! 2 ! 7) ''days_since_discharge'' = Some (PInt (int 7))" by blast
  then have "(concat chunks ! (2 * DAYS_OF_DATA + 7)) ''days_since_discharge'' = Some (PInt 7)"
    by simp
  then show ?thesis using h1 h2 r by blast
qed

text \<open>
  C6. For every patient that the loop body generates, the call of
  \<^verbatim>\<open>generate_daily_time_series\<close> on the base record returns \<open>DAYS_OF_DATA\<close> records,
  and in each of them every one of the seven keys of the base record is present with the
  value it has in the base record.
\<close>

theorem base_fields_carried_verbatim:
  "\<exists>base_info w1 recs g'.
     base_patient_info w = Inr (base_info, w1) \<and>
     generate_daily_time_series base_info (random_state w1) = Inr (recs, g') \<and>
     length recs = DAYS_OF_DATA \<and>
     (\<forall>d<DAYS_OF_DATA. \<forall>k\<in>set BASE_KEYS. (recs ! d) k = base_info k \<and> base_info k \<noteq> None)"
proof -
  from patient_facts[of w]
  obtain base_info w1 s where b: "base_patient_info w = Inr (base_info, w1)"
    and run: "daily_loop base_info (random_state w1) = Inr s"
    and len: "length (records s) = DAYS_OF_DATA"
    and day: "\<forall>d<DAYS_OF_DATA. (records s ! d) ''days_since_discharge'' = Some (PInt (int d)) \<and>
        (\<forall>k\<in>set BASE_KEYS. (records s ! d) k = base_info k \<and> base_info k \<noteq> None)"
    by blast
  show ?thesis
    apply (rule exI[of _ base_info], rule exI[of _ w1], rule exI[of _ "records s"],
        rule exI[of _ "rng_state s"])
    using b series_of_loop[OF run] len day by blast
qed

theorem base_fields_carried_verbatim_witness:
  "(3::nat) < DAYS_OF_DATA \<and> ''age'' \<in> set BASE_KEYS \<and>
   (\<exists>recs g'. base_patient_info absent_world = Inr (stable_patient, absent_world) \<and>
      generate_daily_time_series stable_patient (random_state absent_world) = Inr (recs, g') \<and>
      length recs = DAYS_OF_DATA \<and> (recs ! 3) ''age'' = Some (PInt 65))"
proof -
  have h1: "(3::nat) < DAYS_OF_DATA" by (simp add: DAYS_OF_DATA_def)
  have h2: "''age'' \<in> set BASE_KEYS" by (simp add: BASE_KEYS_def)
  have age: "stable_patient ''age'' = Some (PInt 65)" by (simp add: stable_patient_def)
  from base_fields_carried_verbatim[of absent_world]
  obtain recs g' where
    r: "generate_daily_time_series stable_patient (random_state absent_world) = Inr (recs, g')"
      "length recs = DAYS_OF_DATA"
    and a: "\<forall>d<DAYS_OF_DATA. \<forall>k\<in>set BASE_KEYS.
        (recs ! d) k = stable_patient k \<and> stable_patient k \<noteq> None"
    by (auto simp: stable_patient_is_generated)
  from a h1 h2 have "(recs ! 3) ''age'' = stable_patient ''age''" by blast
  then show ?thesis using h1 h2 r age stable_patient_is_generated by simp
qed

text \<open>
  C7. In every base record the field \<open>comorbidities\<close> is a list of at most three
  entries, without duplicates, all of them taken from the four names of the vocabulary.
\<close>

theorem comorbidities_distinct_at_most_three:
  "\<exists>base_info w1 cs.
     base_patient_info w = Inr (base_info, w1) \<and>
     base_info ''comorbidities'' = Some (PList cs) \<and>
     length cs \<le> 3 \<and> distinct cs \<and> set cs \<subseteq> set COMORBIDITIES"
proof -
  from patient_facts[of w] show ?thesis by blast
qed

section \<open>The main block without a destination\<close>

text \<open>
  C9. When the endpoint or the key is absent from the environment, the script generates
  the whole dataset, \<open>NUM_PATIENTS\<close> times \<open>DAYS_OF_DATA\<close> records, prints the count and
  the warning, constructs no client, does not call \<^verbatim>\<open>ingest_data\<close>, and exits with
  status 0.
\<close>

theorem skip_ingestion_when_unconfigured:
  assumes "getenv ''ELASTICSEARCH_ENDPOINT'' = None \<or> getenv ''API_KEY'' = None"
  shows "\<exists>data w'. generate_all_patient_data w = Inr (data, w') \<and>
           length data = NUM_PATIENTS * DAYS_OF_DATA \<and>
           main client_ok getenv w =
             \<lparr>effects = [Print_Starting, Print_Generated (length data) NUM_PATIENTS,
                         Print_Warning_Skipping],
              all_data = Some data, exit_code = 0\<rparr>"
proof -
  from generate_all_chunks[of w]
  obtain chunks w' where r: "generate_all_patient_data w = Inr (concat chunks, w')"
    and l: "length (concat chunks) = NUM_PATIENTS * DAYS_OF_DATA" by blast
  have f: "\<not> (truthy (getenv ''ELASTICSEARCH_ENDPOINT'') \<and> truthy (getenv ''API_KEY''))"
    using assms by (auto simp: truthy_def)
  have "main client_ok getenv w =
             \<lparr>effects = [Print_Starting, Print_Generated (length (concat chunks)) NUM_PATIENTS,
                         Print_Warning_Skipping],
              all_data = Some (concat chunks), exit_code = 0\<rparr>"
    using f by (simp add: main_def r)
  then show ?thesis using r l by blast
qed

theorem skip_ingestion_when_unconfigured_witness:
  "(partial_env ''ELASTICSEARCH_ENDPOINT'' = None \<or> partial_env ''API_KEY'' = None) \<and>
   (\<exists>data w'. generate_all_patient_data absent_world = Inr (data, w') \<and>
           length data = NUM_PATIENTS * DAYS_OF_DATA \<and>
           main (\<lambda>endpoint key. True) partial_env absent_world =
             \<lparr>effects = [Print_Starting, Print_Generated (length data) NUM_PATIENTS,
                         Print_Warning_Skipping],
              all_data = Some data, exit_code = 0\<rparr>)"
proof -
  have h: "partial_env ''ELASTICSEARCH_ENDPOINT'' = None \<or> partial_env ''API_KEY'' = None"
    by (simp add: partial_env_def)
  from skip_ingestion_when_unconfigured[of partial_env absent_world "\<lambda>endpoint key. True", OF h] h
  show ?thesis by blast
qed

end
